(* ===== verification/Mirage_Prelude.thy ===== *)
theory Mirage_Prelude
  imports Main "HOL-Library.Char_ord" "HOL-Library.List_Lexorder" "HOL-Library.AList"
begin

text \<open>
  What every component of the development shares: Python's strings, decimal
  printing, insertion-ordered dictionaries, the collections of simplification
  rules, and the three interfaces (locales) that several components provide:
  \<open>step_system\<close> (an invariant kept by every step), \<open>optimistic_store\<close>
  (optimistic locking by a version number) and \<open>idempotent_store\<close>
  (at-most-once effects by a deduplication key).

  A Python \<open>str\<close> is a \<open>string\<close>, the list of its UTF-8 bytes; the
  code's dictionaries are association lists in insertion order, written with
  \<open>AList.update\<close> and read with \<open>map_of\<close>; a raised exception is the
  \<open>Inl\<close> of a sum; a database row that is not there is \<open>None\<close>.
\<close>

section \<open>Rule collections and type names\<close>

named_theorems frame_simps \<open>fields an operation leaves alone\<close>
named_theorems branch_simps \<open>the outcome of an operation on one of its branches\<close>

type_synonym id_supply = "nat \<Rightarrow> string"
type_synonym timestamp = int

section \<open>Results\<close>

definition is_ok :: "'e + 'a \<Rightarrow> bool" where
  "is_ok r = (case r of Inl _ \<Rightarrow> False | Inr _ \<Rightarrow> True)"

lemma is_ok_simps [simp]: "is_ok (Inl e) = False" "is_ok (Inr a) = True"
  by (simp_all add: is_ok_def)

lemma is_okE: "is_ok r \<Longrightarrow> (\<And>a. r = Inr a \<Longrightarrow> P) \<Longrightarrow> P"
  by (cases r) auto

text \<open>Continue with the value of a call that returned; an exception propagates.\<close>

definition sbind :: "'e + 'a \<Rightarrow> ('a \<Rightarrow> 'e + 'b) \<Rightarrow> 'e + 'b" where
  "sbind r f = (case r of Inl e \<Rightarrow> Inl e | Inr a \<Rightarrow> f a)"

lemma sbind_simps [simp]: "sbind (Inl e) f = Inl e" "sbind (Inr a) f = f a"
  by (simp_all add: sbind_def)

lemma sbind_Inr: "sbind r f = Inr b \<longleftrightarrow> (\<exists>a. r = Inr a \<and> f a = Inr b)"
  by (cases r) simp_all

lemma sbind_Inl: "sbind r f = Inl e \<longleftrightarrow> r = Inl e \<or> (\<exists>a. r = Inr a \<and> f a = Inl e)"
  by (cases r) simp_all

section \<open>Decimal printing\<close>

definition digit_char :: "nat \<Rightarrow> char" where
  "digit_char d = char_of (48 + d)"

fun show_nat :: "nat \<Rightarrow> string" where
  "show_nat n = (if n < 10 then [digit_char n] else show_nat (n div 10) @ [digit_char (n mod 10)])"

declare show_nat.simps [simp del]

definition show_int :: "int \<Rightarrow> string" where
  "show_int i = (if i < 0 then ''-'' @ show_nat (nat (- i)) else show_nat (nat i))"

definition is_digit :: "char \<Rightarrow> bool" where
  "is_digit c = (48 \<le> (of_char c :: nat) \<and> (of_char c :: nat) \<le> 57)"

definition digit_val :: "char \<Rightarrow> nat" where
  "digit_val c = of_char c - 48"

definition read_nat :: "string \<Rightarrow> nat" where
  "read_nat s = foldl (\<lambda>a c. 10 * a + digit_val c) 0 s"

lemma digit_char_table:
  "digit_char 0 = CHR ''0''" "digit_char 1 = CHR ''1''" "digit_char 2 = CHR ''2''" "digit_char 3 = CHR ''3''" "digit_char 4 = CHR ''4''" "digit_char 5 = CHR ''5''" "digit_char 6 = CHR ''6''" "digit_char 7 = CHR ''7''" "digit_char 8 = CHR ''8''" "digit_char 9 = CHR ''9''" "digit_char (Suc 0) = CHR ''1''"
  by code_simp+

lemma digit_char_digit: "d < 10 \<Longrightarrow> is_digit (digit_char d)"
  by (simp add: is_digit_def digit_char_def)

lemma digit_val_char: "d < 10 \<Longrightarrow> digit_val (digit_char d) = d"
  by (simp add: digit_val_def digit_char_def)

lemma digit_char_inj: "a < 10 \<Longrightarrow> b < 10 \<Longrightarrow> digit_char a = digit_char b \<longleftrightarrow> a = b"
  by (metis digit_val_char)

lemma digit_char_less: "a < 10 \<Longrightarrow> b < 10 \<Longrightarrow> digit_char a < digit_char b \<longleftrightarrow> a < b"
  by (simp add: digit_char_def less_char_def)

lemma show_nat_digits: "list_all is_digit (show_nat n)"
proof (induction n rule: show_nat.induct)
  case (1 n)
  then show ?case
    by (cases "n < 10") (simp_all add: show_nat.simps [of n] digit_char_digit)
qed

lemma show_nat_nonempty [simp]: "show_nat n \<noteq> []"
  by (subst show_nat.simps) simp

lemma read_nat_snoc: "read_nat (s @ [c]) = 10 * read_nat s + digit_val c"
  by (simp add: read_nat_def)

lemma read_show_nat [simp]: "read_nat (show_nat n) = n"
proof (induction n rule: show_nat.induct)
  case (1 n)
  show ?case
  proof (cases "n < 10")
    case True
    then show ?thesis by (simp add: show_nat.simps [of n] read_nat_def digit_val_char)
  next
    case False
    with 1 have "read_nat (show_nat (n div 10)) = n div 10" by simp
    with False show ?thesis
      by (simp add: show_nat.simps [of n] read_nat_snoc digit_val_char)
  qed
qed

lemma show_nat_inj: "show_nat a = show_nat b \<longleftrightarrow> a = b"
  by (metis read_show_nat)

section \<open>Python string operations\<close>

definition char_lower :: "char \<Rightarrow> char" where
  "char_lower c =
     (let n = (of_char c :: nat) in if 65 \<le> n \<and> n \<le> 90 then char_of (n + 32) else c)"

definition str_lower :: "string \<Rightarrow> string" where
  "str_lower s = map char_lower s"

definition char_upper :: "char \<Rightarrow> char" where
  "char_upper c =
     (let n = (of_char c :: nat) in if 97 \<le> n \<and> n \<le> 122 then char_of (n - 32) else c)"

definition str_upper :: "string \<Rightarrow> string" where
  "str_upper s = map char_upper s"

definition is_space :: "char \<Rightarrow> bool" where
  "is_space c = (let n = (of_char c :: nat) in (9 \<le> n \<and> n \<le> 13) \<or> (28 \<le> n \<and> n \<le> 32))"

definition str_strip :: "string \<Rightarrow> string" where
  "str_strip s = rev (dropWhile is_space (rev (dropWhile is_space s)))"

fun str_prefix :: "string \<Rightarrow> string \<Rightarrow> bool" where
  "str_prefix [] s = True"
| "str_prefix (p # ps) [] = False"
| "str_prefix (p # ps) (c # s) = (p = c \<and> str_prefix ps s)"

fun str_contains :: "string \<Rightarrow> string \<Rightarrow> bool" where
  "str_contains p [] = (p = [])"
| "str_contains p (c # s) = (str_prefix p (c # s) \<or> str_contains p s)"

fun split_on :: "char \<Rightarrow> string \<Rightarrow> string list" where
  "split_on d [] = [[]]"
| "split_on d (c # s) =
     (if c = d then [] # split_on d s
      else case split_on d s of [] \<Rightarrow> [[c]] | w # ws \<Rightarrow> (c # w) # ws)"

fun str_join :: "string \<Rightarrow> string list \<Rightarrow> string" where
  "str_join sep [] = []"
| "str_join sep [w] = w"
| "str_join sep (w # v # ws) = w @ sep @ str_join sep (v # ws)"

definition str_replace1 :: "char \<Rightarrow> string \<Rightarrow> string \<Rightarrow> string" where
  "str_replace1 a b s = concat (map (\<lambda>c. if c = a then b else [c]) s)"

text \<open>Python's \<^verbatim>\<open>repr\<close> of a string and of a list of strings.\<close>

definition repr_char :: "char \<Rightarrow> char \<Rightarrow> string" where
  "repr_char q c =
     (let n = (of_char c :: nat); hex = (\<lambda>d. if d < 10 then char_of (48 + d) else char_of (87 + d)) in
      if c = q \<or> n = 92 then [CHR 0x5C, c]
      else if n = 10 then [CHR 0x5C, CHR ''n'']
      else if n = 13 then [CHR 0x5C, CHR ''r'']
      else if n = 9 then [CHR 0x5C, CHR ''t'']
      else if n < 32 \<or> n = 127 then [CHR 0x5C, CHR ''x'', hex (n div 16), hex (n mod 16)]
      else [c])"

definition py_repr :: "string \<Rightarrow> string" where
  "py_repr s =
     (let q = (if CHR 0x27 \<in> set s \<and> CHR 0x22 \<notin> set s then CHR 0x22 else CHR 0x27)
      in [q] @ concat (map (repr_char q) s) @ [q])"

definition py_repr_list :: "string list \<Rightarrow> string" where
  "py_repr_list xs = ''['' @ str_join '', '' (map py_repr xs) @ '']''"

lemma str_prefix_iff: "str_prefix p s \<longleftrightarrow> (\<exists>t. s = p @ t)"
  by (induction p s rule: str_prefix.induct) auto

lemma str_contains_iff: "str_contains p s \<longleftrightarrow> (\<exists>a b. s = a @ p @ b)"
proof (induction s)
  case Nil
  then show ?case by simp
next
  case (Cons c s)
  show ?case
  proof
    assume "str_contains p (c # s)"
    then consider "str_prefix p (c # s)" | "str_contains p s" by auto
    then show "\<exists>a b. c # s = a @ p @ b"
    proof cases
      case 1
      then show ?thesis unfolding str_prefix_iff by (metis append_Nil)
    next
      case 2
      then show ?thesis using Cons.IH by (metis append_Cons)
    qed
  next
    assume "\<exists>a b. c # s = a @ p @ b"
    then obtain a b where ab: "c # s = a @ p @ b" by blast
    show "str_contains p (c # s)"
    proof (cases a)
      case Nil
      with ab have "str_prefix p (c # s)" unfolding str_prefix_iff by auto
      then show ?thesis by simp
    next
      case (Cons x a')
      with ab have "s = a' @ p @ b" by simp
      then show ?thesis using Cons.IH by auto
    qed
  qed
qed

lemma split_on_nonempty [simp]: "split_on d s \<noteq> []"
  by (induction s) (auto split: list.splits)

lemma split_on_no_sep: "d \<notin> set s \<Longrightarrow> split_on d s = [s]"
  by (induction s) auto

lemma split_on_append: "d \<notin> set a \<Longrightarrow> split_on d (a @ d # s) = a # split_on d s"
  by (induction a) (auto split: list.splits)

lemma split_on_no_sep_parts: "w \<in> set (split_on d s) \<Longrightarrow> d \<notin> set w"
  by (induction s arbitrary: w) (auto split: list.splits if_splits)

lemma str_join_Cons: "ws \<noteq> [] \<Longrightarrow> str_join sep (w # ws) = w @ sep @ str_join sep ws"
  by (cases ws) auto

lemma join_split_on: "str_join [d] (split_on d s) = s"
proof (induction s)
  case Nil
  then show ?case by simp
next
  case (Cons c s)
  obtain w ws where ws: "split_on d s = w # ws" by (cases "split_on d s") auto
  with Cons.IH show ?case by (cases ws) auto
qed

lemma split_on_join:
  "ws \<noteq> [] \<Longrightarrow> (\<And>w. w \<in> set ws \<Longrightarrow> d \<notin> set w) \<Longrightarrow> split_on d (str_join [d] ws) = ws"
proof (induction "[d]" ws rule: str_join.induct)
  case 1
  then show ?case by simp
next
  case (2 w)
  then show ?case by (simp add: split_on_no_sep)
next
  case (3 w v ws)
  then show ?case by (simp add: split_on_append)
qed

section \<open>Dictionaries in insertion order\<close>

lemma map_of_update [simp]: "map_of (AList.update k v al) = (map_of al)(k \<mapsto> v)"
  by (simp add: AList.update_conv')

lemma list_all2_member: "list_all2 R xs ys \<Longrightarrow> x \<in> set xs \<Longrightarrow> \<exists>y \<in> set ys. R x y"
  by (induction rule: list_all2_induct) auto

section \<open>Tables\<close>

text \<open>
  A database table is the list of its rows in insertion order. \<open>lookup_by\<close> is a
  SELECT by a key, \<open>update_where\<close> an UPDATE, \<open>row_count\<close> the number of
  rows the UPDATE touches.
\<close>

definition lookup_by :: "('r \<Rightarrow> 'k) \<Rightarrow> 'r list \<Rightarrow> 'k \<Rightarrow> 'r option" where
  "lookup_by key rows k = find (\<lambda>r. key r = k) rows"

definition update_where :: "('r \<Rightarrow> bool) \<Rightarrow> ('r \<Rightarrow> 'r) \<Rightarrow> 'r list \<Rightarrow> 'r list" where
  "update_where P f rows = map (\<lambda>r. if P r then f r else r) rows"

definition row_count :: "('r \<Rightarrow> bool) \<Rightarrow> 'r list \<Rightarrow> nat" where
  "row_count P rows = length (filter P rows)"

lemma lookup_by_Nil [simp]: "lookup_by key [] k = None"
  by (simp add: lookup_by_def)

lemma lookup_by_Cons [simp]:
  "lookup_by key (r # rows) k = (if key r = k then Some r else lookup_by key rows k)"
  by (simp add: lookup_by_def)

lemma lookup_by_key: "lookup_by key rows k = Some r \<Longrightarrow> key r = k \<and> r \<in> set rows"
  by (induction rows) (auto split: if_splits)

lemma lookup_by_None: "lookup_by key rows k = None \<longleftrightarrow> k \<notin> key ` set rows"
  by (induction rows) auto

lemma lookup_by_append [simp]:
  "lookup_by key (rows @ rows') k =
     (case lookup_by key rows k of None \<Rightarrow> lookup_by key rows' k | Some r \<Rightarrow> Some r)"
  by (induction rows) auto

lemma lookup_by_update [simp]:
  assumes "\<And>r. key (f r) = key r"
  shows "lookup_by key (update_where P f rows) k =
     map_option (\<lambda>r. if P r then f r else r) (lookup_by key rows k)"
  using assms by (induction rows) (auto simp: update_where_def)

lemma keys_update [simp]: "(\<And>r. key (f r) = key r) \<Longrightarrow> map key (update_where P f rows) = map key rows"
  by (induction rows) (auto simp: update_where_def)

lemma set_update_where: "set (update_where P f rows) = (\<lambda>r. if P r then f r else r) ` set rows"
  by (simp add: update_where_def)

lemma length_update_where [simp]: "length (update_where P f rows) = length rows"
  by (simp add: update_where_def)

lemma row_count_unique:
  assumes "distinct (map key rows)" and "lookup_by key rows k = Some r" and "P r"
    and "\<And>r'. P r' \<Longrightarrow> key r' = k"
  shows "row_count P rows = 1"
  using assms
proof (induction rows)
  case Nil
  then show ?case by simp
next
  case (Cons x xs)
  show ?case
  proof (cases "key x = k")
    case True
    with Cons.prems have "k \<notin> key ` set xs" "P x" by auto
    then have "filter P xs = []" using Cons.prems(4) by (auto simp: filter_empty_conv)
    with \<open>P x\<close> show ?thesis by (simp add: row_count_def)
  next
    case False
    then have "\<not> P x" using Cons.prems(4) by blast
    moreover have "row_count P xs = 1" using Cons False by auto
    ultimately show ?thesis by (simp add: row_count_def)
  qed
qed

section \<open>Interface: an invariant of a step relation\<close>

locale step_system =
  fixes step :: "'s \<Rightarrow> 's \<Rightarrow> bool"
    and inv :: "'s \<Rightarrow> bool"
  assumes step_inv: "step s t \<Longrightarrow> inv s \<Longrightarrow> inv t"
begin

lemma steps_inv: "step\<^sup>*\<^sup>* s t \<Longrightarrow> inv s \<Longrightarrow> inv t"
  by (induction rule: rtranclp_induct) (auto intro: step_inv)

end

section \<open>Interface: optimistic locking\<close>

text \<open>
  A store keeps a version per key. A request names the version it read; it
  takes effect only at that version and then advances it by one, so a request
  that is replayed, or that lost a race, has no effect.
\<close>

locale optimistic_store =
  fixes ver :: "'s \<Rightarrow> 'k \<Rightarrow> int option"
    and exec :: "'s \<Rightarrow> 'k \<Rightarrow> int \<Rightarrow> 'a \<Rightarrow> 'r option \<times> 's"
  assumes exec_success: "exec s k v a = (Some r, t) \<Longrightarrow> ver s k = Some v \<and> ver t k = Some (v + 1)"
    and exec_failure: "exec s k v a = (None, t) \<Longrightarrow> t = s"
    and exec_other: "exec s k v a = (q, t) \<Longrightarrow> k' \<noteq> k \<Longrightarrow> ver t k' = ver s k'"
begin

lemma stale_rejected: "ver s k \<noteq> Some v \<Longrightarrow> exec s k v a = (None, s)"
proof -
  assume stale: "ver s k \<noteq> Some v"
  obtain q t where qt: "exec s k v a = (q, t)" by (cases "exec s k v a") auto
  with stale have "q = None" by (cases q) (auto dest: exec_success)
  with qt show ?thesis using exec_failure [of s k v a t] by simp
qed

lemma replay_rejected: "exec s k v a = (Some r, t) \<Longrightarrow> exec t k v b = (None, t)"
  by (rule stale_rejected) (auto dest: exec_success)

fun exec_all :: "'s \<Rightarrow> ('k \<times> int \<times> 'a) list \<Rightarrow> 's" where
  "exec_all s [] = s"
| "exec_all s ((k, v, a) # rs) = exec_all (snd (exec s k v a)) rs"

lemma exec_ver_mono:
  assumes "ver s k = Some v"
  shows "\<exists>v'. ver (snd (exec s k' w a)) k = Some v' \<and> v \<le> v'"
proof -
  obtain q t where qt: "exec s k' w a = (q, t)" by (cases "exec s k' w a") auto
  show ?thesis
  proof (cases "k' = k")
    case True
    show ?thesis
    proof (cases q)
      case None
      with qt assms show ?thesis by (auto dest: exec_failure)
    next
      case (Some r)
      with qt True assms show ?thesis by (auto dest!: exec_success)
    qed
  next
    case False
    with qt assms show ?thesis using exec_other [OF qt, of k] by auto
  qed
qed

lemma exec_all_ver_mono:
  "ver s k = Some v \<Longrightarrow> \<exists>v'. ver (exec_all s rs) k = Some v' \<and> v \<le> v'"
proof (induction rs arbitrary: s v)
  case Nil
  then show ?case by simp
next
  case (Cons r rs)
  obtain k' w a where r: "r = (k', w, a)" by (cases r) auto
  from exec_ver_mono [OF Cons.prems, of k' w a] obtain v1
    where v1: "ver (snd (exec s k' w a)) k = Some v1" "v \<le> v1" by blast
  from Cons.IH [OF v1(1)] obtain v2
    where "ver (exec_all (snd (exec s k' w a)) rs) k = Some v2" "v1 \<le> v2" by blast
  with v1 r show ?case by auto
qed

text \<open>Two requests for the same version never both succeed, whatever runs in between.\<close>

lemma at_most_one_winner:
  assumes "exec s k v a = (Some r, t)"
  shows "exec (exec_all t rs) k v b = (None, exec_all t rs)"
proof -
  from assms have "ver t k = Some (v + 1)" by (auto dest: exec_success)
  from exec_all_ver_mono [OF this, of rs] obtain v' where "ver (exec_all t rs) k = Some v'" "v + 1 \<le> v'"
    by blast
  then show ?thesis by (intro stale_rejected) simp
qed

end

section \<open>Interface: at-most-once effects\<close>

text \<open>
  A consumer records a deduplication key with the effect of a request. Once a
  key is recorded, a request with that key leaves the store alone and answers
  with what was recorded. \<open>x\<close> is the context of a call (clock, generated ids).
\<close>

locale idempotent_store =
  fixes seen :: "'s \<Rightarrow> 'k \<Rightarrow> bool"
    and handle :: "'s \<Rightarrow> 'k \<Rightarrow> 'a \<Rightarrow> 'x \<Rightarrow> ('e + 'r) \<times> 's"
    and answer :: "'r \<Rightarrow> 'ans"
    and recorded :: "'s \<Rightarrow> 'k \<Rightarrow> 'a \<Rightarrow> 'ans"
  assumes handle_fresh: "handle s k a x = (Inr r, t) \<Longrightarrow> seen t k \<and> recorded t k a = answer r"
    and handle_seen: "seen s k \<Longrightarrow> handle s k a x = (q, t) \<Longrightarrow> t = s"
    and seen_mono: "handle s k a x = (q, t) \<Longrightarrow> seen s k' \<Longrightarrow> seen t k'"
begin

fun handle_all :: "'s \<Rightarrow> ('k \<times> 'a \<times> 'x) list \<Rightarrow> 's" where
  "handle_all s [] = s"
| "handle_all s ((k, a, x) # rs) = handle_all (snd (handle s k a x)) rs"

lemma seen_handle: "seen s k \<Longrightarrow> seen (snd (handle s k' a x)) k"
  by (cases "handle s k' a x") (auto intro: seen_mono)

lemma seen_handle_all: "seen s k \<Longrightarrow> seen (handle_all s rs) k"
  by (induction s rs rule: handle_all.induct) (auto intro: seen_handle)

lemma seen_no_effect: "seen s k \<Longrightarrow> snd (handle s k a x) = s"
  by (cases "handle s k a x") (auto dest: handle_seen)

text \<open>However late a duplicate arrives, and whatever it carries besides the key, it has no effect.\<close>

lemma duplicate_no_effect:
  "handle s k a x = (Inr r, t) \<Longrightarrow> snd (handle (handle_all t rs) k b y) = handle_all t rs"
  by (intro seen_no_effect seen_handle_all) (auto dest: handle_fresh)

lemma redelivery_same_answer:
  "handle s k a x = (Inr r, t) \<Longrightarrow> handle t k a y = (Inr r', t') \<Longrightarrow> answer r' = answer r"
  using handle_fresh [of s k a x r t] handle_fresh [of t k a y r' t'] handle_seen [of t k a y "Inr r'" t'] by auto

end

end
