(* ===== verification/Mirage_Json.thy ===== *)
theory Mirage_Json
  imports Complex_Main Mirage_Prelude "HOL-Library.Multiset"
begin

text \<open>
  JSON values as Python holds them (a dictionary is an association list in
  insertion order, a float is a rational) and the canonical encoding of
  \<^verbatim>\<open>mirage_contracts/envelope.py\<close>: \<^verbatim>\<open>json.dumps\<close> with sorted keys, no
  white space and \<^verbatim>\<open>ensure_ascii=False\<close>. The text of a float
  (\<^verbatim>\<open>float.__repr__\<close>) is the argument \<open>fr\<close>; everything else is computed.
  The lemmas show that the encoding ignores the order of dictionary keys at
  any depth.
\<close>

datatype json =
    JNull
  | JBool bool
  | JInt int
  | JFloat rat
  | JStr string
  | JArr "json list"
  | JObj "(string \<times> json) list"

fun jget :: "json \<Rightarrow> string \<Rightarrow> json option" where
  "jget (JObj kvs) k = map_of kvs k"
| "jget _ k = None"

definition jopt :: "string option \<Rightarrow> json" where
  "jopt s = (case s of None \<Rightarrow> JNull | Some x \<Rightarrow> JStr x)"

section \<open>Python's view of a value\<close>

text \<open>
  Equality of Python values (numbers compare by value, dictionaries without order),
  \<^verbatim>\<open>dict.get\<close>, truth and \<^verbatim>\<open>repr\<close>.
\<close>

primrec py_norm :: "json \<Rightarrow> json" where
  "py_norm JNull = JNull"
| "py_norm (JBool b) = JFloat (if b then 1 else 0)"
| "py_norm (JInt i) = JFloat (of_int i)"
| "py_norm (JFloat q) = JFloat q"
| "py_norm (JStr s) = JStr s"
| "py_norm (JArr xs) = JArr (map py_norm xs)"
| "py_norm (JObj kvs) = JObj (sort_key fst (map (map_prod id py_norm) kvs))"

definition py_eq :: "json \<Rightarrow> json \<Rightarrow> bool" where
  "py_eq a b = (py_norm a = py_norm b)"

definition py_get :: "json \<Rightarrow> string \<Rightarrow> json" where
  "py_get j k = (case jget j k of None \<Rightarrow> JNull | Some v \<Rightarrow> v)"

definition py_get_default :: "json \<Rightarrow> string \<Rightarrow> json \<Rightarrow> json" where
  "py_get_default j k d = (case jget j k of None \<Rightarrow> d | Some v \<Rightarrow> v)"

definition py_falsy :: "json \<Rightarrow> bool" where
  "py_falsy j = (case j of JNull \<Rightarrow> True | JBool b \<Rightarrow> \<not> b | JInt i \<Rightarrow> i = 0 | JFloat q \<Rightarrow> q = 0
     | JStr s \<Rightarrow> s = [] | JArr xs \<Rightarrow> xs = [] | JObj kvs \<Rightarrow> kvs = [])"

definition is_dict :: "json \<Rightarrow> bool" where
  "is_dict j = (case j of JObj _ \<Rightarrow> True | _ \<Rightarrow> False)"

definition hashable :: "json \<Rightarrow> bool" where
  "hashable j = (case j of JArr _ \<Rightarrow> False | JObj _ \<Rightarrow> False | _ \<Rightarrow> True)"

definition py_num :: "json \<Rightarrow> rat option" where
  "py_num j = (case j of JInt i \<Rightarrow> Some (of_int i) | JFloat q \<Rightarrow> Some q
     | JBool b \<Rightarrow> Some (if b then 1 else 0) | _ \<Rightarrow> None)"

primrec py_repr_json :: "(rat \<Rightarrow> string) \<Rightarrow> json \<Rightarrow> string" where
  "py_repr_json fr JNull = ''None''"
| "py_repr_json fr (JBool b) = (if b then ''True'' else ''False'')"
| "py_repr_json fr (JInt i) = show_int i"
| "py_repr_json fr (JFloat q) = fr q"
| "py_repr_json fr (JStr s) = py_repr s"
| "py_repr_json fr (JArr xs) = ''['' @ str_join '', '' (map (py_repr_json fr) xs) @ '']''"
| "py_repr_json fr (JObj kvs) =
     ''{'' @ str_join '', '' (map (\<lambda>(k, t). py_repr k @ '': '' @ t) (map (map_prod id (py_repr_json fr)) kvs)) @ ''}''"

section \<open>The encoder\<close>

definition hex_digit :: "nat \<Rightarrow> char" where
  "hex_digit d = (if d < 10 then char_of (48 + d) else char_of (87 + d))"

definition json_escape_char :: "char \<Rightarrow> string" where
  "json_escape_char c =
     (let n = (of_char c :: nat) in
      if n = 34 then [CHR 0x5C, c]
      else if n = 92 then [c, c]
      else if n = 10 then [CHR 0x5C, CHR ''n'']
      else if n = 13 then [CHR 0x5C, CHR ''r'']
      else if n = 9 then [CHR 0x5C, CHR ''t'']
      else if n = 8 then [CHR 0x5C, CHR ''b'']
      else if n = 12 then [CHR 0x5C, CHR ''f'']
      else if n < 32 then [CHR 0x5C, CHR ''u'', CHR ''0'', CHR ''0'', hex_digit (n div 16), hex_digit (n mod 16)]
      else [c])"

definition json_quote :: "string \<Rightarrow> string" where
  "json_quote s = [CHR 0x22] @ concat (map json_escape_char s) @ [CHR 0x22]"

definition json_member :: "string \<times> string \<Rightarrow> string" where
  "json_member kv = json_quote (fst kv) @ '':'' @ snd kv"

primrec canonical_json_bytes :: "(rat \<Rightarrow> string) \<Rightarrow> json \<Rightarrow> string" where
  "canonical_json_bytes fr JNull = ''null''"
| "canonical_json_bytes fr (JBool b) = (if b then ''true'' else ''false'')"
| "canonical_json_bytes fr (JInt i) = show_int i"
| "canonical_json_bytes fr (JFloat q) = fr q"
| "canonical_json_bytes fr (JStr s) = json_quote s"
| "canonical_json_bytes fr (JArr xs) =
     ''['' @ str_join '','' (map (canonical_json_bytes fr) xs) @ '']''"
| "canonical_json_bytes fr (JObj kvs) =
     ''{'' @ str_join '',''
        (map json_member (sort_key fst (map (map_prod id (canonical_json_bytes fr)) kvs))) @ ''}''"

section \<open>Equality of Python values\<close>

text \<open>
  Two JSON values are equal in Python when they agree up to the order of their
  dictionaries' keys, at every depth.
\<close>

inductive json_eq :: "json \<Rightarrow> json \<Rightarrow> bool" where
  refl: "json_eq j j"
| arr: "list_all2 json_eq xs ys \<Longrightarrow> json_eq (JArr xs) (JArr ys)"
| obj: "distinct (map fst kvs) \<Longrightarrow>
        list_all2 (\<lambda>p q. fst p = fst q \<and> json_eq (snd p) (snd q)) kvs lvs \<Longrightarrow>
        mset mvs = mset lvs \<Longrightarrow> json_eq (JObj kvs) (JObj mvs)"

lemma sort_key_distinct_perm:
  assumes "mset xs = mset ys" and "distinct (map f xs)"
  shows "sort_key f xs = sort_key f ys"
proof -
  have "inj_on f (set xs)" using assms(2) by (simp add: distinct_map)
  moreover have "mset xs = mset (sort_key f ys)" using assms(1) by simp
  ultimately show ?thesis by (intro sort_key_inj_key_eq) auto
qed

lemma canonical_members_perm:
  assumes "mset kvs = mset lvs" and "distinct (map fst kvs)"
  shows "sort_key fst (map (map_prod id f) kvs) = sort_key fst (map (map_prod id f) lvs)"
proof (rule sort_key_distinct_perm)
  show "mset (map (map_prod id f) kvs) = mset (map (map_prod id f) lvs)"
    using assms(1) by simp
  show "distinct (map fst (map (map_prod id f) kvs))"
    using assms(2) by (simp add: map_prod_def comp_def case_prod_beta)
qed

lemma list_all2_keys:
  "list_all2 (\<lambda>p q. fst p = fst q \<and> R (snd p) (snd q)) kvs lvs \<Longrightarrow> map fst kvs = map fst lvs"
  by (induction rule: list_all2_induct) auto

lemma list_all2_encode:
  "list_all2 (\<lambda>p q. fst p = fst q \<and> f (snd p) = f (snd q)) kvs lvs \<Longrightarrow>
   map (map_prod id f) kvs = map (map_prod id f) lvs"
  by (induction rule: list_all2_induct) (auto simp: map_prod_def case_prod_beta)

lemma canonical_json_eq: "json_eq a b \<Longrightarrow> canonical_json_bytes fr a = canonical_json_bytes fr b"
proof (induction rule: json_eq.induct)
  case (refl j)
  then show ?case by simp
next
  case (arr xs ys)
  then have "list_all2 (\<lambda>x y. canonical_json_bytes fr x = canonical_json_bytes fr y) xs ys"
    by (auto elim: list_all2_mono)
  then have "map (canonical_json_bytes fr) xs = map (canonical_json_bytes fr) ys"
    by (induction rule: list_all2_induct) auto
  then show ?case by simp
next
  case (obj kvs lvs mvs)
  have "list_all2 (\<lambda>p q. fst p = fst q \<and> canonical_json_bytes fr (snd p) = canonical_json_bytes fr (snd q)) kvs lvs"
    using obj.IH by (auto elim: list_all2_mono)
  then have "map (map_prod id (canonical_json_bytes fr)) kvs = map (map_prod id (canonical_json_bytes fr)) lvs"
    by (rule list_all2_encode)
  moreover have "map fst kvs = map fst lvs"
    using obj.IH by (rule list_all2_keys)
  then have "distinct (map fst lvs)"
    using obj.hyps(1) by simp
  then have "sort_key fst (map (map_prod id (canonical_json_bytes fr)) lvs)
           = sort_key fst (map (map_prod id (canonical_json_bytes fr)) mvs)"
    using obj.hyps(2) by (intro canonical_members_perm) simp
  ultimately show ?case by simp
qed

end
