(* ===== verification/Mirage_Contracts.thy ===== *)
theory Mirage_Contracts
  imports Mirage_Json
begin

text \<open>
  The contracts package (\<^verbatim>\<open>contracts/python/mirage_contracts\<close>): ULIDs,
  RFC3339 timestamps, the typed errors, the schema registry and the envelope
  API (\<^verbatim>\<open>validate_event\<close>, \<^verbatim>\<open>validate_command\<close>, \<^verbatim>\<open>build_event\<close>).

  Third-party code is an argument: a JSON-Schema validator is a function from
  an instance to its error messages (\<open>schema_check\<close>), SHA-256 and the text
  of a float are fields of the record \<open>runtime\<close>, and a generated ULID is
  taken from a supply.
\<close>

section \<open>Runtime services\<close>

record runtime =
  rt_sha256 :: "string \<Rightarrow> string"
  rt_float :: "rat \<Rightarrow> string"

definition sha256_hex :: "runtime \<Rightarrow> json \<Rightarrow> string" where
  "sha256_hex rt obj = rt_sha256 rt (canonical_json_bytes (rt_float rt) obj)"

section \<open>Errors (errors.py)\<close>

datatype contract_error =
    InvalidUlidError string string
  | InvalidTimestampError string string
  | UnknownEventTypeError string
  | UnknownCommandTypeError string
  | UnsupportedSchemaVersionError string string "nat list"
  | MalformedSchemaVersionError string
  | EnvelopeValidationError "string list"
  | PayloadValidationError string "string list"
  | IntegrityMismatchError json string
  | PayloadTooLargeError nat
  | ValueError string
  | KeyError string
  | TypeError string
  | AssertionError

definition error_code :: "contract_error \<Rightarrow> string option" where
  "error_code e = (case e of
      InvalidUlidError _ _ \<Rightarrow> Some ''INVALID_ULID''
    | InvalidTimestampError _ _ \<Rightarrow> Some ''INVALID_TIMESTAMP''
    | UnknownEventTypeError _ \<Rightarrow> Some ''UNKNOWN_EVENT_TYPE''
    | UnknownCommandTypeError _ \<Rightarrow> Some ''UNKNOWN_COMMAND_TYPE''
    | UnsupportedSchemaVersionError _ _ _ \<Rightarrow> Some ''UNSUPPORTED_SCHEMA_VERSION''
    | MalformedSchemaVersionError _ \<Rightarrow> Some ''MALFORMED_SCHEMA_VERSION''
    | EnvelopeValidationError _ \<Rightarrow> Some ''ENVELOPE_VALIDATION_ERROR''
    | PayloadValidationError _ _ \<Rightarrow> Some ''PAYLOAD_VALIDATION_ERROR''
    | IntegrityMismatchError _ _ \<Rightarrow> Some ''INTEGRITY_MISMATCH''
    | PayloadTooLargeError _ \<Rightarrow> Some ''PAYLOAD_TOO_LARGE''
    | ValueError _ \<Rightarrow> None | KeyError _ \<Rightarrow> None | TypeError _ \<Rightarrow> None | AssertionError \<Rightarrow> None)"

section \<open>ULIDs (ulid.py)\<close>

definition in_range :: "nat \<Rightarrow> nat \<Rightarrow> char \<Rightarrow> bool" where
  "in_range lo hi c = (lo \<le> of_char c \<and> of_char c \<le> hi)"

definition ulid_first :: "char \<Rightarrow> bool" where
  "ulid_first c = in_range 48 55 c"

definition ulid_char :: "char \<Rightarrow> bool" where
  "ulid_char c = (in_range 48 57 c \<or> in_range 65 72 c \<or> in_range 74 75 c \<or>
     in_range 77 78 c \<or> in_range 80 84 c \<or> in_range 86 90 c)"

text \<open>
  \<^verbatim>\<open>re.match\<close> with a pattern that ends in \<^verbatim>\<open>$\<close> also accepts one
  newline after the match; \<open>before_dollar\<close> is what the rest of the pattern has
  to match.
\<close>

definition newline :: char where
  "newline = CHR 0x0A"

definition before_dollar :: "string \<Rightarrow> string" where
  "before_dollar s = (if s \<noteq> [] \<and> last s = newline then butlast s else s)"

definition canonical_ulid :: "string \<Rightarrow> bool" where
  "canonical_ulid s = (length s = 26 \<and> ulid_first (hd s) \<and> list_all ulid_char (tl s))"

definition is_valid_ulid :: "string \<Rightarrow> bool" where
  "is_valid_ulid v = canonical_ulid (before_dollar v)"

definition require_valid_ulid :: "string \<Rightarrow> string \<Rightarrow> contract_error + string" where
  "require_valid_ulid v field = (if \<not> is_valid_ulid v then Inl (InvalidUlidError field v) else Inr v)"

section \<open>Schema versions and the registry (registry.py)\<close>

definition all_digits :: "string \<Rightarrow> bool" where
  "all_digits s = (s \<noteq> [] \<and> list_all is_digit s)"

definition parse_schema_version :: "string \<Rightarrow> contract_error + nat \<times> nat" where
  "parse_schema_version v =
     (case split_on (CHR ''.'') (before_dollar v) of
        [a, b] \<Rightarrow> if all_digits a \<and> all_digits b then Inr (read_nat a, read_nat b)
                  else Inl (MalformedSchemaVersionError v)
      | _ \<Rightarrow> Inl (MalformedSchemaVersionError v))"

type_synonym schema_check = "json \<Rightarrow> string list"

record registry =
  reg_validators :: "((string \<times> nat) \<times> schema_check) list"
  reg_raw :: "((string \<times> nat) \<times> json) list"
  reg_envelope :: "schema_check option"

definition type_name_char :: "char \<Rightarrow> bool" where
  "type_name_char c = (in_range 97 122 c \<or> in_range 48 57 c \<or> c = CHR ''_'' \<or> c = CHR ''.'')"

definition type_name_ok :: "string \<Rightarrow> bool" where
  "type_name_ok s = (s \<noteq> [] \<and> in_range 97 122 (hd s) \<and> list_all type_name_char (tl s))"

text \<open>\<^verbatim>\<open><type_name>.v<major>.schema.json\<close>, read from the right.\<close>

definition parse_schema_filename :: "string \<Rightarrow> (string \<times> nat) option" where
  "parse_schema_filename name =
     (let r = rev (before_dollar name); suf = rev ''.schema.json'' in
      if \<not> str_prefix suf r then None
      else let r1 = drop (length suf) r;
               ds = takeWhile is_digit r1;
               r2 = dropWhile is_digit r1
           in if ds \<noteq> [] \<and> str_prefix ''v.'' r2 \<and> type_name_ok (rev (drop 2 r2))
              then Some (rev (drop 2 r2), read_nat (rev ds)) else None)"

definition load_one :: "(json \<Rightarrow> schema_check) \<Rightarrow> string \<times> json \<Rightarrow> registry \<Rightarrow> registry" where
  "load_one compile f reg =
     (if fst f = ''envelope.schema.json'' then reg\<lparr>reg_envelope := Some (compile (snd f))\<rparr>
      else case parse_schema_filename (fst f) of
             None \<Rightarrow> reg
           | Some key \<Rightarrow> reg\<lparr>reg_validators := AList.update key (compile (snd f)) (reg_validators reg),
                            reg_raw := AList.update key (snd f) (reg_raw reg)\<rparr>)"

definition load_registry :: "(json \<Rightarrow> schema_check) \<Rightarrow> (string \<times> json) list \<Rightarrow> registry" where
  "load_registry compile files =
     fold (load_one compile) (sort_key fst files)
       \<lparr>reg_validators = [], reg_raw = [], reg_envelope = None\<rparr>"

definition supported_majors :: "registry \<Rightarrow> string \<Rightarrow> nat list" where
  "supported_majors reg t = map (snd \<circ> fst) (filter (\<lambda>e. fst (fst e) = t) (reg_validators reg))"

definition get_validator :: "registry \<Rightarrow> string \<Rightarrow> nat \<Rightarrow> schema_check option" where
  "get_validator reg t m = map_of (reg_validators reg) (t, m)"

definition get_raw_schema :: "registry \<Rightarrow> string \<Rightarrow> nat \<Rightarrow> json option" where
  "get_raw_schema reg t m = map_of (reg_raw reg) (t, m)"

definition known_type_names :: "registry \<Rightarrow> string set" where
  "known_type_names reg = (fst \<circ> fst) ` set (reg_validators reg)"

lemma supported_majors_validator:
  "m \<in> set (supported_majors reg t) \<longleftrightarrow> get_validator reg t m \<noteq> None"
  by (force simp: supported_majors_def get_validator_def map_of_eq_None_iff)

section \<open>Envelopes (envelope.py)\<close>

definition MAX_PAYLOAD_BYTES :: nat where
  "MAX_PAYLOAD_BYTES = 256 * 1024"

record validated_event =
  ve_envelope :: json
  ve_payload :: json
  ve_event_type :: string
  ve_major_version :: nat

definition py_item :: "json \<Rightarrow> string \<Rightarrow> contract_error + json" where
  "py_item j k = (case jget j k of None \<Rightarrow> Inl (KeyError k) | Some v \<Rightarrow> Inr v)"

definition py_str_item :: "json \<Rightarrow> string \<Rightarrow> contract_error + string" where
  "py_str_item j k = (case py_item j k of Inl e \<Rightarrow> Inl e | Inr (JStr s) \<Rightarrow> Inr s | Inr _ \<Rightarrow> Inl (TypeError k))"

definition envelope_validator :: "registry \<Rightarrow> contract_error + schema_check" where
  "envelope_validator reg = (case reg_envelope reg of None \<Rightarrow> Inl AssertionError | Some c \<Rightarrow> Inr c)"

text \<open>
  The second half of both validators: resolve the schema by type and major
  version and check the body against it. \<open>unknown\<close> is the error class of the
  kind (event or command).
\<close>

definition resolve_and_check ::
  "registry \<Rightarrow> (string \<Rightarrow> contract_error) \<Rightarrow> nat list option \<Rightarrow> string \<Rightarrow> string \<Rightarrow> contract_error + json \<Rightarrow> contract_error + nat" where
  "resolve_and_check reg unknown supported ty version body =
     (case parse_schema_version version of
        Inl e \<Rightarrow> Inl e
      | Inr (major, _) \<Rightarrow>
          let registered = supported_majors reg ty in
          if registered = [] then Inl (unknown ty)
          else let allowed = (case supported of Some ms \<Rightarrow> ms | None \<Rightarrow> registered) in
            if major \<notin> set allowed then Inl (UnsupportedSchemaVersionError ty version allowed)
            else case get_validator reg ty major of
                   None \<Rightarrow> Inl AssertionError
                 | Some check \<Rightarrow>
                     (case body of
                        Inl e \<Rightarrow> Inl e
                      | Inr b \<Rightarrow> let errs = check b in
                          if errs \<noteq> [] then Inl (PayloadValidationError ty errs) else Inr major))"

definition validate_event :: "runtime \<Rightarrow> registry \<Rightarrow> nat list option \<Rightarrow> json \<Rightarrow> contract_error + validated_event" where
  "validate_event rt reg supported inst =
     (case envelope_validator reg of Inl e \<Rightarrow> Inl e | Inr env \<Rightarrow>
      let errs = env inst in
      if errs \<noteq> [] then Inl (EnvelopeValidationError errs)
      else case py_item inst ''payload'' of Inl e \<Rightarrow> Inl e | Inr payload \<Rightarrow>
        let size = length (canonical_json_bytes (rt_float rt) payload) in
        if size > MAX_PAYLOAD_BYTES then Inl (PayloadTooLargeError size)
        else case py_item inst ''integrity'' of Inl e \<Rightarrow> Inl e | Inr integrity \<Rightarrow>
          case py_item integrity ''sha256'' of Inl e \<Rightarrow> Inl e | Inr actual \<Rightarrow>
            if JStr (sha256_hex rt payload) \<noteq> actual then Inl (IntegrityMismatchError actual (sha256_hex rt payload))
            else case py_str_item inst ''event_type'' of Inl e \<Rightarrow> Inl e | Inr ty \<Rightarrow>
              case py_str_item inst ''schema_version'' of Inl e \<Rightarrow> Inl e | Inr version \<Rightarrow>
                case resolve_and_check reg UnknownEventTypeError supported ty version (Inr payload) of
                  Inl e \<Rightarrow> Inl e
                | Inr major \<Rightarrow> Inr \<lparr>ve_envelope = inst, ve_payload = payload,
                                     ve_event_type = ty, ve_major_version = major\<rparr>)"

record validated_command =
  vc_envelope :: json
  vc_params :: json
  vc_command_type :: string
  vc_major_version :: nat

definition validate_command :: "registry \<Rightarrow> nat list option \<Rightarrow> json \<Rightarrow> contract_error + validated_command" where
  "validate_command reg supported inst =
     (case envelope_validator reg of Inl e \<Rightarrow> Inl e | Inr env \<Rightarrow>
      let errs = env inst in
      if errs \<noteq> [] then Inl (EnvelopeValidationError errs)
      else case py_str_item inst ''command_type'' of Inl e \<Rightarrow> Inl e | Inr ty \<Rightarrow>
        case py_str_item inst ''schema_version'' of Inl e \<Rightarrow> Inl e | Inr version \<Rightarrow>
          case resolve_and_check reg UnknownCommandTypeError supported ty version (py_item inst ''params'') of
            Inl e \<Rightarrow> Inl e
          | Inr major \<Rightarrow>
              (case py_item inst ''params'' of
                 Inl e \<Rightarrow> Inl e
               | Inr params \<Rightarrow> Inr \<lparr>vc_envelope = inst, vc_params = params,
                                     vc_command_type = ty, vc_major_version = major\<rparr>))"

text \<open>The keyword arguments of \<^verbatim>\<open>build_event\<close>; \<open>be_event_id\<close> is a supplied id or the generated one.\<close>

record build_args =
  be_event_type :: string
  be_schema_version :: string
  be_payload :: json
  be_source_id :: string
  be_sequence :: int
  be_actor_type :: string
  be_classification :: string
  be_case_id :: "string option"
  be_session_id :: "string option"
  be_event_id :: "string option"
  be_event_time :: "string option"

definition py_or :: "string option \<Rightarrow> string \<Rightarrow> string" where
  "py_or v d = (case v of None \<Rightarrow> d | Some s \<Rightarrow> if s = [] then d else s)"

definition build_event :: "runtime \<Rightarrow> string \<Rightarrow> string \<Rightarrow> build_args \<Rightarrow> json" where
  "build_event rt now fresh a = JObj
     [(''event_id'', JStr (py_or (be_event_id a) fresh)),
      (''event_type'', JStr (be_event_type a)),
      (''schema_version'', JStr (be_schema_version a)),
      (''event_time'', JStr (py_or (be_event_time a) now)),
      (''ingest_time'', JStr now),
      (''case_id'', jopt (be_case_id a)),
      (''session_id'', jopt (be_session_id a)),
      (''source_id'', JStr (be_source_id a)),
      (''sequence'', JInt (be_sequence a)),
      (''actor_type'', JStr (be_actor_type a)),
      (''integrity'', JObj [(''sha256'', JStr (sha256_hex rt (be_payload a)))]),
      (''classification'', JStr (be_classification a)),
      (''payload'', be_payload a)]"

section \<open>Lemmas on the envelope API\<close>

lemma resolve_and_check_ok:
  assumes "resolve_and_check reg unk supported ty version body = Inr major"
  obtains minor check b where
    "parse_schema_version version = Inr (major, minor)" "get_validator reg ty major = Some check"
    "body = Inr b" "check b = []" "supported = None \<longrightarrow> major \<in> set (supported_majors reg ty)"
    "\<And>ms. supported = Some ms \<Longrightarrow> major \<in> set ms"
  using assms
  by (auto simp: resolve_and_check_def Let_def
      split: sum.splits if_splits option.splits prod.splits)

lemma resolve_and_check_no_assertion:
  "resolve_and_check reg UnknownEventTypeError None ty version (Inr body) \<noteq> Inl AssertionError"
proof
  assume "resolve_and_check reg UnknownEventTypeError None ty version (Inr body) = Inl AssertionError"
  then obtain major where "major \<in> set (supported_majors reg ty)" "get_validator reg ty major = None"
    by (auto simp: resolve_and_check_def parse_schema_version_def Let_def
        split: sum.splits if_splits option.splits prod.splits list.splits)
  then show False by (simp add: supported_majors_validator)
qed

lemma build_event_fields:
  "jget (build_event rt now fresh a) ''payload'' = Some (be_payload a)"
  "jget (build_event rt now fresh a) ''integrity'' = Some (JObj [(''sha256'', JStr (sha256_hex rt (be_payload a)))])"
  "jget (build_event rt now fresh a) ''event_type'' = Some (JStr (be_event_type a))"
  "jget (build_event rt now fresh a) ''schema_version'' = Some (JStr (be_schema_version a))"
  "jget (build_event rt now fresh a) ''event_id'' = Some (JStr (py_or (be_event_id a) fresh))"
  by (simp_all add: build_event_def)

lemmas py_items = py_item_def py_str_item_def build_event_fields

text \<open>What the envelope schema and the payload schema have to accept for \<^verbatim>\<open>validate_event\<close> to return.\<close>

definition accepts_event :: "runtime \<Rightarrow> registry \<Rightarrow> json \<Rightarrow> string \<Rightarrow> json \<Rightarrow> bool" where
  "accepts_event rt reg inst ty payload =
     ((case reg_envelope reg of None \<Rightarrow> False | Some env \<Rightarrow> env inst = []) \<and>
      length (canonical_json_bytes (rt_float rt) payload) \<le> MAX_PAYLOAD_BYTES \<and>
      (case get_validator reg ty 1 of None \<Rightarrow> False | Some check \<Rightarrow> check payload = []))"

lemma parse_schema_version_1_0: "parse_schema_version ''1.0'' = Inr (1, 0)"
  by code_simp

lemma validate_built_event:
  assumes acc: "accepts_event rt reg (build_event rt now fresh a) (be_event_type a) (be_payload a)"
    and ver: "be_schema_version a = ''1.0''"
  shows "validate_event rt reg None (build_event rt now fresh a) =
           Inr \<lparr>ve_envelope = build_event rt now fresh a, ve_payload = be_payload a,
                ve_event_type = be_event_type a, ve_major_version = 1\<rparr>"
proof -
  from acc obtain env check where
    env: "reg_envelope reg = Some env" "env (build_event rt now fresh a) = []" and
    check: "get_validator reg (be_event_type a) 1 = Some check" "check (be_payload a) = []" and
    size: "length (canonical_json_bytes (rt_float rt) (be_payload a)) \<le> MAX_PAYLOAD_BYTES"
    by (auto simp: accepts_event_def split: option.splits)
  from check have mem: "1 \<in> set (supported_majors reg (be_event_type a))"
    by (simp add: supported_majors_validator)
  then have "supported_majors reg (be_event_type a) \<noteq> []" by auto
  with mem check have "resolve_and_check reg UnknownEventTypeError None (be_event_type a) ''1.0''
      (Inr (be_payload a)) = Inr 1"
    by (simp add: resolve_and_check_def parse_schema_version_1_0 Let_def)
  with env size ver show ?thesis
    by (simp add: validate_event_def envelope_validator_def py_items Let_def)
qed

text \<open>The converse: what a returned event was checked for.\<close>

lemma validate_event_ok:
  assumes "validate_event rt reg supported inst = Inr v"
  shows "ve_envelope v = inst \<and>
    (\<exists>env. reg_envelope reg = Some env \<and> env inst = []) \<and>
    jget inst ''payload'' = Some (ve_payload v) \<and>
    length (canonical_json_bytes (rt_float rt) (ve_payload v)) \<le> MAX_PAYLOAD_BYTES \<and>
    (\<exists>i. jget inst ''integrity'' = Some i \<and> jget i ''sha256'' = Some (JStr (sha256_hex rt (ve_payload v)))) \<and>
    (\<exists>check. get_validator reg (ve_event_type v) (ve_major_version v) = Some check \<and> check (ve_payload v) = []) \<and>
    (\<forall>ms. supported = Some ms \<longrightarrow> ve_major_version v \<in> set ms)"
  using assms
  by (auto simp: validate_event_def envelope_validator_def py_item_def py_str_item_def Let_def
      split: option.splits sum.splits if_splits json.splits elim!: resolve_and_check_ok)

section \<open>Properties\<close>

definition sample_runtime :: runtime where
  "sample_runtime = \<lparr>rt_sha256 = (\<lambda>s. take 4 s), rt_float = (\<lambda>_. ''0.5'')\<rparr>"

definition sample_registry :: "string list \<Rightarrow> registry" where
  "sample_registry types = \<lparr>reg_validators = map (\<lambda>t. ((t, 1), \<lambda>_. [])) types, reg_raw = [],
                            reg_envelope = Some (\<lambda>_. [])\<rparr>"

definition sample_args :: build_args where
  "sample_args = \<lparr>be_event_type = ''system.health'', be_schema_version = ''1.0'', be_payload = JObj [],
     be_source_id = ''src'', be_sequence = 1, be_actor_type = ''SYSTEM'', be_classification = ''INTERNAL'',
     be_case_id = None, be_session_id = None, be_event_id = None, be_event_time = None\<rparr>"

text \<open>C25. The integrity hash does not depend on the order in which a payload's dictionaries were
  filled, at any depth: two payloads that are equal in Python have the same canonical bytes and hash.\<close>

theorem integrity_hash_order_independent:
  assumes "json_eq a b"
  shows "sha256_hex rt a = sha256_hex rt b"
  using canonical_json_eq [OF assms] by (simp add: sha256_hex_def)

theorem integrity_hash_order_independent_witness:
  "sha256_hex sample_runtime (JObj [(''b'', JInt 1), (''a'', JNull)]) = sha256_hex sample_runtime (JObj [(''a'', JNull), (''b'', JInt 1)])"
  by (rule integrity_hash_order_independent,
      rule json_eq.obj [where lvs = "[(''b'', JInt 1), (''a'', JNull)]"])
    (simp_all add: json_eq.refl add_mset_commute)

text \<open>C15. What \<^verbatim>\<open>validate_event\<close> lets through: the envelope schema accepted the instance, the payload
  is at most 256 KB in canonical form, the stored hash is the hash of that payload, and the payload was
  accepted by the schema registered for its type and major version (which is an allowed one).\<close>

theorem validate_event_sound:
  assumes "validate_event rt reg supported inst = Inr v"
  shows "(\<exists>env. reg_envelope reg = Some env \<and> env inst = []) \<and> ve_envelope v = inst \<and>
    jget inst ''payload'' = Some (ve_payload v) \<and>
    length (canonical_json_bytes (rt_float rt) (ve_payload v)) \<le> 262144 \<and>
    (\<exists>i. jget inst ''integrity'' = Some i \<and> jget i ''sha256'' = Some (JStr (sha256_hex rt (ve_payload v)))) \<and>
    (\<exists>check. get_validator reg (ve_event_type v) (ve_major_version v) = Some check \<and> check (ve_payload v) = []) \<and>
    (case supported of None \<Rightarrow> ve_major_version v \<in> set (supported_majors reg (ve_event_type v))
                     | Some ms \<Rightarrow> ve_major_version v \<in> set ms)"
  using validate_event_ok [OF assms]
  by (auto simp: MAX_PAYLOAD_BYTES_def supported_majors_validator split: option.splits)

lemma sample_accepts:
  "ty \<in> set types \<Longrightarrow> length (canonical_json_bytes (rt_float rt) p) \<le> MAX_PAYLOAD_BYTES \<Longrightarrow>
   accepts_event rt (sample_registry types) i ty p"
  by (induction types) (auto simp: accepts_event_def sample_registry_def get_validator_def split: option.splits)

lemma sample_accepts_args:
  "accepts_event sample_runtime (sample_registry [''system.health'']) i ''system.health'' (JObj [])"
  by (rule sample_accepts) (simp_all add: MAX_PAYLOAD_BYTES_def)

theorem validate_event_sound_witness:
  "\<exists>v. validate_event sample_runtime (sample_registry [''system.health'']) None
         (build_event sample_runtime ''t'' ''id'' sample_args) = Inr v \<and>
       1 \<in> set (supported_majors (sample_registry [''system.health'']) (ve_event_type v))"
proof -
  have "accepts_event sample_runtime (sample_registry [''system.health''])
      (build_event sample_runtime ''t'' ''id'' sample_args) (be_event_type sample_args) (be_payload sample_args)"
    using sample_accepts_args by (simp add: sample_args_def)
  from validate_built_event [OF this]
  have "validate_event sample_runtime (sample_registry [''system.health'']) None
     (build_event sample_runtime ''t'' ''id'' sample_args) = Inr \<lparr>ve_envelope = build_event sample_runtime ''t'' ''id'' sample_args,
       ve_payload = JObj [], ve_event_type = ''system.health'', ve_major_version = 1\<rparr>"
    by (simp add: sample_args_def)
  from validate_event_sound [OF this] this show ?thesis by auto
qed

text \<open>Round trip of the envelope API: an event made by \<^verbatim>\<open>build_event\<close> always passes the
  integrity check, and it is validated to exactly its own payload and type whenever the two schemas
  accept it and the payload respects the cap.\<close>

theorem build_then_validate:
  "(\<forall>e. validate_event rt reg supported (build_event rt now fresh a) = Inl e \<longrightarrow>
        (\<forall>x y. e \<noteq> IntegrityMismatchError x y)) \<and>
   (be_schema_version a = ''1.0'' \<and>
    accepts_event rt reg (build_event rt now fresh a) (be_event_type a) (be_payload a) \<longrightarrow>
      validate_event rt reg None (build_event rt now fresh a) =
        Inr \<lparr>ve_envelope = build_event rt now fresh a, ve_payload = be_payload a,
             ve_event_type = be_event_type a, ve_major_version = 1\<rparr>)"
  using validate_built_event [of rt reg now fresh a]
  by (auto simp: validate_event_def envelope_validator_def py_items resolve_and_check_def
      parse_schema_version_def Let_def split: option.splits sum.splits if_splits list.splits)

theorem build_then_validate_witness:
  "is_ok (validate_event sample_runtime (sample_registry [''system.health'']) None
     (build_event sample_runtime ''t'' ''id'' sample_args))"
  using build_then_validate [of sample_runtime "sample_registry [''system.health'']" None "''t''" "''id''" sample_args]
    sample_accepts_args by (simp add: sample_args_def)

text \<open>The \<^verbatim>\<open>assert validator is not None\<close> of \<^verbatim>\<open>validate_event\<close> cannot fail when the caller
  does not pass \<^verbatim>\<open>supported_majors\<close> and the registry has its envelope schema; it does fail when the
  caller allows a major version that no schema is registered for.\<close>

theorem validate_event_assertion:
  "(reg_envelope reg \<noteq> None \<longrightarrow> validate_event rt reg None inst \<noteq> Inl AssertionError) \<and>
   validate_event rt (sample_registry [''system.health'']) (Some [2])
     (build_event rt now fresh (sample_args\<lparr>be_schema_version := ''2.0''\<rparr>)) = Inl AssertionError"
proof -
  have "parse_schema_version ''2.0'' = Inr (2, 0)" by code_simp
  then have "validate_event rt (sample_registry [''system.health'']) (Some [2])
     (build_event rt now fresh (sample_args\<lparr>be_schema_version := ''2.0''\<rparr>)) = Inl AssertionError"
    by (simp add: validate_event_def envelope_validator_def sample_registry_def py_items sample_args_def
        resolve_and_check_def supported_majors_def get_validator_def MAX_PAYLOAD_BYTES_def Let_def)
  then show ?thesis
    using resolve_and_check_no_assertion
    by (auto simp: validate_event_def envelope_validator_def py_item_def py_str_item_def Let_def
        split: option.splits sum.splits if_splits json.splits)
qed

theorem validate_event_assertion_witness:
  "validate_event sample_runtime (sample_registry []) None JNull \<noteq> Inl AssertionError"
  using validate_event_assertion [of "sample_registry []" sample_runtime JNull "''t''" "''id''"]
  by (simp add: sample_registry_def)

text \<open>\<^verbatim>\<open>is_valid_ulid\<close> accepts a value exactly when it is a canonical ULID or a canonical ULID
  followed by one newline: Python's \<^verbatim>\<open>$\<close> also matches before a final newline.\<close>

theorem is_valid_ulid_exact:
  "is_valid_ulid v \<longleftrightarrow> canonical_ulid v \<or> (\<exists>u. v = u @ [newline] \<and> canonical_ulid u)"
proof -
  have nl: "\<not> ulid_char newline" by code_simp
  have "\<not> canonical_ulid v" if v: "v \<noteq> []" "last v = newline" for v
  proof
    assume c: "canonical_ulid v"
    then have "tl v \<noteq> []" by (cases v) (auto simp: canonical_ulid_def)
    with v have "newline \<in> set (tl v)" by (metis last_in_set last_tl)
    with c nl show False by (auto simp: canonical_ulid_def list_all_iff)
  qed
  then show ?thesis
    by (auto simp: is_valid_ulid_def before_dollar_def split: if_splits) (metis append_butlast_last_id)
qed

end
