(* ===== verification/Mirage_Subjects.thy ===== *)
theory Mirage_Subjects
  imports Mirage_Contracts
begin

text \<open>
  \<^verbatim>\<open>libs/mirage_common/subjects.py\<close>: the six JetStream streams, the subject of
  every event and command type, and the matcher that finds the stream of a
  subject. The theorems: the streams partition the subjects, every event and
  its dead letter land in the same stream, and the deduplication window of
  every stream covers the whole redelivery schedule.
\<close>

record stream_definition =
  sd_name :: string
  sd_subjects :: "string list"
  max_age_seconds :: int
  max_bytes :: int
  num_replicas :: int
  duplicate_window_seconds :: int

definition REDELIVERY_BACKOFF_SECONDS :: "int list" where
  "REDELIVERY_BACKOFF_SECONDS = [1, 5, 25, 125, 625]"

definition MAX_DELIVER_ATTEMPTS :: nat where
  "MAX_DELIVER_ATTEMPTS = 5"

definition MAX_RETRY_HORIZON_SECONDS :: int where
  "MAX_RETRY_HORIZON_SECONDS = sum_list REDELIVERY_BACKOFF_SECONDS"

definition DEDUP_WINDOW_SECONDS :: int where
  "DEDUP_WINDOW_SECONDS = 2 * 60 * 60"

definition STREAM_DEFINITIONS :: "(string \<times> stream_definition) list" where
  "STREAM_DEFINITIONS =
    [(''MIRAGE_TELEMETRY'', \<lparr>sd_name = ''MIRAGE_TELEMETRY'',
        sd_subjects = [''telemetry.endpoint.>'', ''telemetry.sandbox.>''],
        max_age_seconds = 24 * 60 * 60, max_bytes = 2 * 1024 * 1024 * 1024, num_replicas = 1,
        duplicate_window_seconds = DEDUP_WINDOW_SECONDS\<rparr>),
     (''MIRAGE_LIFECYCLE'', \<lparr>sd_name = ''MIRAGE_LIFECYCLE'',
        sd_subjects = [''investigation.>'', ''steering.>''],
        max_age_seconds = 30 * 24 * 60 * 60, max_bytes = 1 * 1024 * 1024 * 1024, num_replicas = 1,
        duplicate_window_seconds = DEDUP_WINDOW_SECONDS\<rparr>),
     (''MIRAGE_ACTIONS'', \<lparr>sd_name = ''MIRAGE_ACTIONS'',
        sd_subjects = [''ai.proposal'', ''ai.proposal.failed'', ''policy.decision'', ''policy.decision.failed'',
          ''sandbox.command'', ''sandbox.command.failed'', ''sandbox.result'', ''sandbox.result.failed''],
        max_age_seconds = 30 * 24 * 60 * 60, max_bytes = 1 * 1024 * 1024 * 1024, num_replicas = 1,
        duplicate_window_seconds = DEDUP_WINDOW_SECONDS\<rparr>),
     (''MIRAGE_EVIDENCE'', \<lparr>sd_name = ''MIRAGE_EVIDENCE'',
        sd_subjects = [''evidence.created'', ''evidence.created.failed'',
          ''evidence.verified'', ''evidence.verified.failed'',
          ''evidence.verification_failed'', ''evidence.verification_failed.failed'',
          ''canary.callback'', ''canary.callback.failed''],
        max_age_seconds = 30 * 24 * 60 * 60, max_bytes = 512 * 1024 * 1024, num_replicas = 1,
        duplicate_window_seconds = DEDUP_WINDOW_SECONDS\<rparr>),
     (''MIRAGE_AUDIT'', \<lparr>sd_name = ''MIRAGE_AUDIT'',
        sd_subjects = [''audit.>'', ''analyst.>''],
        max_age_seconds = 365 * 24 * 60 * 60, max_bytes = 1 * 1024 * 1024 * 1024, num_replicas = 1,
        duplicate_window_seconds = DEDUP_WINDOW_SECONDS\<rparr>),
     (''MIRAGE_HEALTH'', \<lparr>sd_name = ''MIRAGE_HEALTH'',
        sd_subjects = [''system.health'', ''system.health.failed'', ''agent.heartbeat'', ''agent.heartbeat.failed''],
        max_age_seconds = 60 * 60, max_bytes = 128 * 1024 * 1024, num_replicas = 1,
        duplicate_window_seconds = max (MAX_RETRY_HORIZON_SECONDS * 2) (30 * 60)\<rparr>)]"

definition EVENT_TYPE_SUBJECTS :: "(string \<times> string) list" where
  "EVENT_TYPE_SUBJECTS =
    [(''agent.heartbeat'', ''agent.heartbeat''),
     (''agent.enrolled'', ''audit.agent.enrolled''),
     (''agent.enrollment_failed'', ''audit.agent.enrollment_failed''),
     (''agent.enrollment_revoked'', ''audit.agent.enrollment_revoked''),
     (''agent.certificate_renewed'', ''audit.agent.certificate_renewed''),
     (''case.created'', ''investigation.case.created''),
     (''case.state_changed'', ''investigation.case.state_changed''),
     (''detection.raised'', ''investigation.detection.raised''),
     (''steering.decision_recorded'', ''steering.decision_recorded''),
     (''sandbox.command_result'', ''sandbox.result''),
     (''audit.recorded'', ''audit.recorded''),
     (''system.health'', ''system.health''),
     (''spider.observation'', ''telemetry.sandbox.observation''),
     (''spider.tamper'', ''audit.spider.tamper''),
     (''spider.fingerprint_snapshot'', ''telemetry.sandbox.fingerprint_snapshot''),
     (''fingerprint.gate_evaluated'', ''investigation.fingerprint_gate_evaluated''),
     (''evidence.created'', ''evidence.created''),
     (''evidence.verified'', ''evidence.verified''),
     (''evidence.verification_failed'', ''evidence.verification_failed''),
     (''policy.decision'', ''policy.decision''),
     (''analyst.directive'', ''analyst.directive''),
     (''canary.callback'', ''canary.callback'')]"

definition COMMAND_TYPE_SUBJECTS :: "(string \<times> string) list" where
  "COMMAND_TYPE_SUBJECTS = [(''sandbox.command'', ''sandbox.command'')]"

definition subject_for_event_type :: "string \<Rightarrow> contract_error + string" where
  "subject_for_event_type t =
     (case map_of EVENT_TYPE_SUBJECTS t of
        Some s \<Rightarrow> Inr s | None \<Rightarrow> Inl (ValueError (''no NATS subject mapped for event_type='' @ t)))"

definition subject_for_command_type :: "string \<Rightarrow> contract_error + string" where
  "subject_for_command_type t =
     (case map_of COMMAND_TYPE_SUBJECTS t of
        Some s \<Rightarrow> Inr s | None \<Rightarrow> Inl (ValueError (''no NATS subject mapped for command_type='' @ t)))"

definition failed_subject_for :: "string \<Rightarrow> string" where
  "failed_subject_for s = s @ ''.failed''"

fun tokens_match :: "string list \<Rightarrow> string list \<Rightarrow> bool" where
  "tokens_match [] s = (s = [])"
| "tokens_match (p # ps) s =
     (if p = ''>'' then True
      else case s of [] \<Rightarrow> False
           | t # ts \<Rightarrow> if p = ''*'' then tokens_match ps ts
                      else if p \<noteq> t then False else tokens_match ps ts)"

definition subject_matches :: "string \<Rightarrow> string \<Rightarrow> bool" where
  "subject_matches pattern subject =
     tokens_match (split_on (CHR ''.'') pattern) (split_on (CHR ''.'') subject)"

definition stream_owns :: "stream_definition \<Rightarrow> string \<Rightarrow> bool" where
  "stream_owns sd subject = list_ex (\<lambda>p. subject_matches p subject) (sd_subjects sd)"

definition stream_for_subject :: "string \<Rightarrow> string option" where
  "stream_for_subject subject =
     map_option sd_name (find (\<lambda>sd. stream_owns sd subject) (map snd STREAM_DEFINITIONS))"

section \<open>Lemmas\<close>

lemma tokens_match_head:
  assumes "tokens_match (p # ps) s" and "p \<noteq> ''>''" and "p \<noteq> ''*''"
  shows "s \<noteq> [] \<and> hd s = p"
  using assms by (cases s) (auto split: if_splits)

definition stream_heads :: "stream_definition \<Rightarrow> string list" where
  "stream_heads sd = map (\<lambda>p. hd (split_on (CHR ''.'') p)) (sd_subjects sd)"

lemma heads_literal:
  "list_all (\<lambda>e. list_all (\<lambda>h. h \<noteq> ''>'' \<and> h \<noteq> ''*'') (stream_heads (snd e))) STREAM_DEFINITIONS"
  by code_simp

lemma stream_owns_head:
  assumes "(n, sd) \<in> set STREAM_DEFINITIONS" and "stream_owns sd subject"
  shows "hd (split_on (CHR ''.'') subject) \<in> set (stream_heads sd)"
proof -
  from assms(2) obtain p where p: "p \<in> set (sd_subjects sd)" and m: "subject_matches p subject"
    by (auto simp: stream_owns_def list_ex_iff)
  obtain h t where ht: "split_on (CHR ''.'') p = h # t" by (cases "split_on (CHR ''.'') p") auto
  then have h: "h \<in> set (stream_heads sd)" using p by (force simp: stream_heads_def)
  with heads_literal assms(1) have "h \<noteq> ''>''" "h \<noteq> ''*''" by (auto simp: list_all_iff)
  then have "hd (split_on (CHR ''.'') subject) = h"
    using m ht tokens_match_head by (simp add: subject_matches_def del: tokens_match.simps)
  with h show ?thesis by simp
qed

lemma heads_disjoint:
  "list_all (\<lambda>e. list_all (\<lambda>f. fst e = fst f \<or> list_all (\<lambda>h. h \<notin> set (stream_heads (snd f))) (stream_heads (snd e)))
     STREAM_DEFINITIONS) STREAM_DEFINITIONS"
  by code_simp

lemma stream_names_distinct: "distinct (map fst STREAM_DEFINITIONS)"
  by code_simp

section \<open>Properties\<close>

text \<open>No subject belongs to two streams: whatever subject is published, at most one of the six
  streams owns it, so the reverse lookup does not depend on the order of the table.\<close>

theorem streams_disjoint:
  assumes "(m, sd) \<in> set STREAM_DEFINITIONS" and "(n, te) \<in> set STREAM_DEFINITIONS"
    and "stream_owns sd subject" and "stream_owns te subject"
  shows "m = n"
proof -
  from assms have "hd (split_on (CHR ''.'') subject) \<in> set (stream_heads sd) \<inter> set (stream_heads te)"
    using stream_owns_head by blast
  with heads_disjoint assms(1,2) show ?thesis by (fastforce simp: list_all_iff)
qed

theorem streams_disjoint_witness:
  "\<not> stream_owns (snd (STREAM_DEFINITIONS ! 0)) ''audit.recorded''"
proof
  assume "stream_owns (snd (STREAM_DEFINITIONS ! 0)) ''audit.recorded''"
  moreover have "stream_owns (snd (STREAM_DEFINITIONS ! 4)) ''audit.recorded''" by code_simp
  moreover have "(''MIRAGE_TELEMETRY'', snd (STREAM_DEFINITIONS ! 0)) \<in> set STREAM_DEFINITIONS"
    "(''MIRAGE_AUDIT'', snd (STREAM_DEFINITIONS ! 4)) \<in> set STREAM_DEFINITIONS"
    by (simp_all add: STREAM_DEFINITIONS_def)
  ultimately have "''MIRAGE_TELEMETRY'' = ''MIRAGE_AUDIT''" using streams_disjoint by blast
  then show False by simp
qed

text \<open>Every registered event type has a subject that some stream owns, and its dead-letter
  subject belongs to the same stream, so neither a publish nor a dead letter is lost for want of a
  stream. The same holds for the command type.\<close>

theorem every_event_has_one_stream:
  "list_all (\<lambda>e. is_ok (subject_for_event_type (fst e)) \<and> stream_for_subject (snd e) \<noteq> None \<and>
       stream_for_subject (failed_subject_for (snd e)) = stream_for_subject (snd e)) EVENT_TYPE_SUBJECTS \<and>
   list_all (\<lambda>e. stream_for_subject (snd e) = Some ''MIRAGE_ACTIONS'' \<and>
       stream_for_subject (failed_subject_for (snd e)) = Some ''MIRAGE_ACTIONS'') COMMAND_TYPE_SUBJECTS"
  by code_simp

text \<open>The deduplication window of every stream exceeds the sum of the redelivery delays and is
  no longer than the stream keeps its messages; there is one delay per delivery attempt.\<close>

theorem dedup_window_covers_retries:
  "list_all (\<lambda>e. MAX_RETRY_HORIZON_SECONDS < duplicate_window_seconds (snd e) \<and>
       duplicate_window_seconds (snd e) \<le> max_age_seconds (snd e) \<and> fst e = sd_name (snd e))
     STREAM_DEFINITIONS \<and>
   length REDELIVERY_BACKOFF_SECONDS = MAX_DELIVER_ATTEMPTS"
  by (simp add: STREAM_DEFINITIONS_def MAX_RETRY_HORIZON_SECONDS_def REDELIVERY_BACKOFF_SECONDS_def
      DEDUP_WINDOW_SECONDS_def MAX_DELIVER_ATTEMPTS_def)

end
