(* ===== verification/Mirage_Store.thy ===== *)
theory Mirage_Store
  imports Mirage_Subjects
begin

text \<open>
  The PostgreSQL state the control-plane components share
  (\<^verbatim>\<open>infra/migrations\<close>): the tables as a record of row lists, the INSERTs with
  the key constraints the migrations declare, and the transaction boundary. A
  service call runs on the working copy of a connection; the caller commits or
  rolls back. \<open>publish_validated\<close> is the sequence every component repeats:
  build an event, validate it, look its subject up, write it to the outbox.
\<close>

datatype case_state =
    CREATED | ARMED | MONITORING | STEERING_PENDING | SANDBOX_ACTIVE
  | ENGAGING | CONCLUDING | EVIDENCE_VERIFYING | EXPORTED | DESTROYED

definition state_name :: "case_state \<Rightarrow> string" where
  "state_name s = (case s of
      CREATED \<Rightarrow> ''CREATED'' | ARMED \<Rightarrow> ''ARMED'' | MONITORING \<Rightarrow> ''MONITORING''
    | STEERING_PENDING \<Rightarrow> ''STEERING_PENDING'' | SANDBOX_ACTIVE \<Rightarrow> ''SANDBOX_ACTIVE''
    | ENGAGING \<Rightarrow> ''ENGAGING'' | CONCLUDING \<Rightarrow> ''CONCLUDING''
    | EVIDENCE_VERIFYING \<Rightarrow> ''EVIDENCE_VERIFYING'' | EXPORTED \<Rightarrow> ''EXPORTED''
    | DESTROYED \<Rightarrow> ''DESTROYED'')"

record case_row =
  case_id :: string
  case_state :: case_state
  case_version :: int
  severity :: string
  owner :: "string option"
  correlation_key :: "string option"
  updated_at :: timestamp

record transition_row =
  tr_case_id :: string
  tr_from :: case_state
  tr_to :: case_state
  tr_actor :: string
  tr_actor_type :: string
  tr_reason :: string
  tr_new_version :: int
  tr_correlation_id :: string

record audit_row =
  au_actor :: string
  au_actor_type :: string
  au_action :: string
  au_target :: string
  au_outcome :: string
  au_correlation_id :: string
  au_detail :: string

record outbox_row =
  ob_event_id :: string
  ob_topic :: string
  ob_payload :: json
  ob_created_at :: timestamp
  ob_published_at :: "timestamp option"
  ob_attempts :: int
  ob_next_attempt_at :: timestamp

record processed_row =
  pr_consumer :: string
  pr_event_id :: string
  pr_result_hash :: string

record routing_row =
  ro_case_id :: string
  ro_match_key :: string
  ro_target :: string
  ro_valid_from :: timestamp
  ro_valid_until :: "timestamp option"
  ro_version :: int
  ro_created_by :: string

record sandbox_row =
  sb_sandbox_id :: string
  sb_case_id :: string
  sb_image_id :: string
  sb_state_version :: int
  sb_network_identity :: "string option"

record action_row =
  ac_action_id :: string
  ac_command_id :: string
  ac_sandbox_id :: string
  ac_case_id :: string
  ac_action_type :: string
  ac_action_params :: json
  ac_expected_version :: int
  ac_issued_by :: string
  ac_policy_decision_id :: string
  ac_status :: string
  ac_output_tag :: "string option"
  ac_rollback_action_id :: "string option"
  ac_error_detail :: "string option"
  ac_completed_at :: "timestamp option"

record deployment_row =
  dp_artifact_id :: string
  dp_sandbox_action_id :: string
  dp_status :: string
  dp_expected_sha256 :: string
  dp_observed_sha256 :: "string option"
  dp_rollback_action_id :: "string option"
  dp_completed_at :: "timestamp option"

record artifact_row =
  ar_artifact_id :: string
  ar_case_id :: "string option"
  ar_deployment_status :: string
  ar_approved :: bool
  ar_deployed_at :: "timestamp option"

record agent_row =
  ag_agent_id :: string
  ag_role :: string
  ag_certificate_profile :: string
  ag_certificate_serial :: string
  ag_certificate_not_after :: string
  ag_build_hash :: string
  ag_host_fingerprint :: string
  ag_status :: string
  ag_revoked_at :: "timestamp option"
  ag_revoked_reason :: "string option"
  ag_last_seen_at :: "timestamp option"
  ag_last_sequence :: int

record db =
  cases :: "case_row list"
  transitions :: "transition_row list"
  audits :: "audit_row list"
  outbox :: "outbox_row list"
  processed :: "processed_row list"
  routings :: "routing_row list"
  snapshots :: "(string \<times> json) list"
  sandboxes :: "sandbox_row list"
  actions :: "action_row list"
  deployments :: "deployment_row list"
  artifacts :: "artifact_row list"

definition empty_db :: db where
  "empty_db = \<lparr>cases = [], transitions = [], audits = [], outbox = [], processed = [], routings = [],
               snapshots = [], sandboxes = [], actions = [], deployments = [], artifacts = []\<rparr>"

section \<open>Errors and the environment of a call\<close>

datatype db_error = UniqueViolation string | ExclusionViolation string | ForeignKeyViolation string | CheckViolation string | DatabaseError string

datatype 'e svc_error = Contract contract_error | Db db_error | App 'e

text \<open>What an HTTP handler answers when it does not return: a chosen status, or an exception nobody handles.\<close>

datatype api_error = HTTPException nat string | Unhandled "unit svc_error"

record env =
  env_rt :: runtime
  env_reg :: registry
  env_now :: timestamp
  env_now_text :: string
  env_ids :: id_supply

definition shift_ids :: "nat \<Rightarrow> env \<Rightarrow> env" where
  "shift_ids k e = e\<lparr>env_ids := (\<lambda>n. env_ids e (n + k))\<rparr>"

lemma shift_ids_simps [simp]:
  "env_rt (shift_ids k e) = env_rt e" "env_reg (shift_ids k e) = env_reg e"
  "env_now (shift_ids k e) = env_now e" "env_now_text (shift_ids k e) = env_now_text e"
  "env_ids (shift_ids k e) n = env_ids e (n + k)"
  by (simp_all add: shift_ids_def)

section \<open>Inserts\<close>

definition insert_audit :: "audit_row \<Rightarrow> db \<Rightarrow> db" where
  "insert_audit r d = d\<lparr>audits := audits d @ [r]\<rparr>"

definition insert_outbox :: "timestamp \<Rightarrow> string \<Rightarrow> string \<Rightarrow> json \<Rightarrow> db \<Rightarrow> 'e svc_error + db" where
  "insert_outbox now eid topic payload d =
     (if eid \<in> ob_event_id ` set (outbox d) then Inl (Db (UniqueViolation ''outbox_events''))
      else Inr (d\<lparr>outbox := outbox d @ [\<lparr>ob_event_id = eid, ob_topic = topic, ob_payload = payload,
                  ob_created_at = now, ob_published_at = None, ob_attempts = 0,
                  ob_next_attempt_at = now\<rparr>]\<rparr>))"

definition insert_processed :: "processed_row \<Rightarrow> db \<Rightarrow> 'e svc_error + db" where
  "insert_processed r d =
     (if list_ex (\<lambda>p. pr_consumer p = pr_consumer r \<and> pr_event_id p = pr_event_id r) (processed d)
      then Inl (Db (UniqueViolation ''processed_events''))
      else Inr (d\<lparr>processed := processed d @ [r]\<rparr>))"

text \<open>
  The remaining CHECK on \<^verbatim>\<open>cases\<close>, that the id is a ULID, holds for every generated id; the CHECKs on
  the actor types and outcomes of audit and transition rows hold for the literals the callers write.
\<close>

definition insert_case :: "case_row \<Rightarrow> db \<Rightarrow> 'e svc_error + db" where
  "insert_case r d =
     (if severity r \<notin> {''LOW'', ''MEDIUM'', ''HIGH'', ''CRITICAL''} then Inl (Db (CheckViolation ''severity''))
      else if case_id r \<in> case_id ` set (cases d) then Inl (Db (UniqueViolation ''cases''))
      else if correlation_key r \<noteq> None \<and> correlation_key r \<in> correlation_key ` set (cases d)
        then Inl (Db (UniqueViolation ''cases_correlation_key_idx''))
      else Inr (d\<lparr>cases := cases d @ [r]\<rparr>))"

text \<open>Build, validate, look the subject up, write to the outbox.\<close>

definition publish_validated :: "env \<Rightarrow> nat \<Rightarrow> build_args \<Rightarrow> db \<Rightarrow> 'e svc_error + db" where
  "publish_validated e n a d =
     (let ev = build_event (env_rt e) (env_now_text e) (env_ids e n) a in
      case validate_event (env_rt e) (env_reg e) None ev of
        Inl err \<Rightarrow> Inl (Contract err)
      | Inr v \<Rightarrow>
          (case subject_for_event_type (be_event_type a) of
             Inl err \<Rightarrow> Inl (Contract err)
           | Inr topic \<Rightarrow>
               (case py_str_item (ve_envelope v) ''event_id'' of
                  Inl err \<Rightarrow> Inl (Contract err)
                | Inr eid \<Rightarrow> insert_outbox (env_now e) eid topic (ve_envelope v) d)))"

section \<open>Transactions\<close>

record conn =
  committed :: db
  working :: db

definition conn_commit :: "conn \<Rightarrow> conn" where
  "conn_commit c = c\<lparr>committed := working c\<rparr>"

definition conn_rollback :: "conn \<Rightarrow> conn" where
  "conn_rollback c = c\<lparr>working := committed c\<rparr>"

text \<open>A caller that commits when the call returns and rolls back when it raises.\<close>

definition run_tx :: "('d \<Rightarrow> ('e + 'a) \<times> 'd) \<Rightarrow> 'd \<Rightarrow> ('e + 'a) \<times> 'd" where
  "run_tx f d = (case f d of (Inl e, _) \<Rightarrow> (Inl e, d) | (Inr a, d') \<Rightarrow> (Inr a, d'))"

lemma run_tx_error: "run_tx f d = (Inl e, d') \<Longrightarrow> d' = d"
  by (auto simp: run_tx_def split: prod.splits sum.splits)

lemma run_tx_ok: "run_tx f d = (Inr a, d') \<longleftrightarrow> f d = (Inr a, d')"
  by (auto simp: run_tx_def split: prod.splits sum.splits)

section \<open>What a publish does\<close>

lemma insert_outbox_ok:
  "insert_outbox now eid topic payload d = Inr d' \<Longrightarrow>
   d' = d\<lparr>outbox := outbox d @ [\<lparr>ob_event_id = eid, ob_topic = topic, ob_payload = payload,
     ob_created_at = now, ob_published_at = None, ob_attempts = 0, ob_next_attempt_at = now\<rparr>]\<rparr>"
  by (auto simp: insert_outbox_def split: if_splits)

definition event_row :: "env \<Rightarrow> nat \<Rightarrow> build_args \<Rightarrow> string \<Rightarrow> outbox_row" where
  "event_row e n a topic =
     \<lparr>ob_event_id = py_or (be_event_id a) (env_ids e n), ob_topic = topic,
      ob_payload = build_event (env_rt e) (env_now_text e) (env_ids e n) a,
      ob_created_at = env_now e, ob_published_at = None, ob_attempts = 0,
      ob_next_attempt_at = env_now e\<rparr>"

lemma publish_validated_ok:
  assumes "publish_validated e n a d = Inr d'"
  shows "\<exists>topic. subject_for_event_type (be_event_type a) = Inr topic \<and>
     d' = d\<lparr>outbox := outbox d @ [event_row e n a topic]\<rparr> \<and>
     is_ok (validate_event (env_rt e) (env_reg e) None (ob_payload (event_row e n a topic)))"
  using assms
  by (auto simp: publish_validated_def Let_def event_row_def py_str_item_def py_item_def
      build_event_fields split: sum.splits json.splits option.splits
      dest!: insert_outbox_ok validate_event_ok)

lemma publish_validated_frame:
  assumes "publish_validated e n a d = Inr d'"
  shows "cases d' = cases d" "transitions d' = transitions d" "audits d' = audits d"
    "processed d' = processed d" "routings d' = routings d" "snapshots d' = snapshots d"
    "sandboxes d' = sandboxes d" "actions d' = actions d" "deployments d' = deployments d"
    "artifacts d' = artifacts d"
  using publish_validated_ok [OF assms] by auto

text \<open>An environment in which a publish of this event returns: both schemas accept it and its id is new.\<close>

definition publishable :: "env \<Rightarrow> nat \<Rightarrow> build_args \<Rightarrow> db \<Rightarrow> bool" where
  "publishable e n a d =
     (be_schema_version a = ''1.0'' \<and>
      accepts_event (env_rt e) (env_reg e)
        (build_event (env_rt e) (env_now_text e) (env_ids e n) a) (be_event_type a) (be_payload a) \<and>
      is_ok (subject_for_event_type (be_event_type a)) \<and>
      py_or (be_event_id a) (env_ids e n) \<notin> ob_event_id ` set (outbox d))"

lemma publishable_ok:
  assumes "publishable e n a d"
  shows "\<exists>topic. subject_for_event_type (be_event_type a) = Inr topic \<and>
     publish_validated e n a d = Inr (d\<lparr>outbox := outbox d @ [event_row e n a topic]\<rparr>)"
proof -
  from assms obtain topic where t: "subject_for_event_type (be_event_type a) = Inr topic"
    by (auto simp: publishable_def elim: is_okE)
  from assms have "validate_event (env_rt e) (env_reg e) None
      (build_event (env_rt e) (env_now_text e) (env_ids e n) a) =
    Inr \<lparr>ve_envelope = build_event (env_rt e) (env_now_text e) (env_ids e n) a, ve_payload = be_payload a,
         ve_event_type = be_event_type a, ve_major_version = 1\<rparr>"
    by (intro validate_built_event) (simp_all add: publishable_def)
  with t assms show ?thesis
    by (simp add: publish_validated_def Let_def py_str_item_def py_item_def build_event_fields
        insert_outbox_def publishable_def event_row_def)
qed

lemma publishable_shift [simp]: "publishable (shift_ids k e) n a d = publishable e (n + k) a d"
  by (simp add: publishable_def)

section \<open>A concrete environment\<close>

definition sample_env :: "string list \<Rightarrow> env" where
  "sample_env types = \<lparr>env_rt = sample_runtime, env_reg = sample_registry types, env_now = 1000,
     env_now_text = ''2024-02-29T23:59:58.123Z'', env_ids = (\<lambda>n. CHR ''I'' # show_nat n)\<rparr>"

lemma sample_publishable:
  assumes "be_schema_version a = ''1.0''" and "be_event_type a \<in> set types"
    and "length (canonical_json_bytes (\<lambda>_. ''0.5'') (be_payload a)) \<le> 900"
    and "is_ok (subject_for_event_type (be_event_type a))"
    and "be_event_id a = None" and "(CHR ''I'' # show_nat n) \<notin> ob_event_id ` set (outbox d)"
  shows "publishable (sample_env types) n a d"
  using assms
  by (auto simp: publishable_def sample_env_def py_or_def sample_runtime_def MAX_PAYLOAD_BYTES_def
      intro!: sample_accepts)

lemma publish_chain:
  assumes "publishable e n a d" and "subject_for_event_type (be_event_type a) = Inr topic"
  shows "publish_validated e n a d = Inr (d\<lparr>outbox := outbox d @ [event_row e n a topic]\<rparr>)"
  using publishable_ok [OF assms(1)] assms(2) by auto

end
