(* ===== verification/Mirage_Timestamps.thy ===== *)
theory Mirage_Timestamps
  imports Mirage_Contracts
begin

text \<open>
  \<^verbatim>\<open>mirage_contracts/timestamps.py\<close>: canonical RFC3339 timestamps with
  milliseconds and a \<^verbatim>\<open>Z\<close> suffix. A Python \<^verbatim>\<open>datetime\<close> is a record of its
  calendar fields and its UTC offset in microseconds (\<open>None\<close> for a naive
  one); conversion to UTC goes through the proleptic Gregorian ordinal, as in
  CPython. \<^verbatim>\<open>%Y\<close> does not pad with zeros on Linux, so only the years 1000 to
  9999 print in the canonical form. The theorems: printing then parsing gives
  the datetime back to the millisecond, and the order of the printed strings
  is the order of time, which is what the module promises its callers.
\<close>

record datetime =
  year :: nat
  month :: nat
  day :: nat
  hour :: nat
  minute :: nat
  second :: nat
  microsecond :: nat
  utcoffset :: "int option"

section \<open>The calendar\<close>

definition is_leap :: "nat \<Rightarrow> bool" where
  "is_leap y = (y mod 4 = 0 \<and> (y mod 100 \<noteq> 0 \<or> y mod 400 = 0))"

definition days_in_month :: "nat \<Rightarrow> nat \<Rightarrow> nat" where
  "days_in_month y m =
     (if m = 2 then (if is_leap y then 29 else 28)
      else if m \<in> {4, 6, 9, 11} then 30 else 31)"

definition days_before_month :: "nat \<Rightarrow> nat \<Rightarrow> nat" where
  "days_before_month y m = (\<Sum>k \<leftarrow> [1..<m]. days_in_month y k)"

definition days_before_year :: "nat \<Rightarrow> nat" where
  "days_before_year y = (let p = y - 1 in p * 365 + p div 4 - p div 100 + p div 400)"

definition ymd2ord :: "nat \<Rightarrow> nat \<Rightarrow> nat \<Rightarrow> nat" where
  "ymd2ord y m d = days_before_year y + days_before_month y m + d"

definition ord2ymd :: "nat \<Rightarrow> nat \<times> nat \<times> nat" where
  "ord2ymd n0 =
     (let n = n0 - 1; n400 = n div 146097; a = n mod 146097;
          n100 = a div 36524; b = a mod 36524;
          n4 = b div 1461; c = b mod 1461;
          n1 = c div 365; r = c mod 365;
          y = n400 * 400 + 1 + n100 * 100 + n4 * 4 + n1 in
      if n1 = 4 \<or> n100 = 4 then (y - 1, 12, 31)
      else let m = (r + 50) div 32 in
        if days_before_month y m > r
        then (y, m - 1, r - days_before_month y (m - 1) + 1)
        else (y, m, r - days_before_month y m + 1))"

definition day_us :: int where
  "day_us = 86400000000"

definition datetime_us :: "datetime \<Rightarrow> int" where
  "datetime_us t =
     int (ymd2ord (year t) (month t) (day t)) * day_us
     + ((int (hour t) * 60 + int (minute t)) * 60 + int (second t)) * 1000000 + int (microsecond t)"

definition valid_datetime :: "datetime \<Rightarrow> bool" where
  "valid_datetime t = (1 \<le> year t \<and> year t \<le> 9999 \<and> 1 \<le> month t \<and> month t \<le> 12 \<and>
     1 \<le> day t \<and> day t \<le> days_in_month (year t) (month t) \<and>
     hour t < 24 \<and> minute t < 60 \<and> second t < 60 \<and> microsecond t < 1000000)"

definition us_to_datetime :: "int \<Rightarrow> contract_error + datetime" where
  "us_to_datetime us =
     (if us < day_us \<or> 3652060 * day_us \<le> us then Inl (ValueError ''date value out of range'')
      else let (y, m, d) = ord2ymd (nat (us div day_us)); s = nat (us mod day_us) in
        Inr \<lparr>year = y, month = m, day = d, hour = s div 3600000000,
             minute = s div 60000000 mod 60, second = s div 1000000 mod 60,
             microsecond = s mod 1000000, utcoffset = Some 0\<rparr>)"

text \<open>\<^verbatim>\<open>astimezone(UTC)\<close>: the identity on a UTC datetime, else the offset is subtracted.\<close>

definition astimezone_utc :: "datetime \<Rightarrow> int \<Rightarrow> contract_error + datetime" where
  "astimezone_utc t off = (if off = 0 then Inr t else us_to_datetime (datetime_us t - off))"

section \<open>Printing and parsing\<close>

fun pad_dec :: "nat \<Rightarrow> nat \<Rightarrow> string" where
  "pad_dec 0 n = []"
| "pad_dec (Suc w) n = pad_dec w (n div 10) @ [digit_char (n mod 10)]"

definition strftime_rfc3339 :: "datetime \<Rightarrow> string" where
  "strftime_rfc3339 t =
     show_nat (year t) @ ''-'' @ pad_dec 2 (month t) @ ''-'' @ pad_dec 2 (day t) @ ''T'' @
     pad_dec 2 (hour t) @ '':'' @ pad_dec 2 (minute t) @ '':'' @ pad_dec 2 (second t) @ ''.''"

definition to_rfc3339_ms :: "datetime \<Rightarrow> contract_error + string" where
  "to_rfc3339_ms t =
     (case utcoffset t of
        None \<Rightarrow> Inl (ValueError ''datetime must be timezone-aware'')
      | Some off \<Rightarrow>
          (case astimezone_utc t off of
             Inl e \<Rightarrow> Inl e
           | Inr u \<Rightarrow> Inr (strftime_rfc3339 u @ pad_dec 3 (microsecond u div 1000) @ ''Z'')))"

text \<open>The canonical shape as a template: \<^verbatim>\<open>9\<close> stands for a digit.\<close>

definition matches_template :: "string \<Rightarrow> string \<Rightarrow> bool" where
  "matches_template t s =
     list_all2 (\<lambda>p c. if p = CHR ''9'' then is_digit c else p = c) t s"

definition rfc3339_template :: string where
  "rfc3339_template = ''9999-99-99T99:99:99.999Z''"

definition rfc3339_re_match :: "string \<Rightarrow> bool" where
  "rfc3339_re_match v = matches_template rfc3339_template (before_dollar v)"

definition sub_nat :: "string \<Rightarrow> nat \<Rightarrow> nat \<Rightarrow> nat" where
  "sub_nat s i w = read_nat (take w (drop i s))"

text \<open>
  \<^verbatim>\<open>strptime\<close> on a string of the canonical shape: the fields are read and
  checked; a trailing newline is unconverted data and an error.
\<close>

definition parse_rfc3339_ms :: "string \<Rightarrow> contract_error + datetime" where
  "parse_rfc3339_ms v =
     (if \<not> rfc3339_re_match v then Inl (ValueError ''not a canonical timestamp'')
      else if before_dollar v \<noteq> v then Inl (ValueError ''unconverted data remains'')
      else let t = \<lparr>year = sub_nat v 0 4, month = sub_nat v 5 2, day = sub_nat v 8 2,
                    hour = sub_nat v 11 2, minute = sub_nat v 14 2, second = sub_nat v 17 2,
                    microsecond = sub_nat v 20 3 * 1000, utcoffset = Some 0\<rparr> in
        if valid_datetime t then Inr t else Inl (ValueError ''value out of range''))"

definition is_valid_rfc3339_ms :: "string \<Rightarrow> bool" where
  "is_valid_rfc3339_ms v = (rfc3339_re_match v \<and> is_ok (parse_rfc3339_ms v))"

definition now_rfc3339_ms :: "datetime \<Rightarrow> contract_error + string" where
  "now_rfc3339_ms clock = to_rfc3339_ms clock"

section \<open>Fixed-width decimals\<close>

lemma length_pad_dec [simp]: "length (pad_dec w n) = w"
  by (induction w arbitrary: n) auto

lemma pad_dec_digits: "list_all is_digit (pad_dec w n)"
  by (induction w arbitrary: n) (auto simp: digit_char_digit)

lemma read_pad_dec: "n < 10 ^ w \<Longrightarrow> read_nat (pad_dec w n) = n"
proof (induction w arbitrary: n)
  case 0
  then show ?case by (simp add: read_nat_def)
next
  case (Suc w)
  then have "n div 10 < 10 ^ w" by (simp add: less_mult_imp_div_less)
  then have "read_nat (pad_dec w (n div 10)) = n div 10" by (rule Suc.IH)
  then show ?case by (simp add: read_nat_snoc digit_val_char)
qed

lemma less_append_same_length:
  "length a = length b \<Longrightarrow> a @ x < b @ y \<longleftrightarrow> a < b \<or> a = b \<and> x < (y :: char list)"
  by (induction a b rule: list_induct2) auto

lemma div_mod_less: "m div 10 < n div 10 \<or> m div 10 = n div 10 \<and> m mod 10 < n mod 10 \<longleftrightarrow> m < (n :: nat)"
proof -
  define a b c d where abcd: "a = m div 10" "b = m mod 10" "c = n div 10" "d = n mod 10"
  then have "m = 10 * a + b" "n = 10 * c + d" "b < 10" "d < 10" by simp_all
  then show ?thesis unfolding abcd [symmetric] by auto
qed

lemma pad_dec_less:
  "m < 10 ^ w \<Longrightarrow> n < 10 ^ w \<Longrightarrow> pad_dec w m < pad_dec w n \<longleftrightarrow> m < n"
proof (induction w arbitrary: m n)
  case 0
  then show ?case by simp
next
  case (Suc w)
  then have lt: "m div 10 < 10 ^ w" "n div 10 < 10 ^ w" by (simp_all add: less_mult_imp_div_less)
  have eq: "pad_dec w (m div 10) = pad_dec w (n div 10) \<longleftrightarrow> m div 10 = n div 10"
    using lt by (metis read_pad_dec)
  have "digit_char (m mod 10) < digit_char (n mod 10) \<longleftrightarrow> m mod 10 < n mod 10"
    by (simp add: digit_char_less)
  then have "pad_dec (Suc w) m < pad_dec (Suc w) n \<longleftrightarrow>
      m div 10 < n div 10 \<or> m div 10 = n div 10 \<and> m mod 10 < n mod 10"
    using Suc.IH [OF lt] eq by (simp add: less_append_same_length)
  also have "\<dots> \<longleftrightarrow> m < n" by (rule div_mod_less)
  finally show ?case .
qed

lemma pad_dec_eq: "m < 10 ^ w \<Longrightarrow> n < 10 ^ w \<Longrightarrow> pad_dec w m = pad_dec w n \<longleftrightarrow> m = n"
  by (metis read_pad_dec)

lemma show_nat_year: "1000 \<le> y \<Longrightarrow> y \<le> 9999 \<Longrightarrow> show_nat y = pad_dec 4 y"
proof -
  assume y: "1000 \<le> y" "y \<le> 9999"
  have "y div 10 div 10 div 10 < 10" using y by simp
  moreover have "\<not> y < 10" "\<not> y div 10 < 10" "\<not> y div 10 div 10 < 10" using y by simp_all
  ultimately have "show_nat y = [digit_char (y div 10 div 10 div 10), digit_char (y div 10 div 10 mod 10),
      digit_char (y div 10 mod 10), digit_char (y mod 10)]"
    by (simp add: show_nat.simps [of y] show_nat.simps [of "y div 10"]
        show_nat.simps [of "y div 10 div 10"] show_nat.simps [of "y div 10 div 10 div 10"] del: div_mult2_eq)
  moreover have "pad_dec (Suc (Suc (Suc (Suc 0)))) y = [digit_char (y div 10 div 10 div 10 mod 10),
      digit_char (y div 10 div 10 mod 10), digit_char (y div 10 mod 10), digit_char (y mod 10)]"
    by simp
  moreover have "y div 10 div 10 div 10 mod 10 = y div 10 div 10 div 10" using y by simp
  moreover have "(4 :: nat) = Suc (Suc (Suc (Suc 0)))" by simp
  ultimately show ?thesis by (simp only:)
qed

lemma pad_dec_2: "pad_dec 2 n = [digit_char (n div 10 mod 10), digit_char (n mod 10)]"
  and pad_dec_3: "pad_dec 3 n = [digit_char (n div 10 div 10 mod 10), digit_char (n div 10 mod 10), digit_char (n mod 10)]"
  and pad_dec_4: "pad_dec 4 n = [digit_char (n div 10 div 10 div 10 mod 10), digit_char (n div 10 div 10 mod 10),
                                 digit_char (n div 10 mod 10), digit_char (n mod 10)]"
proof -
  have nums: "(2 :: nat) = Suc (Suc 0)" "(3 :: nat) = Suc (Suc (Suc 0))" "(4 :: nat) = Suc (Suc (Suc (Suc 0)))"
    by simp_all
  show "pad_dec 2 n = [digit_char (n div 10 mod 10), digit_char (n mod 10)]"
    by (simp only: nums pad_dec.simps append.simps)
  show "pad_dec 3 n = [digit_char (n div 10 div 10 mod 10), digit_char (n div 10 mod 10), digit_char (n mod 10)]"
    by (simp only: nums pad_dec.simps append.simps)
  show "pad_dec 4 n = [digit_char (n div 10 div 10 div 10 mod 10), digit_char (n div 10 div 10 mod 10),
                                 digit_char (n div 10 mod 10), digit_char (n mod 10)]"
    by (simp only: nums pad_dec.simps append.simps)
qed

section \<open>Canonical datetimes\<close>

definition canonical_utc :: "datetime \<Rightarrow> bool" where
  "canonical_utc t = (valid_datetime t \<and> 1000 \<le> year t \<and> utcoffset t = Some 0)"

definition rfc3339_text :: "datetime \<Rightarrow> string" where
  "rfc3339_text t =
     pad_dec 4 (year t) @ ''-'' @ pad_dec 2 (month t) @ ''-'' @ pad_dec 2 (day t) @ ''T'' @
     pad_dec 2 (hour t) @ '':'' @ pad_dec 2 (minute t) @ '':'' @ pad_dec 2 (second t) @ ''.'' @
     pad_dec 3 (microsecond t div 1000) @ ''Z''"

lemma to_rfc3339_ms_text: "canonical_utc t \<Longrightarrow> to_rfc3339_ms t = Inr (rfc3339_text t)"
  by (simp add: canonical_utc_def valid_datetime_def to_rfc3339_ms_def astimezone_utc_def
      strftime_rfc3339_def rfc3339_text_def show_nat_year)

lemma rfc3339_text_before_dollar: "before_dollar (rfc3339_text t) = rfc3339_text t"
  by (simp add: before_dollar_def rfc3339_text_def newline_def)

lemma digit_char_mod: "is_digit (digit_char (n mod 10))"
  by (simp add: digit_char_digit)

lemma rfc3339_text_match: "rfc3339_re_match (rfc3339_text t)"
  unfolding rfc3339_re_match_def rfc3339_text_before_dollar
  by (simp add: rfc3339_text_def pad_dec_2 pad_dec_3 pad_dec_4 matches_template_def
      rfc3339_template_def digit_char_mod)

lemma days_in_month_le: "days_in_month y m \<le> 31"
  by (simp add: days_in_month_def)

lemma valid_datetime_widths:
  assumes "valid_datetime t"
  shows "year t < 10 ^ 4" "month t < 10 ^ 2" "day t < 10 ^ 2" "hour t < 10 ^ 2"
    "minute t < 10 ^ 2" "second t < 10 ^ 2" "microsecond t div 1000 < 10 ^ 3"
proof -
  have "day t \<le> 31" using assms days_in_month_le [of "year t" "month t"]
    by (simp add: valid_datetime_def)
  then show "day t < 10 ^ 2" by simp
  have "microsecond t < 1000 * 1000" using assms by (simp add: valid_datetime_def)
  then show "microsecond t div 1000 < 10 ^ 3" by (simp add: div_less_iff_less_mult)
qed (use assms in \<open>simp_all add: valid_datetime_def\<close>)

lemma rfc3339_text_fields:
  assumes "valid_datetime t"
  shows "sub_nat (rfc3339_text t) 0 4 = year t" "sub_nat (rfc3339_text t) 5 2 = month t"
    "sub_nat (rfc3339_text t) 8 2 = day t" "sub_nat (rfc3339_text t) 11 2 = hour t"
    "sub_nat (rfc3339_text t) 14 2 = minute t" "sub_nat (rfc3339_text t) 17 2 = second t"
    "sub_nat (rfc3339_text t) 20 3 = microsecond t div 1000"
  using valid_datetime_widths [OF assms]
  by (simp_all add: sub_nat_def rfc3339_text_def read_pad_dec)

lemma valid_datetime_microsecond:
  "valid_datetime t \<Longrightarrow> us < 1000000 \<Longrightarrow> valid_datetime (t\<lparr>microsecond := us\<rparr>)"
  by (simp add: valid_datetime_def)

text \<open>Round trip: printing an aware UTC datetime and parsing the text gives the same
  datetime, with the microseconds cut to the millisecond.\<close>

theorem rfc3339_round_trip:
  assumes "canonical_utc t" and "to_rfc3339_ms t = Inr s"
  shows "parse_rfc3339_ms s = Inr (t\<lparr>microsecond := microsecond t div 1000 * 1000\<rparr>) \<and> is_valid_rfc3339_ms s"
proof -
  let ?u = "t\<lparr>microsecond := microsecond t div 1000 * 1000\<rparr>"
  from assms have s: "s = rfc3339_text t" and v: "valid_datetime t" and off: "utcoffset t = Some 0"
    by (simp_all add: to_rfc3339_ms_text canonical_utc_def)
  have "microsecond t div 1000 * 1000 \<le> microsecond t" by simp
  moreover have "microsecond t < 1000000" using v by (simp add: valid_datetime_def)
  ultimately have "microsecond t div 1000 * 1000 < 1000000" by (rule le_less_trans)
  with v have "valid_datetime ?u" by (rule valid_datetime_microsecond)
  moreover have "\<lparr>year = year t, month = month t, day = day t, hour = hour t, minute = minute t,
      second = second t, microsecond = microsecond t div 1000 * 1000, utcoffset = Some 0\<rparr> = ?u"
    using off by (cases t) simp
  ultimately have parse: "parse_rfc3339_ms s = Inr ?u"
    by (simp add: parse_rfc3339_ms_def s rfc3339_text_match rfc3339_text_before_dollar
        rfc3339_text_fields [OF v] Let_def)
  moreover have "is_valid_rfc3339_ms s"
    unfolding is_valid_rfc3339_ms_def parse by (simp add: s rfc3339_text_match)
  ultimately show ?thesis ..
qed

definition sample_datetime :: datetime where
  "sample_datetime = \<lparr>year = 2024, month = 2, day = 29, hour = 23, minute = 59, second = 58,
                      microsecond = 123456, utcoffset = Some 0\<rparr>"

lemma sample_datetime_canonical: "canonical_utc sample_datetime"
  by (simp add: sample_datetime_def canonical_utc_def valid_datetime_def days_in_month_def is_leap_def)

lemmas rfc3339_eval = rfc3339_text_def sample_datetime_def pad_dec_2 pad_dec_3 pad_dec_4 digit_char_table

lemma sample_datetime_text: "to_rfc3339_ms sample_datetime = Inr ''2024-02-29T23:59:58.123Z''"
  unfolding to_rfc3339_ms_text [OF sample_datetime_canonical] by (simp add: rfc3339_eval)

theorem rfc3339_round_trip_witness:
  "parse_rfc3339_ms ''2024-02-29T23:59:58.123Z'' = Inr (sample_datetime\<lparr>microsecond := 123000\<rparr>)"
proof -
  from rfc3339_round_trip [OF sample_datetime_canonical sample_datetime_text] show ?thesis
    by (simp add: sample_datetime_def)
qed

section \<open>String order is time order\<close>

definition lex_before :: "nat list \<Rightarrow> nat list \<Rightarrow> bool" where
  "lex_before xs ys = (xs < ys)"

definition millis_fields :: "datetime \<Rightarrow> nat list" where
  "millis_fields t = [year t, month t, day t, hour t, minute t, second t, microsecond t div 1000]"

lemma block_less:
  "m < 10 ^ w \<Longrightarrow> n < 10 ^ w \<Longrightarrow>
   pad_dec w m @ x < pad_dec w n @ y \<longleftrightarrow> m < n \<or> m = n \<and> x < y"
  by (simp add: less_append_same_length pad_dec_less pad_dec_eq)

text \<open>The module's promise that timestamps can be compared and sorted as strings: for
  canonical UTC datetimes the lexicographic order of the printed texts is the calendar order of the
  datetimes at millisecond precision.\<close>

theorem rfc3339_string_order:
  assumes "canonical_utc a" "canonical_utc b" "to_rfc3339_ms a = Inr s" "to_rfc3339_ms b = Inr t"
  shows "s < t \<longleftrightarrow> lex_before (millis_fields a) (millis_fields b)"
proof -
  from assms have st: "s = rfc3339_text a" "t = rfc3339_text b"
    and va: "valid_datetime a" and vb: "valid_datetime b"
    by (simp_all add: to_rfc3339_ms_text canonical_utc_def)
  note widths = valid_datetime_widths [OF va] valid_datetime_widths [OF vb]
  show ?thesis
    unfolding st rfc3339_text_def lex_before_def millis_fields_def
    using widths by (simp add: block_less)
qed

theorem rfc3339_string_order_witness:
  "''2024-02-29T23:59:58.123Z'' < ''2024-03-01T00:00:00.000Z''"
proof -
  let ?b = "sample_datetime\<lparr>month := 3, day := 1, hour := 0, minute := 0, second := 0, microsecond := 999\<rparr>"
  have b: "canonical_utc ?b"
    by (simp add: sample_datetime_def canonical_utc_def valid_datetime_def days_in_month_def)
  then have "to_rfc3339_ms ?b = Inr ''2024-03-01T00:00:00.000Z''"
    by (simp add: to_rfc3339_ms_text rfc3339_eval)
  moreover have "lex_before (millis_fields sample_datetime) (millis_fields ?b)"
    by (simp add: lex_before_def millis_fields_def sample_datetime_def)
  ultimately show ?thesis
    using rfc3339_string_order [OF sample_datetime_canonical b sample_datetime_text] by blast
qed

end
