(* ===== verification/Mirage_Text.thy ===== *)
theory Mirage_Text
  imports Mirage_Prelude
begin

text \<open>
  Text as the checks of the source see it. A regular expression is a value of \<open>rx\<close> with an
  executable search (\<^verbatim>\<open>re.search\<close> with the flag \<^verbatim>\<open>(?i)\<close>); case folding and
  word characters are those of ASCII. A Python string is the list of its UTF-8 bytes, so its
  characters, its length and the cut of \<^verbatim>\<open>_truncate_utf8\<close> are computed from the bytes.
\<close>

section \<open>Regular expressions\<close>

datatype rx =
    Lit string          \<comment> \<open>lower case, matched without regard to case\<close>
  | OneOf string
  | Space
  | Spaces
  | AnyStar
  | Bound
  | Begin
  | Opt rx
  | Alt rx rx
  | Seq rx rx

definition is_word :: "char \<Rightarrow> bool" where
  "is_word c = (let n = (of_char c :: nat) in (48 \<le> n \<and> n \<le> 57) \<or> (65 \<le> n \<and> n \<le> 90) \<or> n = 95 \<or> (97 \<le> n \<and> n \<le> 122))"

definition word_at :: "string \<Rightarrow> nat \<Rightarrow> bool" where
  "word_at s i = (i < length s \<and> is_word (s ! i))"

text \<open>The positions at which a match that starts at \<open>i\<close> can end.\<close>

primrec rx_ends :: "rx \<Rightarrow> string \<Rightarrow> nat \<Rightarrow> nat list" where
  "rx_ends (Lit w) s i = (if str_lower (take (length w) (drop i s)) = w then [i + length w] else [])"
| "rx_ends (OneOf cs) s i = (if i < length s \<and> s ! i \<in> set cs then [i + 1] else [])"
| "rx_ends Space s i = (if i < length s \<and> is_space (s ! i) then [i + 1] else [])"
| "rx_ends Spaces s i = [i + 1 ..< i + 1 + length (takeWhile is_space (drop i s))]"
| "rx_ends AnyStar s i = [i ..< i + 1 + length (takeWhile (\<lambda>c. c \<noteq> CHR 0x0A) (drop i s))]"
| "rx_ends Bound s i = (if (0 < i \<and> word_at s (i - 1)) \<noteq> word_at s i then [i] else [])"
| "rx_ends Begin s i = (if i = 0 then [i] else [])"
| "rx_ends (Opt r) s i = i # rx_ends r s i"
| "rx_ends (Alt a b) s i = rx_ends a s i @ rx_ends b s i"
| "rx_ends (Seq a b) s i = concat (map (rx_ends b s) (rx_ends a s i))"

definition rx_search :: "rx \<Rightarrow> string \<Rightarrow> bool" where
  "rx_search r s = list_ex (\<lambda>i. rx_ends r s i \<noteq> []) [0..<length s + 1]"

fun rx_seq :: "rx list \<Rightarrow> rx" where
  "rx_seq [] = Lit []"
| "rx_seq [r] = r"
| "rx_seq (r # rs) = Seq r (rx_seq rs)"

fun rx_any :: "rx list \<Rightarrow> rx" where
  "rx_any [r] = r"
| "rx_any (r # rs) = Alt r (rx_any rs)"
| "rx_any [] = Lit []"

text \<open>The check \<^verbatim>\<open>^[0-9a-f]{64}$\<close> of the hash columns.\<close>

definition hex64 :: "string \<Rightarrow> bool" where
  "hex64 s = (length s = 64 \<and> list_all (\<lambda>c. let n = (of_char c :: nat) in (48 \<le> n \<and> n \<le> 57) \<or> (97 \<le> n \<and> n \<le> 102)) s)"

section \<open>UTF-8\<close>

definition is_cont :: "char \<Rightarrow> bool" where
  "is_cont c = (let n = (of_char c :: nat) in 128 \<le> n \<and> n < 192)"

definition cont_needed :: "char \<Rightarrow> nat" where
  "cont_needed c = (let n = (of_char c :: nat) in if n < 192 then 0 else if n < 224 then 1 else if n < 240 then 2 else 3)"

text \<open>The characters of a string: a first byte with the continuation bytes after it.\<close>

function utf8_chars :: "string \<Rightarrow> string list" where
  "utf8_chars [] = []"
| "utf8_chars (c # cs) = (c # takeWhile is_cont cs) # utf8_chars (dropWhile is_cont cs)"
  by pat_completeness auto
termination
  by (relation "measure length") (auto simp: le_imp_less_Suc length_dropWhile_le)

definition py_len :: "string \<Rightarrow> nat" where
  "py_len s = length (utf8_chars s)"

text \<open>What decoding with \<^verbatim>\<open>errors="ignore"\<close> drops after a cut: a last character that lost bytes.\<close>

definition drop_partial :: "string \<Rightarrow> string" where
  "drop_partial s = (let r = rev s; k = length (takeWhile is_cont r) in
     case dropWhile is_cont r of [] \<Rightarrow> [] | c # r' \<Rightarrow> if k < cont_needed c then rev r' else s)"

definition truncate_utf8 :: "string \<Rightarrow> nat \<Rightarrow> string" where
  "truncate_utf8 value max_len = (if length value \<le> max_len then value else drop_partial (take max_len value))"

text \<open>Well-formed strings: every character has the continuation bytes its first byte announces.\<close>

definition utf8_ok :: "string \<Rightarrow> bool" where
  "utf8_ok s = list_all (\<lambda>w. \<not> is_cont (hd w) \<and> length w = Suc (cont_needed (hd w))) (utf8_chars s)"

lemma concat_utf8_chars [simp]: "concat (utf8_chars s) = s"
  by (induction s rule: utf8_chars.induct) simp_all

lemma py_len_le: "py_len s \<le> length s"
  unfolding py_len_def
  by (induction s rule: utf8_chars.induct) (auto intro: le_trans [OF _ length_dropWhile_le])

lemma drop_partial_le: "length (drop_partial s) \<le> length s"
proof (cases "dropWhile is_cont (rev s)")
  case (Cons c r)
  then have "length (c # r) \<le> length s"
    by (metis length_dropWhile_le length_rev)
  then show ?thesis
    using Cons by (simp add: drop_partial_def Let_def)
qed (simp add: drop_partial_def Let_def del: dropWhile_eq_Nil_conv)

lemma truncate_utf8_le: "length (truncate_utf8 s n) \<le> n"
  using drop_partial_le [of "take n s"] by (simp add: truncate_utf8_def)

lemma drop_partial_prefix: "\<exists>t. s = drop_partial s @ t"
proof (cases "dropWhile is_cont (rev s)")
  case (Cons c r)
  have "rev s = takeWhile is_cont (rev s) @ c # r"
    using Cons by (metis takeWhile_dropWhile_id)
  then have "s = rev r @ [c] @ rev (takeWhile is_cont (rev s))"
    by (metis append.assoc append_Cons append_Nil rev.simps(2) rev_append rev_rev_ident)
  then show ?thesis
    using Cons by (auto simp: drop_partial_def Let_def)
qed (simp add: drop_partial_def Let_def del: dropWhile_eq_Nil_conv)

lemma truncate_utf8_prefix: "\<exists>t. s = truncate_utf8 s n @ t"
proof -
  obtain t where "take n s = drop_partial (take n s) @ t"
    using drop_partial_prefix by blast
  then have "s = drop_partial (take n s) @ (t @ drop n s)"
    by (metis append.assoc append_take_drop_id)
  then show ?thesis
    by (auto simp: truncate_utf8_def)
qed

end
