(* ===== verification/Mirage_Evidence.thy ===== *)
theory Mirage_Evidence
  imports Mirage_Store Mirage_Text "HOL-Library.Product_Lexorder" "HOL-Library.Sublist"
begin

text \<open>
  \<^verbatim>\<open>libs/mirage_common/evidence.py\<close>: the evidence ledger. Bytes are hashed while
  they are read, stored in an object store under a key derived from the case,
  and recorded in an immutable row per (source, sequence); verification re-reads
  the exact stored version and compares its hash with the ledger. A stream is the
  list of what its successive reads return. The object store is an interface;
  \<open>MemoryObjectStore\<close> is the adapter of the tests, \<open>S3ObjectStore\<close> the production one on a
  client that is a parameter.
\<close>

section \<open>Types, limits and errors\<close>

definition EVIDENCE_CATEGORIES :: "string list" where
  "EVIDENCE_CATEGORIES = [''raw'', ''artifacts'', ''screenshots'', ''logs'', ''snapshots'', ''exports'', ''manifests'']"

definition TYPE_CATEGORIES :: "(string \<times> string) list" where
  "TYPE_CATEGORIES =
     [(''RAW_TELEMETRY'', ''raw''), (''ARTIFACT'', ''artifacts''), (''SCREENSHOT'', ''screenshots''), (''LOG'', ''logs''),
      (''SNAPSHOT'', ''snapshots''), (''EXPORT'', ''exports''), (''MANIFEST'', ''manifests''), (''SIGNATURE'', ''manifests''),
      (''VERIFICATION_REPORT'', ''exports''), (''CANARY_CALLBACK'', ''raw'')]"

definition DEFAULT_MAX_BYTES :: "(string \<times> int) list" where
  "DEFAULT_MAX_BYTES =
     [(''RAW_TELEMETRY'', 64 * 1024 * 1024), (''ARTIFACT'', 250 * 1024 * 1024), (''SCREENSHOT'', 50 * 1024 * 1024),
      (''LOG'', 250 * 1024 * 1024), (''SNAPSHOT'', 32 * 1024 * 1024), (''EXPORT'', 2 * 1024 * 1024 * 1024),
      (''MANIFEST'', 4 * 1024 * 1024), (''SIGNATURE'', 64 * 1024), (''VERIFICATION_REPORT'', 8 * 1024 * 1024),
      (''CANARY_CALLBACK'', 256 * 1024)]"

definition max_bytes_by_type :: "(string \<times> int) list \<Rightarrow> string \<Rightarrow> int option" where
  "max_bytes_by_type overrides t = (case map_of overrides t of Some n \<Rightarrow> Some n | None \<Rightarrow> map_of DEFAULT_MAX_BYTES t)"

datatype evidence_error =
    EvidenceError string
  | EvidenceTooLargeError string
  | EvidenceSourceError string
  | EvidenceNotFoundError string
  | ObjectMissingError string
  | EvValueError string
  | StoreError string string

text \<open>\<open>StoreError type message\<close> is any other exception of the object store.\<close>

definition exc_text :: "evidence_error \<Rightarrow> string" where
  "exc_text x = (case x of
      EvidenceError s \<Rightarrow> ''EvidenceError: '' @ s | EvidenceTooLargeError s \<Rightarrow> ''EvidenceTooLargeError: '' @ s
    | EvidenceSourceError s \<Rightarrow> ''EvidenceSourceError: '' @ s | EvidenceNotFoundError s \<Rightarrow> ''EvidenceNotFoundError: '' @ s
    | ObjectMissingError s \<Rightarrow> ''ObjectMissingError: '' @ s | EvValueError s \<Rightarrow> ''ValueError: '' @ s
    | StoreError t s \<Rightarrow> t @ '': '' @ s)"

record storage_config =
  sc_bucket :: string
  sc_region :: string
  sc_object_lock_mode :: string
  sc_retention_days :: int
  sc_multipart_threshold_mb :: int
  sc_max_retries :: int
  sc_request_timeout_seconds :: int
  sc_kms_signing_key_arn :: string
  sc_endpoint_url :: "string option"

definition check_storage_config :: "storage_config \<Rightarrow> evidence_error option" where
  "check_storage_config c =
     (if sc_bucket c = [] \<or> CHR ''/'' \<in> set (sc_bucket c)
      then Some (EvValueError ''MIRAGE_EVIDENCE_BUCKET must be a bucket name, not a path'')
      else if sc_object_lock_mode c \<notin> {''GOVERNANCE'', ''COMPLIANCE''}
      then Some (EvValueError ''MIRAGE_EVIDENCE_OBJECT_LOCK_MODE must be GOVERNANCE or COMPLIANCE'')
      else if sc_retention_days c < 1 \<or> sc_multipart_threshold_mb c < 5
      then Some (EvValueError ''retention must be positive and multipart threshold at least 5 MB'')
      else if \<not> (0 \<le> sc_max_retries c \<and> sc_max_retries c \<le> 10) \<or>
              \<not> (1 \<le> sc_request_timeout_seconds c \<and> sc_request_timeout_seconds c \<le> 300)
      then Some (EvValueError ''invalid evidence retry/timeout configuration'')
      else if sc_kms_signing_key_arn c = [] then Some (EvValueError ''MIRAGE_KMS_SIGNING_KEY_ARN is required'')
      else None)"

section \<open>Object stores\<close>

record stored_object =
  so_bucket :: string
  so_key :: string
  so_version_id :: string
  so_object_lock_mode :: "string option"
  so_retention_until :: "timestamp option"

record put_args =
  pt_key :: string
  pt_data :: string
  pt_size :: int
  pt_media_type :: string
  pt_sha256 :: string
  pt_correlation_id :: string

record 'o object_store =
  os_put :: "timestamp \<Rightarrow> put_args \<Rightarrow> 'o \<Rightarrow> (evidence_error + stored_object) \<times> 'o"
  os_open :: "string \<Rightarrow> string \<Rightarrow> string \<Rightarrow> 'o \<Rightarrow> evidence_error + string list"

record memory_store =
  ms_bucket :: string
  ms_objects :: "((string \<times> string) \<times> string) list"
  ms_versions :: "(string \<times> nat) list"

definition memory_put :: "timestamp \<Rightarrow> put_args \<Rightarrow> memory_store \<Rightarrow> (evidence_error + stored_object) \<times> memory_store" where
  "memory_put now p st =
     (if int (length (pt_data p)) \<noteq> pt_size p
      then (Inl (EvidenceError ''stream size changed between acquisition and storage''), st)
      else let n = (case map_of (ms_versions st) (pt_key p) of None \<Rightarrow> 0 | Some k \<Rightarrow> k) + 1 in
        (Inr \<lparr>so_bucket = ms_bucket st, so_key = pt_key p, so_version_id = show_nat n,
              so_object_lock_mode = Some ''GOVERNANCE'', so_retention_until = Some now\<rparr>,
         st\<lparr>ms_versions := AList.update (pt_key p) n (ms_versions st),
           ms_objects := AList.update (pt_key p, show_nat n) (pt_data p) (ms_objects st)\<rparr>))"

definition memory_open :: "string \<Rightarrow> string \<Rightarrow> string \<Rightarrow> memory_store \<Rightarrow> evidence_error + string list" where
  "memory_open bucket key version st =
     (if bucket \<noteq> ms_bucket st then Inl (ObjectMissingError key)
      else case map_of (ms_objects st) (key, version) of None \<Rightarrow> Inl (ObjectMissingError key) | Some data \<Rightarrow> Inr [data])"

definition MemoryObjectStore :: "memory_store object_store" where
  "MemoryObjectStore = \<lparr>os_put = memory_put, os_open = memory_open\<rparr>"

text \<open>
  The S3 client: upload, head and get as the SDK offers them. A head answers with
  the optional VersionId, ObjectLockMode and ObjectLockRetainUntilDate; a failed get carries
  the error code of the response, if it has one.
\<close>

record s3_head =
  hd_version_id :: "string option"
  hd_lock_mode :: "string option"
  hd_retain_until :: "timestamp option"

record 'c s3_client =
  cl_upload :: "string \<Rightarrow> put_args \<Rightarrow> string \<Rightarrow> timestamp \<Rightarrow> string option \<Rightarrow> 'c \<Rightarrow> evidence_error option \<times> 'c"
  cl_head :: "string \<Rightarrow> string \<Rightarrow> 'c \<Rightarrow> evidence_error + s3_head"
  cl_get :: "string \<Rightarrow> string \<Rightarrow> string \<Rightarrow> 'c \<Rightarrow> (string option \<times> evidence_error) + string list"

text \<open>Timestamps are microseconds.\<close>

definition DAY :: timestamp where
  "DAY = 86400000000"

definition s3_put :: "'c s3_client \<Rightarrow> storage_config \<Rightarrow> timestamp \<Rightarrow> put_args \<Rightarrow> 'c \<Rightarrow> (evidence_error + stored_object) \<times> 'c" where
  "s3_put C c now p st =
     (let retention = now + sc_retention_days c * DAY;
          sse = (if sc_endpoint_url c = None \<or> sc_endpoint_url c = Some [] then Some ''AES256'' else None) in
      case cl_upload C (sc_bucket c) p (sc_object_lock_mode c) retention sse st of
        (Some x, st1) \<Rightarrow> (Inl x, st1)
      | (None, st1) \<Rightarrow>
          (case cl_head C (sc_bucket c) (pt_key p) st1 of
             Inl x \<Rightarrow> (Inl x, st1)
           | Inr h \<Rightarrow>
               (case hd_version_id h of
                  None \<Rightarrow> (Inl (EvidenceError ''S3 did not return a version ID; bucket versioning is required''), st1)
                | Some v \<Rightarrow>
                    (if v = [] then (Inl (EvidenceError ''S3 did not return a version ID; bucket versioning is required''), st1)
                     else (Inr \<lparr>so_bucket = sc_bucket c, so_key = pt_key p, so_version_id = v,
                             so_object_lock_mode = Some (case hd_lock_mode h of None \<Rightarrow> sc_object_lock_mode c | Some x \<Rightarrow> x),
                             so_retention_until = Some (case hd_retain_until h of None \<Rightarrow> retention | Some t \<Rightarrow> t)\<rparr>, st1)))))"

definition s3_open :: "'c s3_client \<Rightarrow> storage_config \<Rightarrow> string \<Rightarrow> string \<Rightarrow> string \<Rightarrow> 'c \<Rightarrow> evidence_error + string list" where
  "s3_open C c bucket key version st =
     (if bucket \<noteq> sc_bucket c then Inl (EvidenceError ''ledger bucket does not match configured evidence bucket'')
      else case cl_get C bucket key version st of
        Inl (code, x) \<Rightarrow> if code \<in> {Some ''NoSuchKey'', Some ''NoSuchVersion'', Some ''404''} then Inl (ObjectMissingError key) else Inl x
      | Inr body \<Rightarrow> Inr [concat (takeWhile (\<lambda>chunk. chunk \<noteq> []) body)])"

definition S3ObjectStore :: "'c s3_client \<Rightarrow> storage_config \<Rightarrow> 'c object_store" where
  "S3ObjectStore C c = \<lparr>os_put = s3_put C c, os_open = s3_open C c\<rparr>"

section \<open>Names and keys\<close>

definition safe_char :: "char \<Rightarrow> bool" where
  "safe_char c = (let n = (of_char c :: nat) in
     (65 \<le> n \<and> n \<le> 90) \<or> (97 \<le> n \<and> n \<le> 122) \<or> (48 \<le> n \<and> n \<le> 57) \<or> c = CHR ''.'' \<or> c = CHR ''_'' \<or> c = CHR ''-'')"

text \<open>\<^verbatim>\<open>PurePath(p).name\<close> on POSIX: the last component that is neither empty nor a dot.\<close>

definition pure_path_name :: "string \<Rightarrow> string" where
  "pure_path_name p = (case rev (filter (\<lambda>w. w \<noteq> [] \<and> w \<noteq> ''.'') (split_on (CHR ''/'') p)) of [] \<Rightarrow> [] | w # ws \<Rightarrow> w)"

text \<open>\<^verbatim>\<open>re.sub\<close> of a maximal run of characters of a class by one underscore.\<close>

fun sub_runs :: "(char \<Rightarrow> bool) \<Rightarrow> string \<Rightarrow> string" where
  "sub_runs P [] = []"
| "sub_runs P (c # s) =
     (if P c then (if s \<noteq> [] \<and> P (hd s) then sub_runs P s else CHR ''_'' # sub_runs P s) else c # sub_runs P s)"

definition strip_chars :: "(char \<Rightarrow> bool) \<Rightarrow> string \<Rightarrow> string" where
  "strip_chars P s = rev (dropWhile P (rev (dropWhile P s)))"

definition sanitise_filename :: "string option \<Rightarrow> string option" where
  "sanitise_filename filename = (case filename of None \<Rightarrow> None | Some f \<Rightarrow>
     let name1 = pure_path_name (map (\<lambda>c. if c = CHR 0x5C then CHR ''/'' else c) f);
         name2 = strip_chars (\<lambda>c. c = CHR ''.'' \<or> c = CHR ''_'') (sub_runs (\<lambda>c. \<not> safe_char c) name1);
         name3 = sub_runs (\<lambda>c. c = CHR ''_'') name2;
         name4 = (if name3 = [] then ''unnamed'' else name3) in
     Some (take 128 name4))"

definition evidence_s3_key :: "string \<Rightarrow> string \<Rightarrow> string \<Rightarrow> string option \<Rightarrow> evidence_error + string" where
  "evidence_s3_key cid category eid filename =
     (if category \<notin> set EVIDENCE_CATEGORIES then Inl (EvValueError (''unsupported evidence category: '' @ category))
      else if \<not> canonical_ulid cid then Inl (EvValueError ''case_id must be a canonical ULID'')
      else if \<not> canonical_ulid eid then Inl (EvValueError ''evidence_id must be a canonical ULID'')
      else let suffix = (case sanitise_filename filename of None \<Rightarrow> [] | Some safe \<Rightarrow> if safe = [] then [] else ''-'' @ safe) in
        Inr (''cases/'' @ cid @ ''/'' @ category @ ''/'' @ eid @ suffix))"

text \<open>The hashing loop: what was read so far, and the exception when the limit is passed.\<close>

fun hash_loop :: "int \<Rightarrow> string list \<Rightarrow> string \<Rightarrow> evidence_error + string" where
  "hash_loop limit [] spool = Inr spool"
| "hash_loop limit (chunk # chunks) spool =
     (if chunk = [] then Inr spool
      else if int (length spool + length chunk) > limit
      then Inl (EvidenceTooLargeError (''evidence exceeds '' @ show_int limit @ '' bytes''))
      else hash_loop limit chunks (spool @ chunk))"

definition stream_hash :: "runtime \<Rightarrow> string list \<Rightarrow> int \<Rightarrow> evidence_error + (string \<times> int \<times> string)" where
  "stream_hash rt stream limit =
     sbind (hash_loop limit stream []) (\<lambda>spool. Inr (spool, int (length spool), rt_sha256 rt spool))"

section \<open>The ledger\<close>

record evidence_row =
  eo_evidence_id :: string
  eo_case_id :: string
  eo_session_id :: "string option"
  eo_evidence_type :: string
  eo_source_id :: string
  eo_source_sequence :: int
  eo_source_certificate_serial :: "string option"
  eo_related_event_ids :: "json list"
  eo_acquisition_time :: timestamp
  eo_stored_time :: timestamp
  eo_original_filename :: "string option"
  eo_media_type :: string
  eo_size_bytes :: int
  eo_sha256 :: string
  eo_s3_bucket :: string
  eo_s3_key :: string
  eo_s3_version_id :: string
  eo_object_lock_mode :: "string option"
  eo_retention_until :: "timestamp option"
  eo_verification_status :: string
  eo_verified_at :: "timestamp option"
  eo_verification_error :: "string option"
  eo_collection_method :: string
  eo_classification :: string
  eo_metadata :: json
  eo_required_for_export :: bool

record verification_row =
  vh_verification_id :: string
  vh_evidence_id :: string
  vh_reason :: string
  vh_status :: string
  vh_expected_sha256 :: string
  vh_calculated_sha256 :: "string option"
  vh_error :: "string option"
  vh_requested_by :: string

record gap_row =
  gp_gap_id :: string
  gp_case_id :: string
  gp_required :: bool
  gp_reason :: string
  gp_resolved_at :: "timestamp option"

record session_row =
  ss_session_id :: string
  ss_case_id :: string
  ss_sandbox_id :: "string option"
  ss_status :: string

record ledger =
  el_db :: db
  el_sessions :: "session_row list"
  el_agents :: "agent_row list"
  el_objects :: "evidence_row list"
  el_history :: "verification_row list"
  el_gaps :: "gap_row list"

text \<open>The constraints of \<^verbatim>\<open>evidence_objects\<close> in migration 0008.\<close>

definition insert_evidence :: "evidence_row \<Rightarrow> ledger \<Rightarrow> 'e svc_error + ledger" where
  "insert_evidence r l =
     (if \<not> canonical_ulid (eo_evidence_id r) \<or> eo_source_sequence r < 0 \<or> eo_size_bytes r < 0 \<or> \<not> hex64 (eo_sha256 r) \<or>
         eo_object_lock_mode r \<notin> {None, Some ''GOVERNANCE'', Some ''COMPLIANCE''}
      then Inl (Db (CheckViolation ''evidence_objects''))
      else if eo_evidence_id r \<in> eo_evidence_id ` set (el_objects l) \<or>
         list_ex (\<lambda>q. eo_source_id q = eo_source_id r \<and> eo_source_sequence q = eo_source_sequence r) (el_objects l) \<or>
         list_ex (\<lambda>q. eo_s3_bucket q = eo_s3_bucket r \<and> eo_s3_key q = eo_s3_key r \<and> eo_s3_version_id q = eo_s3_version_id r) (el_objects l)
      then Inl (Db (UniqueViolation ''evidence_objects''))
      else if eo_case_id r \<notin> case_id ` set (cases (el_db l)) \<or>
         (case eo_session_id r of None \<Rightarrow> False | Some x \<Rightarrow> x \<notin> ss_session_id ` set (el_sessions l))
      then Inl (Db (ForeignKeyViolation ''evidence_objects''))
      else Inr (l\<lparr>el_objects := el_objects l @ [r]\<rparr>))"

record acquisition_request =
  aq_case_id :: string
  aq_session_id :: "string option"
  aq_evidence_type :: string
  aq_source_id :: string
  aq_source_sequence :: int
  aq_source_certificate_serial :: "string option"
  aq_related_event_ids :: "json list"
  aq_acquisition_time :: timestamp
  aq_original_filename :: "string option"
  aq_media_type :: string
  aq_collection_method :: string
  aq_classification :: string
  aq_metadata :: json
  aq_required_for_export :: bool

record evidence_record =
  er_evidence_id :: string
  er_case_id :: string
  er_sha256 :: string
  er_size_bytes :: int
  er_bucket :: string
  er_key :: string
  er_version_id :: string
  er_verification_status :: string

definition given :: "string option \<Rightarrow> string option" where
  "given x = (case x of None \<Rightarrow> None | Some s \<Rightarrow> if s = [] then None else Some s)"

definition source_ok :: "agent_row list \<Rightarrow> string \<Rightarrow> string \<Rightarrow> bool" where
  "source_ok agents source serial =
     (case lookup_by ag_agent_id agents source of None \<Rightarrow> False
      | Some a \<Rightarrow> ag_status a = ''ACTIVE'' \<and> ag_certificate_serial a = serial)"

definition row_at :: "ledger \<Rightarrow> string \<Rightarrow> int \<Rightarrow> evidence_row option" where
  "row_at l source n = lookup_by (\<lambda>r. (eo_source_id r, eo_source_sequence r)) (el_objects l) (source, n)"

definition max_sequence :: "ledger \<Rightarrow> string \<Rightarrow> int" where
  "max_sequence l source =
     foldl max (-1) (map eo_source_sequence (filter (\<lambda>r. eo_source_id r = source) (el_objects l)))"

definition record_of :: "evidence_row \<Rightarrow> evidence_record" where
  "record_of r = \<lparr>er_evidence_id = eo_evidence_id r, er_case_id = eo_case_id r, er_sha256 = eo_sha256 r,
     er_size_bytes = eo_size_bytes r, er_bucket = eo_s3_bucket r, er_key = eo_s3_key r, er_version_id = eo_s3_version_id r,
     er_verification_status = eo_verification_status r\<rparr>"

definition same_evidence :: "acquisition_request \<Rightarrow> string \<Rightarrow> int \<Rightarrow> evidence_row \<Rightarrow> bool" where
  "same_evidence q sha sz r = (eo_case_id r = aq_case_id q \<and> eo_session_id r = aq_session_id q \<and>
     eo_evidence_type r = aq_evidence_type q \<and> eo_sha256 r = sha \<and> eo_size_bytes r = sz)"

text \<open>The checks under the advisory lock of the source: an existing record to return, or leave to store.\<close>

definition check_source :: "acquisition_request \<Rightarrow> string \<Rightarrow> int \<Rightarrow> ledger \<Rightarrow> evidence_error + evidence_record option" where
  "check_source q sha sz l =
     (if aq_case_id q \<notin> case_id ` set (cases (el_db l)) then Inl (EvidenceError ''unknown case'')
      else if (case given (aq_session_id q) of None \<Rightarrow> False | Some x \<Rightarrow> \<not> list_ex (\<lambda>s. ss_session_id s = x \<and> ss_case_id s = aq_case_id q) (el_sessions l))
      then Inl (EvidenceError ''session does not belong to case'')
      else if (case given (aq_source_certificate_serial q) of None \<Rightarrow> False | Some x \<Rightarrow> \<not> source_ok (el_agents l) (aq_source_id q) x)
      then Inl (EvidenceSourceError ''source authentication failed'')
      else case row_at l (aq_source_id q) (aq_source_sequence q) of
        Some r \<Rightarrow>
          if same_evidence q sha sz r then Inr (Some (record_of r))
          else Inl (EvidenceSourceError ''source sequence replayed with different evidence metadata or bytes'')
      | None \<Rightarrow>
          if aq_source_sequence q \<le> max_sequence l (aq_source_id q)
          then Inl (EvidenceSourceError ''source sequence is replayed or out of order'')
          else Inr None)"

definition new_row :: "timestamp \<Rightarrow> string \<Rightarrow> acquisition_request \<Rightarrow> string \<Rightarrow> int \<Rightarrow> stored_object \<Rightarrow> evidence_row" where
  "new_row now eid q sha sz st =
     \<lparr>eo_evidence_id = eid, eo_case_id = aq_case_id q, eo_session_id = aq_session_id q, eo_evidence_type = aq_evidence_type q,
      eo_source_id = aq_source_id q, eo_source_sequence = aq_source_sequence q,
      eo_source_certificate_serial = aq_source_certificate_serial q, eo_related_event_ids = aq_related_event_ids q,
      eo_acquisition_time = aq_acquisition_time q, eo_stored_time = now,
      eo_original_filename = sanitise_filename (aq_original_filename q), eo_media_type = aq_media_type q,
      eo_size_bytes = sz, eo_sha256 = sha, eo_s3_bucket = so_bucket st, eo_s3_key = so_key st,
      eo_s3_version_id = so_version_id st, eo_object_lock_mode = so_object_lock_mode st,
      eo_retention_until = so_retention_until st, eo_verification_status = ''PENDING'', eo_verified_at = None,
      eo_verification_error = None, eo_collection_method = aq_collection_method q, eo_classification = aq_classification q,
      eo_metadata = aq_metadata q, eo_required_for_export = aq_required_for_export q\<rparr>"

definition created_args :: "acquisition_request \<Rightarrow> evidence_row \<Rightarrow> build_args" where
  "created_args q r =
     \<lparr>be_event_type = ''evidence.created'', be_schema_version = ''1.0'',
      be_payload = JObj [(''evidence_id'', JStr (eo_evidence_id r)), (''case_id'', JStr (eo_case_id r)),
        (''evidence_type'', JStr (eo_evidence_type r)), (''sha256'', JStr (eo_sha256 r)), (''size_bytes'', JInt (eo_size_bytes r)),
        (''s3_key'', JStr (eo_s3_key r)), (''s3_version_id'', JStr (eo_s3_version_id r)), (''verification_status'', JStr ''PENDING'')],
      be_source_id = ''mirage-worker.evidence'', be_sequence = aq_source_sequence q, be_actor_type = ''SYSTEM'',
      be_classification = ''EVIDENCE'', be_case_id = Some (aq_case_id q), be_session_id = aq_session_id q,
      be_event_id = None, be_event_time = None\<rparr>"

definition acquired_audit :: "string \<Rightarrow> string \<Rightarrow> evidence_row \<Rightarrow> audit_row" where
  "acquired_audit actor corr r =
     \<lparr>au_actor = actor, au_actor_type = ''AGENT'', au_action = ''evidence.acquired'', au_target = eo_evidence_id r,
      au_outcome = ''SUCCESS'', au_correlation_id = corr, au_detail = eo_evidence_type r @ '':'' @ show_int (eo_size_bytes r)\<rparr>"

definition record_evidence :: "env \<Rightarrow> acquisition_request \<Rightarrow> string \<Rightarrow> string \<Rightarrow> evidence_row \<Rightarrow> ledger \<Rightarrow>
    (evidence_error svc_error + evidence_record) \<times> ledger" where
  "record_evidence e q actor corr r l =
     (case insert_evidence r l of
        Inl x \<Rightarrow> (Inl x, l)
      | Inr l1 \<Rightarrow>
          let l2 = l1\<lparr>el_db := insert_audit (acquired_audit actor corr r) (el_db l1)\<rparr> in
          (case publish_validated e 2 (created_args q r) (el_db l2) of
             Inl x \<Rightarrow> (Inl x, l2)
           | Inr d \<Rightarrow> (Inr (record_of r), l2\<lparr>el_db := d\<rparr>)))"

text \<open>Everything before the upload: the record of an earlier acquisition, or the spooled bytes with size, hash and key.\<close>

definition prepare :: "(string \<times> int) list \<Rightarrow> runtime \<Rightarrow> acquisition_request \<Rightarrow> string list \<Rightarrow> string \<Rightarrow> ledger \<Rightarrow>
    evidence_error + evidence_record option \<times> string \<times> int \<times> string \<times> string" where
  "prepare limits rt q stream eid l =
     (case (max_bytes_by_type limits (aq_evidence_type q), map_of TYPE_CATEGORIES (aq_evidence_type q)) of
        (Some limit, Some category) \<Rightarrow>
          sbind (stream_hash rt stream limit) (\<lambda>(spool, sz, sha).
            sbind (evidence_s3_key (aq_case_id q) category eid (aq_original_filename q)) (\<lambda>key.
              sbind (check_source q sha sz l) (\<lambda>found. Inr (found, spool, sz, sha, key))))
      | _ \<Rightarrow> Inl (EvidenceError (''unsupported evidence type: '' @ aq_evidence_type q)))"

definition acquire :: "'o object_store \<Rightarrow> (string \<times> int) list \<Rightarrow> env \<Rightarrow> acquisition_request \<Rightarrow> string list \<Rightarrow> string \<Rightarrow>
    string option \<Rightarrow> ledger \<times> 'o \<Rightarrow> (evidence_error svc_error + evidence_record) \<times> ledger \<times> 'o" where
  "acquire S limits e q stream actor correlation w = (case w of (l, st) \<Rightarrow>
     let corr = py_or correlation (env_ids e 0); eid = env_ids e 1 in
     (case prepare limits (env_rt e) q stream eid l of
        Inl x \<Rightarrow> (Inl (App x), w)
      | Inr (Some r, spool, sz, sha, key) \<Rightarrow> (Inr r, w)
      | Inr (None, spool, sz, sha, key) \<Rightarrow>
          (case os_put S (env_now e) \<lparr>pt_key = key, pt_data = spool, pt_size = sz, pt_media_type = aq_media_type q,
                   pt_sha256 = sha, pt_correlation_id = corr\<rparr> st of
             (Inl x, st1) \<Rightarrow> (Inl (App x), l, st1)
           | (Inr stored, st1) \<Rightarrow>
               (case record_evidence e q actor corr (new_row (env_now e) eid q sha sz stored) l of
                  (res, l1) \<Rightarrow> (res, l1, st1)))))"

section \<open>Verification\<close>

text \<open>The status, the calculated hash and the error of re-reading a stored object.\<close>

definition judge :: "'o object_store \<Rightarrow> runtime \<Rightarrow> evidence_row \<Rightarrow> 'o \<Rightarrow> string \<times> string option \<times> string option" where
  "judge S rt r st =
     (case os_open S (eo_s3_bucket r) (eo_s3_key r) (eo_s3_version_id r) st of
        Inl (ObjectMissingError k) \<Rightarrow> (''MISSING'', None, Some ''object missing at exact bucket/key/version'')
      | Inl x \<Rightarrow> (''FAILED'', None, Some (take 1024 (exc_text x)))
      | Inr stream \<Rightarrow>
          let calculated = rt_sha256 rt (concat (takeWhile (\<lambda>chunk. chunk \<noteq> []) stream)) in
          if calculated = eo_sha256 r then (''VERIFIED'', Some calculated, None)
          else (''HASH_MISMATCH'', Some calculated, Some ''calculated SHA-256 differs from immutable ledger''))"

definition json_of_opt :: "string option \<Rightarrow> json" where
  "json_of_opt x = (case x of None \<Rightarrow> JNull | Some s \<Rightarrow> JStr s)"

definition verdict_args :: "evidence_row \<Rightarrow> string \<Rightarrow> string \<Rightarrow> string \<times> string option \<times> string option \<Rightarrow> build_args" where
  "verdict_args r vid reason v = (case v of (status, calculated, error) \<Rightarrow>
     \<lparr>be_event_type = (if status = ''VERIFIED'' then ''evidence.verified'' else ''evidence.verification_failed''),
      be_schema_version = ''1.0'',
      be_payload = JObj ([(''evidence_id'', JStr (eo_evidence_id r)), (''case_id'', JStr (eo_case_id r)),
          (''verification_id'', JStr vid), (''status'', JStr status), (''reason'', JStr reason)] @
        (if status = ''VERIFIED'' then [(''sha256'', JStr (eo_sha256 r))]
         else [(''expected_sha256'', JStr (eo_sha256 r)), (''calculated_sha256'', json_of_opt calculated),
               (''error'', json_of_opt error)])),
      be_source_id = ''mirage-worker.evidence-verifier'', be_sequence = 0, be_actor_type = ''SYSTEM'',
      be_classification = ''INTERNAL'', be_case_id = Some (eo_case_id r), be_session_id = eo_session_id r,
      be_event_id = None, be_event_time = None\<rparr>)"

definition prevalidate :: "env \<Rightarrow> nat \<Rightarrow> build_args \<Rightarrow> 'e svc_error + unit" where
  "prevalidate e n a =
     (case validate_event (env_rt e) (env_reg e) None (build_event (env_rt e) (env_now_text e) (env_ids e n) a) of
        Inl x \<Rightarrow> Inl (Contract x) | Inr v \<Rightarrow> Inr ())"

definition verdict_audit :: "evidence_row \<Rightarrow> string \<Rightarrow> string \<Rightarrow> string \<Rightarrow> string \<times> string option \<times> string option \<Rightarrow> audit_row" where
  "verdict_audit r vid reason requested_by v = (case v of (status, calculated, error) \<Rightarrow>
     \<lparr>au_actor = requested_by, au_actor_type = ''SYSTEM'', au_action = ''evidence.verification.'' @ str_lower status,
      au_target = eo_evidence_id r, au_outcome = (if status = ''VERIFIED'' then ''SUCCESS'' else ''FAILURE''),
      au_correlation_id = vid, au_detail = py_or error reason\<rparr>)"

definition insert_verification :: "verification_row \<Rightarrow> ledger \<Rightarrow> 'e svc_error + ledger" where
  "insert_verification r l =
     (if \<not> canonical_ulid (vh_verification_id r) then Inl (Db (CheckViolation ''evidence_verification_history''))
      else if vh_verification_id r \<in> vh_verification_id ` set (el_history l)
      then Inl (Db (UniqueViolation ''evidence_verification_history''))
      else Inr (l\<lparr>el_history := el_history l @ [r]\<rparr>))"

definition mark_row :: "timestamp \<Rightarrow> string \<times> string option \<times> string option \<Rightarrow> evidence_row \<Rightarrow> evidence_row" where
  "mark_row now v r = (case v of (status, calculated, error) \<Rightarrow>
     r\<lparr>eo_verification_status := status, eo_verified_at := (if status = ''VERIFIED'' then Some now else None),
       eo_verification_error := error\<rparr>)"

definition mark_verified :: "timestamp \<Rightarrow> string \<Rightarrow> string \<times> string option \<times> string option \<Rightarrow> ledger \<Rightarrow> ledger" where
  "mark_verified now eid v l = l\<lparr>el_objects := update_where (\<lambda>r. eo_evidence_id r = eid) (mark_row now v) (el_objects l)\<rparr>"

definition verify :: "'o object_store \<Rightarrow> env \<Rightarrow> string \<Rightarrow> string \<Rightarrow> string \<Rightarrow> 'o \<Rightarrow> ledger \<Rightarrow>
    (evidence_error svc_error + string) \<times> ledger" where
  "verify S e eid reason requested_by st l =
     (case lookup_by eo_evidence_id (el_objects l) eid of
        None \<Rightarrow> (Inl (App (EvidenceNotFoundError eid)), l)
      | Some r \<Rightarrow>
          let v = judge S (env_rt e) r st; vid = env_ids e 0; a = verdict_args r vid reason v in
          (case prevalidate e 1 a of
             Inl x \<Rightarrow> (Inl x, l)
           | Inr _ \<Rightarrow>
               (case insert_verification \<lparr>vh_verification_id = vid, vh_evidence_id = eid, vh_reason = reason, vh_status = fst v,
                        vh_expected_sha256 = eo_sha256 r, vh_calculated_sha256 = fst (snd v), vh_error = snd (snd v),
                        vh_requested_by = requested_by\<rparr> l of
                  Inl x \<Rightarrow> (Inl x, l)
                | Inr l1 \<Rightarrow>
                    let l2 = mark_verified (env_now e) eid v l1;
                        l3 = l2\<lparr>el_db := insert_audit (verdict_audit r vid reason requested_by v) (el_db l2)\<rparr> in
                    (case publish_validated e 1 a (el_db l3) of
                       Inl x \<Rightarrow> (Inl x, l3)
                     | Inr d \<Rightarrow> (Inr (fst v), l3\<lparr>el_db := d\<rparr>)))))"

definition export_eligibility :: "string \<Rightarrow> ledger \<Rightarrow> bool \<times> string list" where
  "export_eligibility cid l =
     (let reasons =
        map (\<lambda>r. ''required evidence '' @ eo_evidence_id r @ '' is '' @ eo_verification_status r)
          (filter (\<lambda>r. eo_case_id r = cid \<and> eo_required_for_export r \<and> eo_evidence_type r \<notin> {''EXPORT'', ''MANIFEST''} \<and>
                       eo_verification_status r \<noteq> ''VERIFIED'') (el_objects l)) @
        map (\<lambda>g. ''required collection gap '' @ gp_gap_id g @ '': '' @ gp_reason g)
          (filter (\<lambda>g. gp_case_id g = cid \<and> gp_required g \<and> gp_resolved_at g = None) (el_gaps l))
      in (reasons = [], reasons))"

definition sample_ids :: "string \<Rightarrow> int option \<Rightarrow> ledger \<Rightarrow> string list" where
  "sample_ids cid sample_limit l =
     (let ids = map eo_evidence_id (sort_key (\<lambda>r. (eo_sha256 r, eo_evidence_id r))
        (filter (\<lambda>r. eo_case_id r = cid \<and> eo_evidence_type r \<notin> {''EXPORT'', ''MANIFEST'', ''SIGNATURE''}) (el_objects l)))
      in case sample_limit of None \<Rightarrow> ids | Some n \<Rightarrow> take (nat n) ids)"

fun verify_all :: "'o object_store \<Rightarrow> env \<Rightarrow> string list \<Rightarrow> string \<Rightarrow> string \<Rightarrow> 'o \<Rightarrow> (string \<times> string) list \<Rightarrow> ledger \<Rightarrow>
    (evidence_error svc_error + (string \<times> string) list) \<times> ledger" where
  "verify_all S e [] reason requested_by st results l = (Inr results, l)"
| "verify_all S e (eid # eids) reason requested_by st results l =
     (case verify S e eid reason requested_by st l of
        (Inl x, l1) \<Rightarrow> (Inl x, l1)
      | (Inr status, l1) \<Rightarrow> verify_all S (shift_ids 2 e) eids reason requested_by st (AList.update eid status results) l1)"

definition verify_case_evidence :: "'o object_store \<Rightarrow> env \<Rightarrow> string \<Rightarrow> string \<Rightarrow> string \<Rightarrow> int option \<Rightarrow> 'o \<Rightarrow> ledger \<Rightarrow>
    (evidence_error svc_error + (string \<times> string) list) \<times> ledger" where
  "verify_case_evidence S e cid reason requested_by sample_limit st l =
     (if reason \<notin> {''SCHEDULED_SAMPLE'', ''FINAL_CASE_CONCLUSION'', ''PRE_EXPORT''}
      then (Inl (App (EvValueError ''unsupported case verification reason'')), l)
      else if (case sample_limit of None \<Rightarrow> False | Some n \<Rightarrow> n < 1)
      then (Inl (App (EvValueError ''sample_limit must be positive'')), l)
      else verify_all S e (sample_ids cid sample_limit l) reason requested_by st [] l)"

section \<open>Names, keys and hashing\<close>

lemma sub_runs_set: "set (sub_runs P s) \<subseteq> {c \<in> set s. \<not> P c} \<union> {CHR ''_''}"
  by (induction P s rule: sub_runs.induct) auto

lemma strip_chars_set: "set (strip_chars P s) \<subseteq> set s"
  by (auto simp: strip_chars_def dest!: set_dropWhileD)

lemma default_name:
  assumes "s = take 128 (if x = [] then u else x)" "list_all P u \<and> u \<noteq> []" "list_all P x"
  shows "s \<noteq> [] \<and> length s \<le> 128 \<and> list_all P s"
  using assms by (auto simp: list_all_iff dest: in_set_takeD)

lemma unnamed_safe: "list_all safe_char ''unnamed'' \<and> ''unnamed'' \<noteq> []"
  by code_simp

lemma sanitise_filename_safe:
  assumes "sanitise_filename f = Some s"
  shows "s \<noteq> []" "length s \<le> 128" "list_all safe_char s"
proof -
  obtain g where g: "f = Some g"
    using assms by (cases f) (auto simp: sanitise_filename_def)
  let ?n1 = "pure_path_name (map (\<lambda>c. if c = CHR 0x5C then CHR ''/'' else c) g)"
  let ?n3 = "sub_runs (\<lambda>c. c = CHR ''_'') (strip_chars (\<lambda>c. c = CHR ''.'' \<or> c = CHR ''_'') (sub_runs (\<lambda>c. \<not> safe_char c) ?n1))"
  have s: "s = take 128 (if ?n3 = [] then ''unnamed'' else ?n3)"
    using assms by (simp add: g sanitise_filename_def Let_def)
  have u: "safe_char (CHR ''_'')"
    by code_simp
  have "set ?n3 \<subseteq> set (sub_runs (\<lambda>c. \<not> safe_char c) ?n1) \<union> {CHR ''_''}"
    using sub_runs_set [of "\<lambda>c. c = CHR ''_''"] strip_chars_set by fastforce
  moreover have "set (sub_runs (\<lambda>c. \<not> safe_char c) ?n1) \<subseteq> {c. safe_char c}"
    using sub_runs_set [of "\<lambda>c. \<not> safe_char c" ?n1] u by auto
  ultimately have "list_all safe_char ?n3"
    using u by (auto simp: list_all_iff)
  then show "s \<noteq> []" "length s \<le> 128" "list_all safe_char s"
    using default_name [OF s unnamed_safe] by simp_all
qed

lemma safe_char_no_slash: "\<not> safe_char (CHR ''/'')"
  by code_simp

text \<open>A key is the case's prefix, the category, the identifier and a suffix without separators.\<close>

lemma evidence_s3_key_form:
  assumes "evidence_s3_key cid cat eid f = Inr key"
  obtains suffix where "key = ''cases/'' @ cid @ ''/'' @ cat @ ''/'' @ eid @ suffix" "CHR ''/'' \<notin> set suffix" "length suffix \<le> 129"
    "cat \<in> set EVIDENCE_CATEGORIES" "canonical_ulid cid" "canonical_ulid eid"
proof (cases "sanitise_filename f")
  case None
  then show ?thesis
    using assms that [of "[]"] by (auto simp: evidence_s3_key_def split: if_splits)
next
  case (Some s)
  have "CHR ''/'' \<notin> set s"
    using sanitise_filename_safe(3) [OF Some] safe_char_no_slash by (auto simp: list_all_iff)
  then show ?thesis
    using assms that [of "''-'' @ s"] sanitise_filename_safe(1,2) [OF Some] Some
    by (auto simp: evidence_s3_key_def split: if_splits)
qed

lemma append_sep_inject:
  assumes "xs @ c # ys = xs' @ c # ys'" "c \<notin> set xs" "c \<notin> set xs'"
  shows "xs = xs' \<and> ys = ys'"
  using assms
proof (induction xs arbitrary: xs')
  case Nil
  then show ?case
    by (cases xs') auto
next
  case (Cons x xs)
  then show ?case
    by (cases xs') auto
qed

lemma categories_no_slash: "cat \<in> set EVIDENCE_CATEGORIES \<Longrightarrow> CHR ''/'' \<notin> set cat"
  by (auto simp: EVIDENCE_CATEGORIES_def)

text \<open>The loop in one step: the bytes before the end of the stream, whatever the pieces they were read in.\<close>

definition stream_bytes :: "string list \<Rightarrow> string" where
  "stream_bytes stream = concat (takeWhile (\<lambda>chunk. chunk \<noteq> []) stream)"

lemma hash_loop_eq:
  assumes "int (length spool) \<le> limit"
  shows "hash_loop limit stream spool =
    (if int (length (spool @ stream_bytes stream)) \<le> limit then Inr (spool @ stream_bytes stream)
     else Inl (EvidenceTooLargeError (''evidence exceeds '' @ show_int limit @ '' bytes'')))"
  using assms
proof (induction limit stream spool rule: hash_loop.induct)
  case (2 limit chunk chunks spool)
  show ?case
  proof (cases "int (length spool + length chunk) \<le> limit")
    case True
    then show ?thesis
      using 2 by (simp add: stream_bytes_def)
  next
    case False
    then show ?thesis
      using 2(2) by (auto simp: stream_bytes_def)
  qed
qed (simp add: stream_bytes_def)

lemma stream_hash_ok:
  assumes "stream_hash rt stream limit = Inr (spool, sz, sha)"
  shows "spool = stream_bytes stream" "sz = int (length (stream_bytes stream))" "sha = rt_sha256 rt (stream_bytes stream)"
proof -
  have ok: "hash_loop limit stream [] = Inr spool" "sz = int (length spool)" "sha = rt_sha256 rt spool"
    using assms by (auto simp: stream_hash_def sbind_def split: sum.splits)
  have "spool = stream_bytes stream"
  proof (cases "0 \<le> limit")
    case True
    then show ?thesis
      using ok(1) hash_loop_eq [of "[]" limit stream] by (auto split: if_splits)
  next
    case False
    then show ?thesis
      using ok(1) by (cases stream) (auto simp: stream_bytes_def split: if_splits)
  qed
  then show "spool = stream_bytes stream" "sz = int (length (stream_bytes stream))" "sha = rt_sha256 rt (stream_bytes stream)"
    using ok by auto
qed

section \<open>What an acquisition does\<close>

lemma prepare_ok:
  assumes "prepare limits rt q stream eid l = Inr (found, spool, sz, sha, key)"
  shows "spool = stream_bytes stream" "sz = int (length (stream_bytes stream))" "sha = rt_sha256 rt (stream_bytes stream)"
    "check_source q sha sz l = Inr found" "\<exists>cat. evidence_s3_key (aq_case_id q) cat eid (aq_original_filename q) = Inr key"
  using assms
  by (auto simp: prepare_def sbind_def dest: stream_hash_ok split: option.splits sum.splits)

lemma check_source_found:
  assumes "check_source q sha sz l = Inr (Some r)"
  obtains row where "row_at l (aq_source_id q) (aq_source_sequence q) = Some row" "same_evidence q sha sz row" "r = record_of row"
  using assms by (auto simp: check_source_def split: if_splits option.splits)

lemma check_source_new:
  assumes "check_source q sha sz l = Inr None"
  shows "row_at l (aq_source_id q) (aq_source_sequence q) = None" "max_sequence l (aq_source_id q) < aq_source_sequence q"
  using assms by (auto simp: check_source_def split: if_splits option.splits)

lemma acquire_cases:
  assumes "acquire S limits e q stream actor corr (l, st) = (res, l', st')"
  obtains (refused) x where "res = Inl (App x)" "l' = l" "st' = st"
  | (replayed) row where "res = Inr (record_of row)" "l' = l" "st' = st" "row_at l (aq_source_id q) (aq_source_sequence q) = Some row"
      "same_evidence q (rt_sha256 (env_rt e) (stream_bytes stream)) (int (length (stream_bytes stream))) row"
  | (put_failed) p x where "res = Inl (App x)" "l' = l" "os_put S (env_now e) p st = (Inl x, st')"
      "row_at l (aq_source_id q) (aq_source_sequence q) = None"
  | (stored) p so where "os_put S (env_now e) p st = (Inr so, st')" "pt_data p = stream_bytes stream"
      "row_at l (aq_source_id q) (aq_source_sequence q) = None" "max_sequence l (aq_source_id q) < aq_source_sequence q"
      "record_evidence e q actor (py_or corr (env_ids e 0))
         (new_row (env_now e) (env_ids e 1) q (rt_sha256 (env_rt e) (stream_bytes stream)) (int (length (stream_bytes stream))) so) l = (res, l')"
proof (cases "prepare limits (env_rt e) q stream (env_ids e 1) l")
  case (Inl x)
  then show ?thesis
    using assms refused by (auto simp: acquire_def)
next
  case (Inr y)
  obtain found spool sz sha key where y: "y = (found, spool, sz, sha, key)"
    by (cases y) auto
  note ok = prepare_ok [OF Inr [unfolded y]]
  show ?thesis
  proof (cases found)
    case (Some r)
    from ok(4) [unfolded Some] obtain row where
      "row_at l (aq_source_id q) (aq_source_sequence q) = Some row" "same_evidence q sha sz row" "r = record_of row"
      by (rule check_source_found)
    then show ?thesis
      using assms Inr y Some ok(2,3) replayed by (auto simp: acquire_def)
  next
    case None
    note new = check_source_new [OF ok(4) [unfolded None]]
    let ?p = "\<lparr>pt_key = key, pt_data = spool, pt_size = sz, pt_media_type = aq_media_type q,
                   pt_sha256 = sha, pt_correlation_id = py_or corr (env_ids e 0)\<rparr>"
    obtain r1 st1 where put: "os_put S (env_now e) ?p st = (r1, st1)"
      by fastforce
    show ?thesis
    proof (cases r1)
      case (Inl x)
      then show ?thesis
        using assms Inr y None put new put_failed by (auto simp: acquire_def)
    next
      case (Inr so)
      then have "record_evidence e q actor (py_or corr (env_ids e 0)) (new_row (env_now e) (env_ids e 1) q sha sz so) l = (res, l')"
        "st' = st1"
        using assms \<open>prepare limits (env_rt e) q stream (env_ids e 1) l = Inr y\<close> y None put
        by (auto simp: acquire_def split: prod.splits)
      then show ?thesis
        using stored [of ?p so] put Inr new ok(1-3) by simp
    qed
  qed
qed

lemma record_evidence_ok:
  assumes "record_evidence e q actor corr r l = (Inr rec, l')"
  shows "rec = record_of r" "el_objects l' = el_objects l @ [r]" "el_history l' = el_history l" "el_gaps l' = el_gaps l"
    "el_sessions l' = el_sessions l" "el_agents l' = el_agents l" "cases (el_db l') = cases (el_db l)"
    "eo_evidence_id r \<notin> eo_evidence_id ` set (el_objects l)"
  using assms
  by (auto simp: record_evidence_def insert_evidence_def Let_def insert_audit_def
      dest: publish_validated_frame split: sum.splits if_splits)

section \<open>Committed steps\<close>

text \<open>The caller's transaction: an exception undoes the rows but not the upload.\<close>

definition acquire_tx :: "'o object_store \<Rightarrow> (string \<times> int) list \<Rightarrow> env \<Rightarrow> acquisition_request \<Rightarrow> string list \<Rightarrow> string \<Rightarrow>
    string option \<Rightarrow> ledger \<times> 'o \<Rightarrow> (evidence_error svc_error + evidence_record) \<times> ledger \<times> 'o" where
  "acquire_tx S limits e q stream actor corr w =
     (case acquire S limits e q stream actor corr w of
        (Inl x, l', st') \<Rightarrow> (Inl x, fst w, st') | (Inr r, w') \<Rightarrow> (Inr r, w'))"

definition request_row :: "env \<Rightarrow> acquisition_request \<Rightarrow> string list \<Rightarrow> stored_object \<Rightarrow> evidence_row" where
  "request_row e q stream so =
     new_row (env_now e) (env_ids e 1) q (rt_sha256 (env_rt e) (stream_bytes stream)) (int (length (stream_bytes stream))) so"

lemma request_row_fields [simp]:
  "eo_evidence_id (request_row e q stream so) = env_ids e 1"
  "eo_source_id (request_row e q stream so) = aq_source_id q"
  "eo_source_sequence (request_row e q stream so) = aq_source_sequence q"
  "eo_sha256 (request_row e q stream so) = rt_sha256 (env_rt e) (stream_bytes stream)"
  "eo_s3_bucket (request_row e q stream so) = so_bucket so" "eo_s3_key (request_row e q stream so) = so_key so"
  "eo_s3_version_id (request_row e q stream so) = so_version_id so"
  "eo_verification_status (request_row e q stream so) = ''PENDING''"
  by (simp_all add: request_row_def new_row_def)

lemma acquire_tx_cases:
  assumes "acquire_tx S limits e q stream actor corr (l, st) = (res, l', st')"
  obtains (failed) x where "res = Inl x" "l' = l" "st' = st \<or> (\<exists>p r. os_put S (env_now e) p st = (r, st'))"
      "row_at l (aq_source_id q) (aq_source_sequence q) \<noteq> None \<Longrightarrow> st' = st"
  | (replayed) row where "res = Inr (record_of row)" "l' = l" "st' = st" "row_at l (aq_source_id q) (aq_source_sequence q) = Some row"
      "same_evidence q (rt_sha256 (env_rt e) (stream_bytes stream)) (int (length (stream_bytes stream))) row"
  | (stored) p so where "os_put S (env_now e) p st = (Inr so, st')" "pt_data p = stream_bytes stream"
      "row_at l (aq_source_id q) (aq_source_sequence q) = None" "max_sequence l (aq_source_id q) < aq_source_sequence q"
      "res = Inr (record_of (request_row e q stream so))" "el_objects l' = el_objects l @ [request_row e q stream so]"
      "el_history l' = el_history l" "env_ids e 1 \<notin> eo_evidence_id ` set (el_objects l)"
proof -
  obtain res1 l1 st1 where run: "acquire S limits e q stream actor corr (l, st) = (res1, l1, st1)"
    by (metis prod.exhaust)
  have tx: "res = res1" "st' = st1" "l' = (case res of Inl x \<Rightarrow> l | Inr r \<Rightarrow> l1)"
    using assms run by (auto simp: acquire_tx_def split: sum.splits)
  from run show ?thesis
  proof (cases rule: acquire_cases)
    case (refused x)
    then show ?thesis
      using tx failed by simp
  next
    case (replayed row)
    then show ?thesis
      using tx that(2) by simp
  next
    case (put_failed p x)
    then show ?thesis
      using tx failed by auto
  next
    case (stored p so)
    note rec = stored(5) [folded request_row_def]
    show ?thesis
    proof (cases res1)
      case (Inl x)
      then show ?thesis
        using tx failed stored(1,3) by auto
    next
      case (Inr r)
      show ?thesis
        using record_evidence_ok [OF rec [unfolded Inr]] that(3) [of p so] stored(1-4) tx Inr by simp
    qed
  qed
qed

definition verdict_row :: "env \<Rightarrow> string \<Rightarrow> string \<Rightarrow> evidence_row \<Rightarrow> string \<times> string option \<times> string option \<Rightarrow> verification_row" where
  "verdict_row e reason requested_by r v =
     \<lparr>vh_verification_id = env_ids e 0, vh_evidence_id = eo_evidence_id r, vh_reason = reason, vh_status = fst v,
      vh_expected_sha256 = eo_sha256 r, vh_calculated_sha256 = fst (snd v), vh_error = snd (snd v),
      vh_requested_by = requested_by\<rparr>"

lemma verify_ok:
  assumes "verify S e eid reason requested_by st l = (Inr status, l')"
  obtains r where "lookup_by eo_evidence_id (el_objects l) eid = Some r" "status = fst (judge S (env_rt e) r st)"
    "el_objects l' = update_where (\<lambda>r. eo_evidence_id r = eid) (mark_row (env_now e) (judge S (env_rt e) r st)) (el_objects l)"
    "el_history l' = el_history l @ [verdict_row e reason requested_by r (judge S (env_rt e) r st)]" "el_gaps l' = el_gaps l"
proof -
  from assms obtain r where r: "lookup_by eo_evidence_id (el_objects l) eid = Some r"
    by (auto simp: verify_def split: option.splits)
  have "eo_evidence_id r = eid"
    using lookup_by_key [OF r] by simp
  then show ?thesis
    using assms r that [OF r]
    by (auto simp: verify_def Let_def insert_verification_def mark_verified_def verdict_row_def split: sum.splits if_splits)
qed

inductive ledger_step :: "'o object_store \<Rightarrow> runtime \<Rightarrow> ledger \<times> 'o \<Rightarrow> ledger \<times> 'o \<Rightarrow> bool" for S rt where
  acquire_step: "acquire_tx S limits e q stream actor corr (l, st) = (res, l', st') \<Longrightarrow> env_rt e = rt \<Longrightarrow>
    ledger_step S rt (l, st) (l', st')"
| verify_step: "run_tx (verify S e eid reason requested_by st) l = (res, l') \<Longrightarrow> env_rt e = rt \<Longrightarrow>
    ledger_step S rt (l, st) (l', st)"
| other_tables: "el_objects l' = el_objects l \<Longrightarrow> el_history l' = el_history l \<Longrightarrow> ledger_step S rt (l, st) (l', st)"

text \<open>The part of a row that nothing may change.\<close>

definition immutable :: "evidence_row \<Rightarrow> evidence_row" where
  "immutable r = r\<lparr>eo_verification_status := [], eo_verified_at := None, eo_verification_error := None\<rparr>"

lemma immutable_mark [simp]: "immutable (mark_row now v r) = immutable r"
  by (simp add: immutable_def mark_row_def split: prod.split)

lemma map_immutable_update [simp]: "map immutable (update_where P (mark_row now v) rows) = map immutable rows"
  by (simp add: update_where_def o_def if_distrib cong: if_cong)

lemma verify_tx_objects:
  assumes "run_tx (verify S e eid reason requested_by st) l = (res, l')"
  shows "map immutable (el_objects l') = map immutable (el_objects l)"
proof (cases res)
  case (Inl x)
  then show ?thesis
    using assms run_tx_error by fastforce
next
  case (Inr status)
  then have "verify S e eid reason requested_by st l = (Inr status, l')"
    using assms by (simp add: run_tx_ok)
  then show ?thesis
    by (rule verify_ok) simp
qed

text \<open>The ledger only grows: no step changes or removes a row, its verification fields apart.\<close>

lemma ledger_step_appends:
  assumes "ledger_step S rt (l, st) (l', st')"
  shows "prefix (map immutable (el_objects l)) (map immutable (el_objects l'))"
  using assms
proof cases
  case (acquire_step limits e q stream actor corr res)
  from acquire_step(1) show ?thesis
    by (cases rule: acquire_tx_cases) auto
next
  case (verify_step e eid reason requested_by res)
  then show ?thesis
    using verify_tx_objects by fastforce
qed simp

lemma ledger_steps_append:
  assumes "(ledger_step S rt)\<^sup>*\<^sup>* w w'"
  shows "prefix (map immutable (el_objects (fst w))) (map immutable (el_objects (fst w')))"
  using assms
proof (induction rule: rtranclp_induct)
  case (step w1 w2)
  then show ?case
    using ledger_step_appends [of S rt "fst w1" "snd w1" "fst w2" "snd w2"] prefix_order.order_trans by auto
qed simp

section \<open>The invariant of the ledger\<close>

definition latest :: "ledger \<Rightarrow> string \<Rightarrow> verification_row option" where
  "latest l eid = lookup_by vh_evidence_id (rev (el_history l)) eid"

text \<open>
  Per source the sequences rise in the order of the rows; identifiers are unique;
  the status of a row is that of its latest verification, PENDING before the
  first; and a verification was VERIFIED exactly when the hash it calculated is the ledger's.
\<close>

definition ledger_inv :: "ledger \<Rightarrow> bool" where
  "ledger_inv l =
     (sorted_wrt (\<lambda>r r'. eo_source_id r = eo_source_id r' \<longrightarrow> eo_source_sequence r < eo_source_sequence r') (el_objects l) \<and>
      distinct (map eo_evidence_id (el_objects l)) \<and>
      vh_evidence_id ` set (el_history l) \<subseteq> eo_evidence_id ` set (el_objects l) \<and>
      (\<forall>r\<in>set (el_objects l).
         eo_verification_status r = (case latest l (eo_evidence_id r) of None \<Rightarrow> ''PENDING'' | Some v \<Rightarrow> vh_status v)) \<and>
      (\<forall>r\<in>set (el_objects l). \<forall>v\<in>set (el_history l). vh_evidence_id v = eo_evidence_id r \<longrightarrow>
         vh_expected_sha256 v = eo_sha256 r \<and> (vh_status v = ''VERIFIED'' \<longleftrightarrow> vh_calculated_sha256 v = Some (eo_sha256 r))))"

lemma max_sequence_bound:
  assumes "r \<in> set (el_objects l)" "eo_source_id r = source"
  shows "eo_source_sequence r \<le> max_sequence l source"
proof -
  have le: "a \<le> foldl max a xs" for a :: int and xs
    by (induction xs arbitrary: a) (simp_all, meson max.cobounded1 order_trans)
  have "x \<in> set xs \<Longrightarrow> x \<le> foldl max a xs" for a x :: int and xs
  proof (induction xs arbitrary: a)
    case (Cons y ys)
    then show ?case
      using le [of "max a y" ys] by auto
  qed simp
  then show ?thesis
    using assms by (auto simp: max_sequence_def)
qed

lemma judge_verified:
  "fst (judge S rt r st) = ''VERIFIED'' \<longleftrightarrow> fst (snd (judge S rt r st)) = Some (eo_sha256 r)"
  by (auto simp: judge_def Let_def split: sum.splits evidence_error.splits)

lemma ledger_inv_stored:
  assumes "ledger_inv l" "el_objects l' = el_objects l @ [r]" "el_history l' = el_history l"
    "max_sequence l (eo_source_id r) < eo_source_sequence r" "eo_evidence_id r \<notin> eo_evidence_id ` set (el_objects l)"
    "eo_verification_status r = ''PENDING''"
  shows "ledger_inv l'"
proof -
  have unseen: "v \<in> set (el_history l) \<Longrightarrow> vh_evidence_id v \<noteq> eo_evidence_id r" for v
    using assms(1,5) unfolding ledger_inv_def by (metis image_eqI subsetD)
  then have "latest l' (eo_evidence_id r) = None"
    using assms(3) by (metis (no_types, lifting) imageE latest_def lookup_by_None set_rev)
  moreover have "latest l' = latest l"
    using assms(3) by (simp add: latest_def fun_eq_iff)
  ultimately show ?thesis
    using assms unseen max_sequence_bound [of _ l "eo_source_id r"]
    by (auto simp: ledger_inv_def sorted_wrt_append dest: le_less_trans)
qed

lemma mark_row_fields [simp]:
  "eo_evidence_id (mark_row now v r) = eo_evidence_id r" "eo_source_id (mark_row now v r) = eo_source_id r"
  "eo_source_sequence (mark_row now v r) = eo_source_sequence r" "eo_sha256 (mark_row now v r) = eo_sha256 r"
  "eo_verification_status (mark_row now v r) = fst v"
  by (simp_all add: mark_row_def split: prod.split)

lemma ledger_inv_verified:
  assumes "ledger_inv l" "lookup_by eo_evidence_id (el_objects l) eid = Some r" "v = judge S rt r st"
    "el_objects l' = update_where (\<lambda>r. eo_evidence_id r = eid) (mark_row now v) (el_objects l)"
    "el_history l' = el_history l @ [verdict_row e reason by r v]"
  shows "ledger_inv l'"
proof -
  have r: "r \<in> set (el_objects l)" "eo_evidence_id r = eid"
    using lookup_by_key [OF assms(2)] by auto
  have uniq: "q = r" if "q \<in> set (el_objects l)" "eo_evidence_id q = eid" for q
    using assms(1) r that by (auto simp: ledger_inv_def distinct_map inj_on_def)
  have lat: "latest l' = (latest l)(eid \<mapsto> verdict_row e reason by r v)"
    using assms(5) r(2) by (auto simp: latest_def verdict_row_def fun_eq_iff)
  have st: "eo_verification_status q = (case latest l' (eo_evidence_id q) of None \<Rightarrow> ''PENDING'' | Some v \<Rightarrow> vh_status v)"
    if "q \<in> set (el_objects l')" for q
    using that assms(1) by (auto simp: assms(4) set_update_where lat verdict_row_def ledger_inv_def split: if_splits)
  have hist: "vh_expected_sha256 h = eo_sha256 q \<and> (vh_status h = ''VERIFIED'' \<longleftrightarrow> vh_calculated_sha256 h = Some (eo_sha256 q))"
    if "q \<in> set (el_objects l)" "h \<in> set (el_history l')" "vh_evidence_id h = eo_evidence_id q" for q h
  proof (cases "h \<in> set (el_history l)")
    case True
    then show ?thesis
      using assms(1) that by (simp add: ledger_inv_def)
  next
    case False
    then have h: "h = verdict_row e reason by r v"
      using that(2) assms(5) by simp
    then have "q = r"
      using that(1,3) uniq r(2) by (simp add: verdict_row_def)
    then show ?thesis
      using h judge_verified [of S rt r st] assms(3) by (simp add: verdict_row_def)
  qed
  have "sorted_wrt (\<lambda>r r'. eo_source_id r = eo_source_id r' \<longrightarrow> eo_source_sequence r < eo_source_sequence r') (el_objects l')"
    using assms(1) unfolding assms(4) update_where_def sorted_wrt_map ledger_inv_def
    by (auto elim!: sorted_wrt_mono_rel [rotated] simp: if_distrib split: if_splits)
  moreover have "map eo_evidence_id (el_objects l') = map eo_evidence_id (el_objects l)"
    by (simp add: assms(4))
  moreover have "eo_evidence_id ` set (el_objects l') = eo_evidence_id ` set (el_objects l)"
    using calculation(2) by (metis list.set_map)
  moreover have "vh_evidence_id ` set (el_history l') \<subseteq> eo_evidence_id ` set (el_objects l)"
    using assms(1,5) r by (auto simp: ledger_inv_def verdict_row_def)
  moreover have "vh_expected_sha256 h = eo_sha256 q \<and> (vh_status h = ''VERIFIED'' \<longleftrightarrow> vh_calculated_sha256 h = Some (eo_sha256 q))"
    if "q \<in> set (el_objects l')" "h \<in> set (el_history l')" "vh_evidence_id h = eo_evidence_id q" for q h
    using that hist by (auto simp: assms(4) set_update_where split: if_splits)
  ultimately show ?thesis
    using assms(1) st by (simp add: ledger_inv_def)
qed

lemma ledger_inv_step:
  assumes "ledger_step S rt w w'" "ledger_inv (fst w)"
  shows "ledger_inv (fst w')"
  using assms(1)
proof cases
  case (acquire_step limits e q stream actor corr l st res l' st')
  from acquire_step(3) show ?thesis
  proof (cases rule: acquire_tx_cases)
    case (stored p so)
    then show ?thesis
      using acquire_step assms(2) ledger_inv_stored [of l l' "request_row e q stream so"] by simp
  qed (use acquire_step assms(2) in auto)
next
  case (verify_step e eid reason requested_by st l res l')
  show ?thesis
  proof (cases res)
    case (Inl x)
    then show ?thesis
      using verify_step assms(2) run_tx_error [of "verify S e eid reason requested_by st" l x l'] by simp
  next
    case (Inr status)
    then have "verify S e eid reason requested_by st l = (Inr status, l')"
      using verify_step(3) by (simp add: run_tx_ok)
    then show ?thesis
      using verify_step(1,2) assms(2) ledger_inv_verified by (elim verify_ok) fastforce
  qed
next
  case (other_tables l' l st)
  then show ?thesis
    using assms(2) by (simp add: ledger_inv_def latest_def)
qed

interpretation evidence_ledger: step_system "ledger_step S rt" "\<lambda>w. ledger_inv (fst w)" for S rt
  by unfold_locales (rule ledger_inv_step)

section \<open>Replays\<close>

lemma lookup_by_map: "(\<And>r. key (f r) = key r) \<Longrightarrow> lookup_by key (map f rows) k = map_option f (lookup_by key rows k)"
  by (induction rows) auto

lemma immutable_fields [simp]:
  "eo_source_id (immutable r) = eo_source_id r" "eo_source_sequence (immutable r) = eo_source_sequence r"
  "eo_evidence_id (immutable r) = eo_evidence_id r"
  by (simp_all add: immutable_def)

lemma lookup_grows:
  assumes "prefix (map immutable rows) (map immutable rows')" "lookup_by key rows k = Some r" "\<And>r. key (immutable r) = key r"
  shows "\<exists>r'. lookup_by key rows' k = Some r' \<and> immutable r' = immutable r"
proof -
  from assms(1) obtain zs where zs: "map immutable rows' = map immutable rows @ zs"
    by (auto simp: prefix_def)
  have "map_option immutable (lookup_by key rows' k) = Some (immutable r)"
    using assms(2,3) by (simp flip: lookup_by_map add: zs) (simp add: lookup_by_map)
  then show ?thesis
    by auto
qed

lemma row_at_steps:
  assumes "(ledger_step S rt)\<^sup>*\<^sup>* w w'" "row_at (fst w) source n = Some r"
  shows "\<exists>r'. row_at (fst w') source n = Some r' \<and> immutable r' = immutable r"
  using assms(2) unfolding row_at_def by (rule lookup_grows [OF ledger_steps_append [OF assms(1)]]) simp

text \<open>A record without its verification status.\<close>

definition identity_of :: "evidence_record \<Rightarrow> evidence_record" where
  "identity_of r = r\<lparr>er_verification_status := []\<rparr>"

lemma identity_record_of: "immutable r = immutable r' \<Longrightarrow> identity_of (record_of r) = identity_of (record_of r')"
proof -
  have "identity_of (record_of r) = record_of (immutable r)" for r
    by (simp add: identity_of_def record_of_def immutable_def)
  then show "immutable r = immutable r' \<Longrightarrow> ?thesis"
    by simp
qed

lemma acquire_tx_row:
  assumes "acquire_tx S limits e q stream actor corr w = (Inr rec, w')"
  obtains r where "row_at (fst w') (aq_source_id q) (aq_source_sequence q) = Some r" "rec = record_of r"
proof -
  obtain l st l' st' where w: "w = (l, st)" "w' = (l', st')"
    by fastforce
  from assms [unfolded w] show ?thesis
    by (cases rule: acquire_tx_cases) (auto simp: w row_at_def intro: that)
qed

section \<open>Stores that keep what they are given\<close>

text \<open>
  The contract of an object store: a successful put makes its bytes readable under
  the bucket, key and version it returns, and no put changes what is readable already.
\<close>

locale versioned_store =
  fixes S :: "'o object_store" and valid :: "'o \<Rightarrow> bool" and content :: "'o \<Rightarrow> string \<times> string \<times> string \<Rightarrow> string option"
  assumes put_stores: "valid st \<Longrightarrow> os_put S now p st = (Inr so, st') \<Longrightarrow>
      content st' (so_bucket so, so_key so, so_version_id so) = Some (pt_data p)"
    and put_keeps: "valid st \<Longrightarrow> os_put S now p st = (r, st') \<Longrightarrow>
      valid st' \<and> (\<forall>x d. content st x = Some d \<longrightarrow> content st' x = Some d)"
    and open_content: "valid st \<Longrightarrow> content st (bucket, key, version) = Some d \<Longrightarrow>
      \<exists>stream. os_open S bucket key version st = Inr stream \<and> stream_bytes stream = d"
begin

lemma step_keeps:
  assumes "ledger_step S rt w w'" "valid (snd w)"
  shows "valid (snd w') \<and> (content (snd w) x = Some d \<longrightarrow> content (snd w') x = Some d)"
  using assms(1)
proof cases
  case (acquire_step limits e q stream actor corr l st res l' st')
  have "st' = st \<or> (\<exists>p r. os_put S (env_now e) p st = (r, st'))"
    using acquire_step(3) by (cases rule: acquire_tx_cases) auto
  then show ?thesis
    using acquire_step(1,2) assms(2) put_keeps [of st] by (metis snd_conv)
qed (use assms(2) in auto)

lemma steps_keep:
  assumes "(ledger_step S rt)\<^sup>*\<^sup>* w w'" "valid (snd w)"
  shows "valid (snd w') \<and> (content (snd w) x = Some d \<longrightarrow> content (snd w') x = Some d)"
  using assms
proof (induction rule: rtranclp_induct)
  case (step w1 w2)
  then show ?case
    using step_keeps [OF step.hyps(2)] by blast
qed simp

text \<open>The bytes of every row are readable and have the hash of the row.\<close>

definition backed :: "runtime \<Rightarrow> ledger \<times> 'o \<Rightarrow> bool" where
  "backed rt w = (valid (snd w) \<and> (\<forall>r\<in>set (el_objects (fst w)).
     \<exists>d. content (snd w) (eo_s3_bucket r, eo_s3_key r, eo_s3_version_id r) = Some d \<and> rt_sha256 rt d = eo_sha256 r))"

lemma backed_immutable:
  assumes "map immutable rows' = map immutable rows" "r' \<in> set rows'"
  shows "\<exists>r\<in>set rows. eo_s3_bucket r' = eo_s3_bucket r \<and> eo_s3_key r' = eo_s3_key r \<and>
    eo_s3_version_id r' = eo_s3_version_id r \<and> eo_sha256 r' = eo_sha256 r"
proof -
  from assms have "immutable r' \<in> immutable ` set rows"
    by (metis image_eqI list.set_map)
  then obtain r where r: "r \<in> set rows" "immutable r' = immutable r"
    by auto
  have "eo_s3_bucket x = eo_s3_bucket (immutable x)" "eo_s3_key x = eo_s3_key (immutable x)"
    "eo_s3_version_id x = eo_s3_version_id (immutable x)" "eo_sha256 x = eo_sha256 (immutable x)" for x
    by (simp_all add: immutable_def)
  then show ?thesis
    using r by metis
qed

lemma backed_step:
  assumes "ledger_step S rt w w'" "backed rt w"
  shows "backed rt w'"
proof -
  have v: "valid (snd w)" and rows: "\<And>r. r \<in> set (el_objects (fst w)) \<Longrightarrow>
      \<exists>d. content (snd w) (eo_s3_bucket r, eo_s3_key r, eo_s3_version_id r) = Some d \<and> rt_sha256 rt d = eo_sha256 r"
    using assms(2) by (auto simp: backed_def)
  have v': "valid (snd w')" and keep: "\<And>x d. content (snd w) x = Some d \<Longrightarrow> content (snd w') x = Some d"
    using step_keeps [OF assms(1) v] by auto
  have old: "\<exists>d. content (snd w') (eo_s3_bucket r, eo_s3_key r, eo_s3_version_id r) = Some d \<and> rt_sha256 rt d = eo_sha256 r"
    if "r \<in> set (el_objects (fst w))" for r
    using rows [OF that] keep by blast
  from assms(1) show ?thesis
  proof cases
    case (acquire_step limits e q stream actor corr l st res l' st')
    from acquire_step(3) show ?thesis
    proof (cases rule: acquire_tx_cases)
      case (stored p so)
      have "content st' (so_bucket so, so_key so, so_version_id so) = Some (stream_bytes stream)"
        using put_stores stored(1,2) v acquire_step(1) by fastforce
      then show ?thesis
        using acquire_step stored(6) old v' by (auto simp: backed_def)
    qed (use acquire_step old v' in \<open>auto simp: backed_def\<close>)
  next
    case (verify_step e eid reason requested_by st l res l')
    then show ?thesis
      using backed_immutable [OF verify_tx_objects [OF verify_step(3)]] old v' unfolding backed_def by fastforce
  next
    case (other_tables l' l st)
    then show ?thesis
      using old v' by (auto simp: backed_def)
  qed
qed

lemma backed_steps: "(ledger_step S rt)\<^sup>*\<^sup>* w w' \<Longrightarrow> backed rt w \<Longrightarrow> backed rt w'"
  by (induction rule: rtranclp_induct) (auto intro: backed_step)

lemma backed_verifies:
  assumes "backed rt (l, st)" "verify S e eid reason requested_by st l = (Inr status, l')" "env_rt e = rt"
  shows "status = ''VERIFIED''"
  using assms(2)
proof (rule verify_ok)
  fix r assume r: "lookup_by eo_evidence_id (el_objects l) eid = Some r" "status = fst (judge S (env_rt e) r st)"
  then have "r \<in> set (el_objects l)"
    using lookup_by_key by metis
  then obtain d where "valid st" "content st (eo_s3_bucket r, eo_s3_key r, eo_s3_version_id r) = Some d" "rt_sha256 rt d = eo_sha256 r"
    using assms(1) by (auto simp: backed_def)
  then obtain stream where "os_open S (eo_s3_bucket r) (eo_s3_key r) (eo_s3_version_id r) st = Inr stream" "stream_bytes stream = d"
    using open_content by blast
  then show ?thesis
    using r(2) assms(3) \<open>rt_sha256 rt d = eo_sha256 r\<close> by (simp add: judge_def Let_def flip: stream_bytes_def)
qed

end

definition version_count :: "memory_store \<Rightarrow> string \<Rightarrow> nat" where
  "version_count st k = (case map_of (ms_versions st) k of None \<Rightarrow> 0 | Some n \<Rightarrow> n)"

definition memory_valid :: "memory_store \<Rightarrow> bool" where
  "memory_valid st = (\<forall>k v d. map_of (ms_objects st) (k, v) = Some d \<longrightarrow> (\<exists>n. v = show_nat n \<and> n \<le> version_count st k))"

definition memory_content :: "memory_store \<Rightarrow> string \<times> string \<times> string \<Rightarrow> string option" where
  "memory_content st x = (case x of (b, k, v) \<Rightarrow> if b = ms_bucket st then map_of (ms_objects st) (k, v) else None)"

lemma show_nat_inject: "show_nat m = show_nat n \<longleftrightarrow> m = n"
  by (metis read_show_nat)

lemma memory_put_ok:
  assumes "int (length (pt_data p)) = pt_size p" "n = Suc (version_count st (pt_key p))"
    "memory_put now p st = (r, st')"
  shows "r = Inr \<lparr>so_bucket = ms_bucket st, so_key = pt_key p, so_version_id = show_nat n, so_object_lock_mode = Some ''GOVERNANCE'',
      so_retention_until = Some now\<rparr>" "ms_bucket st' = ms_bucket st"
    "map_of (ms_objects st') = (map_of (ms_objects st))((pt_key p, show_nat n) \<mapsto> pt_data p)"
    "version_count st' = (version_count st)(pt_key p := n)"
  using assms by (auto simp: memory_put_def Let_def version_count_def update_conv' fun_eq_iff)

interpretation memory: versioned_store MemoryObjectStore memory_valid memory_content
proof unfold_locales
  fix st st' :: memory_store and now p r
  assume v: "memory_valid st" and "os_put MemoryObjectStore now p st = (r, st')"
  then have put: "memory_put now p st = (r, st')"
    by (simp add: MemoryObjectStore_def)
  show "memory_valid st' \<and> (\<forall>x d. memory_content st x = Some d \<longrightarrow> memory_content st' x = Some d)"
  proof (cases "int (length (pt_data p)) = pt_size p")
    case False
    then show ?thesis
      using put v by (auto simp: memory_put_def)
  next
    case True
    note ok = memory_put_ok(2-4) [OF True HOL.refl put]
    have "map_of (ms_objects st) (pt_key p, show_nat (Suc (version_count st (pt_key p)))) = None"
      using v by (force simp: memory_valid_def show_nat_inject)
    then have "memory_content st x = Some d \<Longrightarrow> memory_content st' x = Some d" for x d
      by (auto simp: memory_content_def ok split: if_splits prod.splits)
    moreover have "memory_valid st'"
      using v unfolding memory_valid_def ok by (auto simp: le_SucI) (meson le_SucI)+
    ultimately show ?thesis
      by blast
  qed
next
  fix st st' :: memory_store and now p so
  assume v: "memory_valid st" and "os_put MemoryObjectStore now p st = (Inr so, st')"
  then have put: "memory_put now p st = (Inr so, st')"
    by (simp add: MemoryObjectStore_def)
  then have "int (length (pt_data p)) = pt_size p"
    by (auto simp: memory_put_def split: if_splits)
  note ok = memory_put_ok [OF this HOL.refl put]
  show "memory_content st' (so_bucket so, so_key so, so_version_id so) = Some (pt_data p)"
    using ok(1) by (simp add: memory_content_def ok(2,3))
next
  fix st :: memory_store and bucket key version d
  assume "memory_content st (bucket, key, version) = Some d"
  then have "os_open MemoryObjectStore bucket key version st = Inr [d]"
    by (auto simp: MemoryObjectStore_def memory_open_def memory_content_def split: if_splits)
  then show "\<exists>stream. os_open MemoryObjectStore bucket key version st = Inr stream \<and> stream_bytes stream = d"
    by (auto simp: stream_bytes_def)
qed

section \<open>Properties\<close>

text \<open>C26. An acquisition can be repeated safely. After a source's evidence was accepted under a
  sequence number, and whatever was acquired, verified or changed elsewhere since, a
  request with that source and number changes neither the ledger nor the object store; if
  it is answered and not refused, it is answered with the record of the first acquisition (the
  verification status is today's), and the bytes it brought have the recorded hash.\<close>

theorem evidence_replay_safe:
  assumes "acquire_tx S limits e q stream actor corr w0 = (Inr r, w1)" "(ledger_step S rt)\<^sup>*\<^sup>* w1 w2"
    "acquire_tx S limits' e' q' stream' actor' corr' w2 = (res, w3)"
    "aq_source_id q' = aq_source_id q" "aq_source_sequence q' = aq_source_sequence q"
  shows "w3 = w2 \<and> (case res of Inl x \<Rightarrow> True
    | Inr r' \<Rightarrow> identity_of r' = identity_of r \<and> er_sha256 r = rt_sha256 (env_rt e') (stream_bytes stream'))"
proof -
  obtain row where row: "row_at (fst w1) (aq_source_id q) (aq_source_sequence q) = Some row" "r = record_of row"
    using assms(1) by (rule acquire_tx_row)
  obtain row2 where row2: "row_at (fst w2) (aq_source_id q) (aq_source_sequence q) = Some row2" "immutable row2 = immutable row"
    using row_at_steps [OF assms(2) row(1)] by blast
  have same: "identity_of (record_of row2) = identity_of r" "er_sha256 r = eo_sha256 row2"
    using identity_record_of [OF row2(2)] row(2) arg_cong [OF row2(2), of eo_sha256] by (simp_all add: immutable_def record_of_def)
  obtain l st l' st' where w: "w2 = (l, st)" "w3 = (l', st')"
    by fastforce
  from assms(3) [unfolded w] show ?thesis
    by (cases rule: acquire_tx_cases) (use row2(1) same assms(4,5) in \<open>auto simp: w same_evidence_def\<close>)
qed

text \<open>C27. The ledger is sound in every state it can reach: the sequence numbers of a source
  strictly rise in the order of acquisition, identifiers are unique, the status of a row is
  that of its latest verification (PENDING before the first), and a verification
  counts as VERIFIED exactly when the hash it calculated is the one in the ledger. No row is ever
  removed or changed, its verification fields apart.\<close>

theorem evidence_ledger_sound:
  assumes "(ledger_step S rt)\<^sup>*\<^sup>* (l0, st0) (l1, st1)" "(ledger_step S rt)\<^sup>*\<^sup>* (l1, st1) (l, st)"
    "el_objects l0 = []" "el_history l0 = []"
  shows "ledger_inv l \<and> prefix (map immutable (el_objects l1)) (map immutable (el_objects l))"
proof -
  have "ledger_inv l0"
    using assms(3,4) by (simp add: ledger_inv_def)
  then have "ledger_inv l"
    using evidence_ledger.steps_inv [OF rtranclp_trans [OF assms(1,2)]] by simp
  then show ?thesis
    using ledger_steps_append [OF assms(2)] by simp
qed

text \<open>C28. What was acquired can be verified: on the in-memory store, from an empty ledger and
  through any sequence of acquisitions (failed ones included, which may leave orphaned objects
  behind) and verifications, every verification of a recorded object returns
  VERIFIED; a HASH_MISMATCH, MISSING or FAILED verdict always means the store lost or changed something.\<close>

theorem acquired_evidence_verifies:
  assumes "(ledger_step MemoryObjectStore rt)\<^sup>*\<^sup>* (l0, st0) (l, st)" "el_objects l0 = []" "ms_objects st0 = []"
    "verify MemoryObjectStore e eid reason requested_by st l = (Inr status, l')" "env_rt e = rt"
  shows "status = ''VERIFIED''"
proof -
  have "memory.backed rt (l0, st0)"
    using assms(2,3) by (simp add: memory.backed_def memory_valid_def)
  then show ?thesis
    using memory.backed_steps [OF assms(1)] memory.backed_verifies [OF _ assms(4,5)] by blast
qed

text \<open>C29. Object keys are confined and unambiguous: whatever file name a source sends, the key is
  the case's own prefix, the category, the evidence identifier and at most 129 further characters
  without a separator, at most 200 characters in all; and two keys are equal only for the same case,
  category and identifier.\<close>

theorem evidence_key_confined:
  assumes "evidence_s3_key cid cat eid f = Inr key" "evidence_s3_key cid' cat' eid' f' = Inr key'"
  shows "(\<exists>suffix. key = ''cases/'' @ cid @ ''/'' @ cat @ ''/'' @ eid @ suffix \<and> CHR ''/'' \<notin> set suffix \<and> length suffix \<le> 129) \<and>
    length key \<le> 200 \<and> (key = key' \<longrightarrow> (cid, cat, eid) = (cid', cat', eid'))"
proof -
  obtain x where x: "key = ''cases/'' @ cid @ ''/'' @ cat @ ''/'' @ eid @ x" "CHR ''/'' \<notin> set x" "length x \<le> 129"
    "cat \<in> set EVIDENCE_CATEGORIES" "canonical_ulid cid" "canonical_ulid eid"
    using assms(1) by (rule evidence_s3_key_form)
  obtain x' where x': "key' = ''cases/'' @ cid' @ ''/'' @ cat' @ ''/'' @ eid' @ x'" "cat' \<in> set EVIDENCE_CATEGORIES"
    "canonical_ulid cid'" "canonical_ulid eid'"
    using assms(2) by (rule evidence_s3_key_form)
  have len: "length cid = 26" "length cid' = 26" "length eid = 26" "length eid' = 26"
    using x x' by (simp_all add: canonical_ulid_def)
  have "length cat \<le> 11"
    using x(4) by (auto simp: EVIDENCE_CATEGORIES_def)
  then have "length key \<le> 200"
    using x(1,3) len by simp
  moreover have "(cid, cat, eid) = (cid', cat', eid')" if "key = key'"
  proof -
    have "cid @ ''/'' @ cat @ ''/'' @ eid @ x = cid' @ ''/'' @ cat' @ ''/'' @ eid' @ x'"
      using that x(1) x'(1) by simp
    then have c: "cid = cid'" "cat @ CHR ''/'' # eid @ x = cat' @ CHR ''/'' # eid' @ x'"
      using len by (simp_all add: append_eq_append_conv)
    then show ?thesis
      using append_sep_inject [OF c(2) categories_no_slash [OF x(4)] categories_no_slash [OF x'(2)]] len by simp
  qed
  ultimately show ?thesis
    using x by blast
qed

section \<open>Witnesses\<close>

definition example_env :: "nat \<Rightarrow> env" where
  "example_env k = (sample_env [''evidence.created'', ''evidence.verified''])\<lparr>
     env_rt := \<lparr>rt_sha256 = (\<lambda>s. replicate 64 (CHR ''a'')), rt_float = (\<lambda>_. ''0.5'')\<rparr>,
     env_ids := (\<lambda>n. replicate 25 (CHR ''0'') @ [digit_char (n + k)])\<rparr>"

definition example_case :: string where
  "example_case = replicate 26 (CHR ''1'')"

definition example_request :: acquisition_request where
  "example_request = \<lparr>aq_case_id = example_case, aq_session_id = None, aq_evidence_type = ''LOG'', aq_source_id = ''spider'',
     aq_source_sequence = 5, aq_source_certificate_serial = None, aq_related_event_ids = [], aq_acquisition_time = 7,
     aq_original_filename = Some ''../a b.log'', aq_media_type = ''text/plain'', aq_collection_method = ''agent'',
     aq_classification = ''EVIDENCE'', aq_metadata = JObj [], aq_required_for_export = True\<rparr>"

definition example_ledger :: ledger where
  "example_ledger = \<lparr>el_db = empty_db\<lparr>cases := [\<lparr>case_id = example_case, case_state = ARMED, case_version = 1, severity = ''HIGH'',
       owner = None, correlation_key = None, updated_at = 0\<rparr>]\<rparr>, el_sessions = [], el_agents = [], el_objects = [],
     el_history = [], el_gaps = []\<rparr>"

definition example_store :: memory_store where
  "example_store = \<lparr>ms_bucket = ''unit-evidence'', ms_objects = [], ms_versions = []\<rparr>"

definition example_record :: evidence_record where
  "example_record = \<lparr>er_evidence_id = replicate 25 (CHR ''0'') @ ''1'', er_case_id = example_case, er_sha256 = replicate 64 (CHR ''a''),
     er_size_bytes = 3, er_bucket = ''unit-evidence'',
     er_key = ''cases/'' @ example_case @ ''/logs/'' @ replicate 25 (CHR ''0'') @ ''1-a_b.log'', er_version_id = ''1'',
     er_verification_status = ''PENDING''\<rparr>"

definition example_row :: evidence_row where
  "example_row = new_row 1000 (er_evidence_id example_record) example_request (er_sha256 example_record) 3
     \<lparr>so_bucket = ''unit-evidence'', so_key = er_key example_record, so_version_id = ''1'', so_object_lock_mode = Some ''GOVERNANCE'',
      so_retention_until = Some 1000\<rparr>"

definition example_db :: db where
  "example_db =
     (let d = insert_audit (acquired_audit ''agent'' (env_ids (example_env 0) 0) example_row) (el_db example_ledger) in
      d\<lparr>outbox := outbox d @ [event_row (example_env 0) 2 (created_args example_request example_row) ''evidence.created'']\<rparr>)"

text \<open>The state after the example acquisition.\<close>

definition example_after :: "ledger \<times> memory_store" where
  "example_after = (example_ledger\<lparr>el_objects := [example_row], el_db := example_db\<rparr>,
     \<lparr>ms_bucket = ''unit-evidence'', ms_objects = [((er_key example_record, ''1''), ''abc'')], ms_versions = [(er_key example_record, 1)]\<rparr>)"

lemma example_publishable:
  assumes "be_schema_version a = ''1.0''" "be_event_type a \<in> {''evidence.created'', ''evidence.verified''}" "be_event_id a = None"
    "length (canonical_json_bytes (\<lambda>_. ''0.5'') (be_payload a)) \<le> 900" "is_ok (subject_for_event_type (be_event_type a))"
    "env_ids (example_env k) n \<notin> ob_event_id ` set (outbox d)"
  shows "publishable (example_env k) n a d"
  using assms by (auto simp: publishable_def py_or_def example_env_def sample_env_def MAX_PAYLOAD_BYTES_def intro!: sample_accepts)

lemma example_subjects:
  "subject_for_event_type ''evidence.created'' = Inr ''evidence.created''" "subject_for_event_type ''evidence.verified'' = Inr ''evidence.verified''"
  by code_simp+

lemma example_prepared:
  "prepare [] (env_rt (example_env 0)) example_request [''ab'', ''c''] (env_ids (example_env 0) 1) example_ledger =
   Inr (None, ''abc'', 3, er_sha256 example_record, er_key example_record)"
  by code_simp

lemma example_inserted: "insert_evidence example_row example_ledger = (Inr (example_ledger\<lparr>el_objects := [example_row]\<rparr>) :: evidence_error svc_error + ledger)"
proof -
  have "is_ok (insert_evidence example_row example_ledger :: evidence_error svc_error + ledger)"
    by code_simp
  moreover have "el_objects example_ledger = []"
    by (simp add: example_ledger_def)
  ultimately show ?thesis
    by (auto simp: insert_evidence_def split: if_splits)
qed

lemma example_created_publishable: "outbox d = [] \<Longrightarrow> publishable (example_env 0) 2 (created_args example_request example_row) d"
proof (rule example_publishable)
  show "length (canonical_json_bytes (\<lambda>_. ''0.5'') (be_payload (created_args example_request example_row))) \<le> 900"
    by code_simp
qed (simp_all add: created_args_def example_subjects)

lemma example_recorded:
  "record_evidence (example_env 0) example_request ''agent'' (env_ids (example_env 0) 0) example_row example_ledger =
   (Inr (record_of example_row), fst example_after)"
proof -
  let ?d = "insert_audit (acquired_audit ''agent'' (env_ids (example_env 0) 0) example_row) (el_db example_ledger)"
  have "outbox ?d = []"
    by (simp add: insert_audit_def example_ledger_def empty_db_def)
  then have "publish_validated (example_env 0) 2 (created_args example_request example_row) ?d = (Inr example_db :: evidence_error svc_error + db)"
    using publish_chain [OF example_created_publishable, of ?d "''evidence.created''"] example_subjects
    by (simp add: example_db_def Let_def created_args_def)
  then show ?thesis
    by (simp add: record_evidence_def example_inserted example_after_def Let_def)
qed

lemma example_env_values:
  "env_now (example_env k) = 1000" "env_ids (example_env 0) (Suc 0) = er_evidence_id example_record"
  "show_nat (Suc 0) = ''1''"
  by (simp_all add: example_env_def sample_env_def example_record_def) code_simp+

lemma example_acquired:
  "acquire_tx MemoryObjectStore [] (example_env 0) example_request [''ab'', ''c''] ''agent'' None (example_ledger, example_store) =
   (Inr (record_of example_row), example_after)"
proof -
  have "os_put MemoryObjectStore 1000 \<lparr>pt_key = er_key example_record, pt_data = ''abc'', pt_size = 3, pt_media_type = mt,
      pt_sha256 = sha, pt_correlation_id = corr\<rparr> example_store =
    (Inr \<lparr>so_bucket = ''unit-evidence'', so_key = er_key example_record, so_version_id = ''1'', so_object_lock_mode = Some ''GOVERNANCE'',
      so_retention_until = Some 1000\<rparr>, snd example_after)" for mt sha corr
    by (simp add: MemoryObjectStore_def memory_put_def example_store_def Let_def example_env_values example_after_def)
  then show ?thesis
    using example_recorded example_prepared
    by (simp add: acquire_tx_def acquire_def Let_def py_or_def example_env_values flip: example_row_def)
qed

lemma example_step:
  "(ledger_step MemoryObjectStore (env_rt (example_env 0)))\<^sup>*\<^sup>* (example_ledger, example_store) (fst example_after, snd example_after)"
proof (rule r_into_rtranclp)
  have "acquire_tx MemoryObjectStore [] (example_env 0) example_request [''ab'', ''c''] ''agent'' None (example_ledger, example_store) =
    (Inr (record_of example_row), fst example_after, snd example_after)"
    using example_acquired by simp
  then show "ledger_step MemoryObjectStore (env_rt (example_env 0)) (example_ledger, example_store) (fst example_after, snd example_after)"
    by (rule acquire_step) (rule HOL.refl)
qed

theorem evidence_replay_safe_witness:
  "snd (acquire_tx MemoryObjectStore [] (example_env 4) example_request [''abc''] ''agent'' None example_after) = example_after"
proof -
  obtain res w where again: "acquire_tx MemoryObjectStore [] (example_env 4) example_request [''abc''] ''agent'' None example_after = (res, w)"
    by (metis prod.exhaust)
  from evidence_replay_safe [OF example_acquired rtranclp.rtrancl_refl again] show ?thesis
    by (simp add: again)
qed

theorem evidence_ledger_sound_witness:
  "ledger_inv (fst example_after) \<and> length (el_objects (fst example_after)) = 1"
  using evidence_ledger_sound [OF rtranclp.rtrancl_refl example_step]
  by (simp add: example_ledger_def) (simp add: example_after_def)

lemma example_judged:
  "judge MemoryObjectStore (env_rt (example_env 5)) example_row (snd example_after) = (''VERIFIED'', Some (er_sha256 example_record), None)"
  by code_simp

definition example_verdict :: build_args where
  "example_verdict = verdict_args example_row (env_ids (example_env 5) 0) ''PRE_EXPORT'' (''VERIFIED'', Some (er_sha256 example_record), None)"

lemma example_verdict_publishable:
  assumes "map ob_event_id (outbox d) = [env_ids (example_env 0) 2]"
  shows "publishable (example_env 5) 1 example_verdict d"
proof (rule example_publishable)
  show "length (canonical_json_bytes (\<lambda>_. ''0.5'') (be_payload example_verdict)) \<le> 900"
    by code_simp
  have "env_ids (example_env 5) 1 \<noteq> env_ids (example_env 0) 2"
    by code_simp
  then show "env_ids (example_env 5) 1 \<notin> ob_event_id ` set (outbox d)"
    using arg_cong [OF assms, of set] by simp
qed (simp_all add: example_verdict_def verdict_args_def example_subjects)

lemma example_verify_ok:
  "is_ok (fst (verify MemoryObjectStore (example_env 5) (er_evidence_id example_record) ''PRE_EXPORT'' ''worker'' (snd example_after) (fst example_after)))"
proof -
  let ?l = "fst example_after"
  have row: "lookup_by eo_evidence_id (el_objects ?l) (er_evidence_id example_record) = Some example_row"
    by (simp add: example_after_def example_row_def new_row_def)
  have ids: "map ob_event_id (outbox (el_db ?l)) = [env_ids (example_env 0) 2]"
    by (simp add: example_after_def example_db_def Let_def insert_audit_def event_row_def created_args_def py_or_def
        example_ledger_def empty_db_def)
  then have pub: "publishable (example_env 5) 1 example_verdict (insert_audit a (el_db ?l))" for a
    by (intro example_verdict_publishable) (simp add: insert_audit_def)
  have "is_ok (prevalidate (example_env 5) 1 example_verdict :: evidence_error svc_error + unit)"
    using publishable_ok [OF pub] by (auto simp: prevalidate_def publish_validated_def Let_def is_ok_def split: sum.splits)
  then obtain u where pre: "prevalidate (example_env 5) 1 example_verdict = (Inr u :: evidence_error svc_error + unit)"
    by (auto elim: is_okE)
  have "el_history ?l = []" "canonical_ulid (env_ids (example_env 5) 0)"
    by (simp add: example_after_def example_ledger_def) code_simp
  moreover obtain d where "publish_validated (example_env 5) 1 example_verdict
      (insert_audit (verdict_audit example_row (env_ids (example_env 5) 0) ''PRE_EXPORT'' ''worker''
         (''VERIFIED'', Some (er_sha256 example_record), None)) (el_db ?l)) = (Inr d :: evidence_error svc_error + db)"
    using publishable_ok [OF pub] by blast
  ultimately show ?thesis
    using row pre unfolding verify_def
    by (simp add: example_judged Let_def insert_verification_def mark_verified_def flip: example_verdict_def)
qed

theorem acquired_evidence_verifies_witness:
  "fst (verify MemoryObjectStore (example_env 5) (er_evidence_id example_record) ''PRE_EXPORT'' ''worker'' (snd example_after) (fst example_after)) =
   Inr ''VERIFIED''"
proof -
  let ?run = "verify MemoryObjectStore (example_env 5) (er_evidence_id example_record) ''PRE_EXPORT'' ''worker'' (snd example_after) (fst example_after)"
  obtain status where s: "?run = (Inr status, snd ?run)"
    using example_verify_ok by (metis is_okE prod.collapse)
  have "status = ''VERIFIED''"
    by (rule acquired_evidence_verifies [OF example_step _ _ s])
      (simp_all add: example_ledger_def example_store_def example_env_def)
  then show ?thesis
    using s by (metis fst_conv)
qed

theorem evidence_key_confined_witness:
  "length (''cases/'' @ example_case @ ''/logs/'' @ replicate 25 (CHR ''0'') @ ''1-a_b.log'') \<le> 200"
proof -
  have "evidence_s3_key example_case ''logs'' (replicate 25 (CHR ''0'') @ ''1'') (Some ''../a b.log'') =
      Inr (''cases/'' @ example_case @ ''/logs/'' @ replicate 25 (CHR ''0'') @ ''1-a_b.log'')"
    by code_simp
  from evidence_key_confined [OF this this] show ?thesis
    by blast
qed

end
