(* ===== verification/Mirage_Analyst.thy ===== *)
theory Mirage_Analyst
  imports Mirage_Evidence Mirage_Text
begin

text \<open>
  The analyst channels: directives to the control plane and direct messages to the
  attacker's session (\<^verbatim>\<open>libs/mirage_common/analyst.py\<close>, the worker side in
  \<^verbatim>\<open>mirage_worker/analyst_channels.py\<close> and the routes in
  \<^verbatim>\<open>mirage_api/prompt2.py\<close>). The regular expressions of the source are values
  of \<open>rx\<close> with an executable search. The text of an expiry, the source's
  \<^verbatim>\<open>isoformat().replace("+00:00","Z")\<close>, is the argument \<open>isoformat\<close>. Text is ASCII: the case folding and word
  classes of the patterns are those of ASCII. The gateway's answer, the text of a
  datetime and \<^verbatim>\<open>json.dumps\<close> of the delivery record are fields of \<open>host\<close>.
\<close>

section \<open>Patterns\<close>

definition UNSAFE_DIRECTIVE_PATTERNS :: "rx list" where
  "UNSAFE_DIRECTIVE_PATTERNS =
     [rx_seq [Alt Begin Space,
        rx_any [Seq (Lit ''cmd'') (Opt (Lit ''.exe'')), Seq (Lit ''powershell'') (Opt (Lit ''.exe'')), Lit ''bash'', Lit ''sh''],
        Spaces, rx_any [Lit ''/c'', Lit ''-c''], Bound],
      rx_seq [Bound, rx_any [Lit ''run'', Lit ''execute''], Spaces, Opt (Seq (Lit ''this'') Spaces), Opt (Seq (Lit ''shell'') Spaces),
        Lit ''command'', Bound],
      rx_seq [Bound, rx_any [Lit ''reveal'', Lit ''show'', Lit ''print'', Lit ''send''], Spaces, Opt (Seq (Lit ''the'') Spaces),
        rx_any [rx_seq [Lit ''api'', Opt (OneOf ''_ -''), Lit ''key''], Lit ''secret'', Lit ''password'', Lit ''credential'']],
      rx_seq [Bound, Lit ''outside'', Spaces, Opt (Seq (Lit ''the'') Spaces), Lit ''sandbox'', Bound],
      rx_seq [Bound, rx_any [Lit ''upload'', Lit ''exfiltrate''], Bound, AnyStar, Bound, Lit ''external'']]"

definition SENSITIVE_PATTERNS :: "rx list" where
  "SENSITIVE_PATTERNS =
     [rx_any [rx_seq [Bound, Lit ''password'', Bound], rx_seq [Bound, Lit ''credential'', Bound],
        rx_seq [Bound, Lit ''api'', Opt (OneOf ''_ -''), Lit ''key'', Bound]],
      rx_any [rx_seq [Bound, Lit ''legal'', Bound], rx_seq [Bound, Lit ''law enforcement'', Bound]],
      rx_seq [Bound, rx_any [Lit ''you are'', Lit ''we identified''], Bound],
      rx_seq [Bound, rx_any [Lit ''disable'', Lit ''shutdown'', Lit ''terminate''], Spaces, rx_any [Lit ''service'', Lit ''session''], Bound],
      rx_seq [Bound, rx_any [Lit ''session'', Lit ''investigation''], Spaces, Opt (Seq (Lit ''is'') Spaces), Lit ''concluded'', Bound]]"

definition COMMAND_PATTERN :: rx where
  "COMMAND_PATTERN = rx_any [Seq (Lit ''cmd'') (Opt (Lit ''.exe'')), Lit ''powershell'', Seq (Lit ''/bin/'') (rx_any [Lit ''sh'', Lit ''bash'']),
     Lit ''subprocess'', Lit ''os.system'']"

definition APPROVED_SURFACES :: "string list" where
  "APPROVED_SURFACES = [''DECOY_WEB_CHAT'', ''DECOY_TERMINAL_BANNER'', ''CONTROLLED_DESKTOP_NOTIFICATION'', ''SCENARIO_SERVICE_RESPONSE'']"

datatype analyst_error = AnalystChannelError string | AnValueError string | AnException string

definition validate_objective :: "string \<Rightarrow> analyst_error + string" where
  "validate_objective objective0 =
     (let objective = str_strip objective0 in
      if objective = [] then Inl (AnalystChannelError ''objective is required'')
      else if length objective > 512 then Inl (AnalystChannelError ''objective exceeds 512 bytes'')
      else if list_ex (\<lambda>p. rx_search p objective) UNSAFE_DIRECTIVE_PATTERNS
      then Inl (AnalystChannelError ''objective contains a prohibited command, secret, or scope request'')
      else Inr objective)"

section \<open>The rate limiter\<close>

record limiter =
  rl_limits :: "(string \<times> nat) list"
  rl_window :: timestamp
  rl_events :: "string \<times> string \<Rightarrow> timestamp list"

type_synonym dimensions = "(string \<times> string) list"

definition prune :: "timestamp \<Rightarrow> timestamp \<Rightarrow> timestamp list \<Rightarrow> timestamp list" where
  "prune window now q = dropWhile (\<lambda>t. now - t \<ge> window) q"

fun consume_check :: "timestamp \<Rightarrow> dimensions \<Rightarrow> limiter \<Rightarrow> (analyst_error + bool) \<times> limiter" where
  "consume_check now [] l = (Inr True, l)"
| "consume_check now (key # keys) l =
     (let q = prune (rl_window l) now (rl_events l key); l1 = l\<lparr>rl_events := (rl_events l)(key := q)\<rparr> in
      case map_of (rl_limits l) (fst key) of
        None \<Rightarrow> (Inl (AnException ''KeyError''), l1)
      | Some n \<Rightarrow> if length q \<ge> n then (Inr False, l1) else consume_check now keys l1)"

fun consume_record :: "timestamp \<Rightarrow> dimensions \<Rightarrow> limiter \<Rightarrow> limiter" where
  "consume_record now [] l = l"
| "consume_record now (key # keys) l =
     consume_record now keys (l\<lparr>rl_events := (rl_events l)(key := rl_events l key @ [now])\<rparr>)"

definition consume :: "timestamp \<Rightarrow> dimensions \<Rightarrow> limiter \<Rightarrow> (analyst_error + bool) \<times> limiter" where
  "consume now dims l = (case consume_check now dims l of
      (Inr True, l1) \<Rightarrow> (Inr True, consume_record now dims l1) | r \<Rightarrow> r)"

definition MINUTE :: timestamp where
  "MINUTE = 60000000"

definition route_limiter :: limiter where
  "route_limiter = \<lparr>rl_limits = [(''analyst'', 20), (''case'', 50), (''session'', 30), (''surface'', 15)], rl_window = MINUTE,
     rl_events = (\<lambda>_. [])\<rparr>"

section \<open>Messages before they are stored\<close>

definition preview_hash :: "runtime \<Rightarrow> string \<Rightarrow> string \<Rightarrow> string \<Rightarrow> string" where
  "preview_hash rt cid surface content = rt_sha256 rt (cid @ [CHR 0x00] @ surface @ [CHR 0x00] @ content)"

definition confirmation_required :: "string \<Rightarrow> bool" where
  "confirmation_required content = list_ex (\<lambda>p. rx_search p content) SENSITIVE_PATTERNS"

record message_preview =
  mp_case_id :: string
  mp_surface :: string
  mp_content :: string
  mp_preview_hash :: string
  mp_confirmation_required :: bool

definition preview_message :: "runtime \<Rightarrow> string \<Rightarrow> string \<Rightarrow> string \<Rightarrow> analyst_error + message_preview" where
  "preview_message rt cid surface content0 =
     (let content = str_strip content0 in
      if surface \<notin> set APPROVED_SURFACES then Inl (AnalystChannelError ''surface is not approved'')
      else if content = [] \<or> length content > 2048 then Inl (AnalystChannelError ''message must be 1..2048 bytes'')
      else if rx_search COMMAND_PATTERN content then Inl (AnalystChannelError ''arbitrary command content is prohibited'')
      else Inr \<lparr>mp_case_id = cid, mp_surface = surface, mp_content = content, mp_preview_hash = preview_hash rt cid surface content,
                mp_confirmation_required = confirmation_required content\<rparr>)"

section \<open>Tables\<close>

record directive_row =
  dr_directive_id :: string
  dr_case_id :: string
  dr_session_id :: "string option"
  dr_objective :: string
  dr_priority :: string
  dr_status :: string
  dr_created_by :: string
  dr_created_at :: timestamp
  dr_expires_at :: "timestamp option"
  dr_acknowledged_at :: "timestamp option"
  dr_applied_at :: "timestamp option"
  dr_rejected_at :: "timestamp option"
  dr_rejection_reason :: "string option"
  dr_linked_proposal_ids :: "string list"
  dr_linked_action_ids :: "string list"
  dr_idempotency_key :: string

record message_row =
  ms_message_id :: string
  ms_case_id :: string
  ms_session_id :: "string option"
  ms_author_id :: string
  ms_content :: string
  ms_surface :: string
  ms_preview_hash :: string
  ms_confirmation_required :: bool
  ms_confirmed_at :: "timestamp option"
  ms_policy_decision_id :: string
  ms_status :: string
  ms_delivered_at :: "timestamp option"
  ms_response_event_ids :: "json list"
  ms_evidence_id :: "string option"
  ms_idempotency_key :: string

record control_row =
  cc_scope :: string
  cc_case_id :: "string option"
  cc_disabled :: bool
  cc_changed_by :: string
  cc_reason :: string

record policy_row =
  po_decision_id :: string
  po_case_id :: string
  po_decision :: string

record phase_row =
  ph_phase_change_id :: string
  ph_case_id :: string
  ph_from :: string
  ph_to :: string
  ph_reason :: string
  ph_approved_by :: string

record analyst =
  an_ledger :: ledger
  an_policies :: "policy_row list"
  an_directives :: "directive_row list"
  an_messages :: "message_row list"
  an_controls :: "control_row list"
  an_phases :: "phase_row list"

definition an_db :: "analyst \<Rightarrow> db" where
  "an_db s = el_db (an_ledger s)"

definition an_sessions :: "analyst \<Rightarrow> session_row list" where
  "an_sessions s = el_sessions (an_ledger s)"

definition with_db :: "db \<Rightarrow> analyst \<Rightarrow> analyst" where
  "with_db d s = s\<lparr>an_ledger := (an_ledger s)\<lparr>el_db := d\<rparr>\<rparr>"

definition audit_analyst :: "string \<Rightarrow> string \<Rightarrow> string \<Rightarrow> string \<Rightarrow> string \<Rightarrow> string \<Rightarrow> analyst \<Rightarrow> analyst" where
  "audit_analyst actor action target outcome corr detail s =
     with_db (insert_audit \<lparr>au_actor = actor, au_actor_type = ''ANALYST'', au_action = action, au_target = target,
       au_outcome = outcome, au_correlation_id = corr, au_detail = detail\<rparr> (an_db s)) s"

definition known_case :: "string \<Rightarrow> analyst \<Rightarrow> bool" where
  "known_case cid s = (cid \<in> case_id ` set (cases (an_db s)))"

definition known_session :: "string option \<Rightarrow> analyst \<Rightarrow> bool" where
  "known_session sid s = (case sid of None \<Rightarrow> True | Some x \<Rightarrow> x \<in> ss_session_id ` set (an_sessions s))"

section \<open>Directives\<close>

record directive_args =
  da_case_id :: string
  da_session_id :: "string option"
  da_objective :: string
  da_priority :: string
  da_created_by :: string
  da_expires_at :: "timestamp option"
  da_idempotency_key :: string

definition directive_of :: "string \<Rightarrow> string \<Rightarrow> timestamp \<Rightarrow> directive_args \<Rightarrow> directive_row" where
  "directive_of did objective now a =
     \<lparr>dr_directive_id = did, dr_case_id = da_case_id a, dr_session_id = da_session_id a, dr_objective = objective,
      dr_priority = da_priority a, dr_status = ''SUBMITTED'', dr_created_by = da_created_by a, dr_created_at = now,
      dr_expires_at = da_expires_at a, dr_acknowledged_at = None, dr_applied_at = None, dr_rejected_at = None,
      dr_rejection_reason = None, dr_linked_proposal_ids = [], dr_linked_action_ids = [],
      dr_idempotency_key = da_idempotency_key a\<rparr>"

definition insert_directive :: "directive_row \<Rightarrow> analyst \<Rightarrow> 'e svc_error + analyst" where
  "insert_directive r s =
     (if \<not> canonical_ulid (dr_directive_id r) then Inl (Db (CheckViolation ''analyst_directives''))
      else if dr_directive_id r \<in> dr_directive_id ` set (an_directives s) \<or>
        list_ex (\<lambda>q. dr_case_id q = dr_case_id r \<and> dr_idempotency_key q = dr_idempotency_key r) (an_directives s)
      then Inl (Db (UniqueViolation ''analyst_directives''))
      else if \<not> known_case (dr_case_id r) s \<or> \<not> known_session (dr_session_id r) s
      then Inl (Db (ForeignKeyViolation ''analyst_directives''))
      else Inr (s\<lparr>an_directives := an_directives s @ [r]\<rparr>))"

definition directive_args_of :: "(timestamp \<Rightarrow> string) \<Rightarrow> directive_row \<Rightarrow> build_args" where
  "directive_args_of isoformat r =
     \<lparr>be_event_type = ''analyst.directive'', be_schema_version = ''1.0'',
      be_payload = JObj [(''directive_id'', JStr (dr_directive_id r)), (''case_id'', JStr (dr_case_id r)),
        (''objective'', JStr (dr_objective r)), (''priority'', JStr (dr_priority r)), (''status'', JStr ''SUBMITTED''),
        (''created_by'', JStr (dr_created_by r)),
        (''expires_at'', case dr_expires_at r of None \<Rightarrow> JNull | Some t \<Rightarrow> JStr (isoformat t))],
      be_source_id = ''mirage-api.analyst'', be_sequence = 0, be_actor_type = ''ANALYST'', be_classification = ''INTERNAL'',
      be_case_id = Some (dr_case_id r), be_session_id = dr_session_id r, be_event_id = None, be_event_time = None\<rparr>"

definition find_directive :: "string \<Rightarrow> string \<Rightarrow> analyst \<Rightarrow> directive_row option" where
  "find_directive cid key s = lookup_by (\<lambda>r. (dr_case_id r, dr_idempotency_key r)) (an_directives s) (cid, key)"

definition submit_directive :: "(timestamp \<Rightarrow> string) \<Rightarrow> env \<Rightarrow> directive_args \<Rightarrow> analyst \<Rightarrow>
    (analyst_error svc_error + directive_row) \<times> analyst" where
  "submit_directive isoformat e a s =
     (case validate_objective (da_objective a) of
        Inl x \<Rightarrow> (Inl (App x), s)
      | Inr objective \<Rightarrow>
          if da_priority a \<notin> {''LOW'', ''NORMAL'', ''HIGH'', ''URGENT''} then (Inl (App (AnalystChannelError ''invalid priority'')), s)
          else if (case da_expires_at a of None \<Rightarrow> False | Some t \<Rightarrow> t \<le> env_now e)
          then (Inl (App (AnalystChannelError ''directive is already expired'')), s)
          else (case find_directive (da_case_id a) (da_idempotency_key a) s of
             Some r \<Rightarrow> (Inr r, s)
           | None \<Rightarrow>
               if \<not> known_case (da_case_id a) s then (Inl (App (AnalystChannelError ''unknown case'')), s)
               else let r = directive_of (env_ids e 0) objective (env_now e) a in
                 (case insert_directive r s of
                    Inl x \<Rightarrow> (Inl x, s)
                  | Inr s1 \<Rightarrow>
                      let s2 = audit_analyst (da_created_by a) ''analyst.directive.submitted'' (dr_directive_id r) ''SUCCESS'' (dr_directive_id r) objective s1 in
                      (case publish_validated e 1 (directive_args_of isoformat r) (an_db s2) of
                         Inl x \<Rightarrow> (Inl x, s2)
                       | Inr d \<Rightarrow> (Inr r, with_db d s2)))))"

definition OPEN_DIRECTIVE :: "string list" where
  "OPEN_DIRECTIVE = [''SUBMITTED'', ''ACKNOWLEDGED'', ''QUEUED'']"

definition cancel_directive :: "string \<Rightarrow> string \<Rightarrow> string \<Rightarrow> analyst \<Rightarrow> (analyst_error svc_error + string) \<times> analyst" where
  "cancel_directive cid did actor s =
     (let hit = (\<lambda>r. dr_case_id r = cid \<and> dr_directive_id r = did \<and> dr_status r \<in> set OPEN_DIRECTIVE) in
      if \<not> list_ex hit (an_directives s) then (Inl (App (AnalystChannelError ''directive cannot be cancelled'')), s)
      else (Inr ''CANCELLED'',
        audit_analyst actor ''analyst.directive.cancelled'' did ''SUCCESS'' did ''cancelled''
          (s\<lparr>an_directives := update_where hit (\<lambda>r. r\<lparr>dr_status := ''CANCELLED''\<rparr>) (an_directives s)\<rparr>)))"

definition expired :: "timestamp \<Rightarrow> directive_row \<Rightarrow> bool" where
  "expired now r = (case dr_expires_at r of None \<Rightarrow> False | Some t \<Rightarrow> t \<le> now)"

definition acknowledge_directive :: "env \<Rightarrow> string \<Rightarrow> analyst \<Rightarrow> (analyst_error svc_error + string \<times> string \<times> string option \<times> string \<times> string) \<times> analyst" where
  "acknowledge_directive e did s =
     (let hit = (\<lambda>r. dr_directive_id r = did \<and> dr_status r = ''SUBMITTED'' \<and> \<not> expired (env_now e) r) in
      case find hit (an_directives s) of
        Some r \<Rightarrow> (Inr (dr_directive_id r, dr_case_id r, dr_session_id r, dr_objective r, dr_priority r), s\<lparr>an_directives :=
          update_where hit (\<lambda>r. r\<lparr>dr_status := ''ACKNOWLEDGED'', dr_acknowledged_at := Some (env_now e)\<rparr>) (an_directives s)\<rparr>)
      | None \<Rightarrow> (Inl (App (AnValueError ''directive is unavailable or expired'')),
          s\<lparr>an_directives := update_where (\<lambda>r. dr_directive_id r = did \<and> expired (env_now e) r \<and> dr_status r \<in> set OPEN_DIRECTIVE)
            (\<lambda>r. r\<lparr>dr_status := ''EXPIRED''\<rparr>) (an_directives s)\<rparr>))"

definition opt_list :: "string option \<Rightarrow> string list" where
  "opt_list x = (case given x of None \<Rightarrow> [] | Some v \<Rightarrow> [v])"

definition link_directive_result :: "env \<Rightarrow> string \<Rightarrow> string option \<Rightarrow> string option \<Rightarrow> bool \<Rightarrow> string option \<Rightarrow> analyst \<Rightarrow> analyst" where
  "link_directive_result e did proposal action applied reason s =
     s\<lparr>an_directives := update_where (\<lambda>r. dr_directive_id r = did)
       (\<lambda>r. r\<lparr>dr_status := (if applied then ''APPLIED'' else ''REJECTED''),
             dr_applied_at := (if applied then Some (env_now e) else dr_applied_at r),
             dr_rejected_at := (if \<not> applied then Some (env_now e) else dr_rejected_at r),
             dr_rejection_reason := reason,
             dr_linked_proposal_ids := dr_linked_proposal_ids r @ opt_list proposal,
             dr_linked_action_ids := dr_linked_action_ids r @ opt_list action\<rparr>) (an_directives s)\<rparr>"

definition STRATEGY_PHASES :: "(string \<times> string) list" where
  "STRATEGY_PHASES = [(''OBSERVE'', ''PROFILE''), (''PROFILE'', ''ENGAGE''), (''ENGAGE'', ''DEEPEN''), (''DEEPEN'', ''VERIFY''),
     (''VERIFY'', ''CONTAIN''), (''CONTAIN'', ''CONCLUDE'')]"

definition apply_directive_strategy :: "env \<Rightarrow> string \<Rightarrow> string \<Rightarrow> string \<Rightarrow> string option \<Rightarrow> string option \<Rightarrow> analyst \<Rightarrow>
    (analyst_error svc_error + unit) \<times> analyst" where
  "apply_directive_strategy e did from_phase to_phase proposal action s =
     (if map_of STRATEGY_PHASES from_phase \<noteq> Some to_phase
      then (Inl (App (AnValueError ''directive requested an invalid strategy transition'')), s)
      else (case lookup_by dr_directive_id (an_directives s) did of
         None \<Rightarrow> (Inl (App (AnValueError ''directive is not acknowledged for strategy application'')), s)
       | Some r \<Rightarrow>
           if dr_status r \<notin> {''ACKNOWLEDGED'', ''QUEUED''}
           then (Inl (App (AnValueError ''directive is not acknowledged for strategy application'')), s)
           else if env_ids e 0 \<in> ph_phase_change_id ` set (an_phases s) then (Inl (Db (UniqueViolation ''strategy_phase_history'')), s)
           else (Inr (), link_directive_result e did proposal action True None
             (s\<lparr>an_phases := an_phases s @ [\<lparr>ph_phase_change_id = env_ids e 0, ph_case_id = dr_case_id r, ph_from = from_phase,
                ph_to = to_phase, ph_reason = ''analyst directive '' @ did, ph_approved_by = dr_created_by r\<rparr>]\<rparr>))))"

text \<open>Listing the directives of a case first expires the overdue ones.\<close>

definition list_directives :: "env \<Rightarrow> string \<Rightarrow> analyst \<Rightarrow> directive_row list \<times> analyst" where
  "list_directives e cid s =
     (let s1 = s\<lparr>an_directives := update_where (\<lambda>r. dr_case_id r = cid \<and> expired (env_now e) r \<and> dr_status r \<in> set OPEN_DIRECTIVE)
          (\<lambda>r. r\<lparr>dr_status := ''EXPIRED''\<rparr>) (an_directives s)\<rparr>
      in (sort_key dr_created_at (filter (\<lambda>r. dr_case_id r = cid) (an_directives s1)), s1))"

section \<open>The emergency control\<close>

definition controls_case :: "string \<Rightarrow> control_row \<Rightarrow> bool" where
  "controls_case cid c = ((cc_scope c = ''PLATFORM'' \<and> cc_case_id c = None) \<or> (cc_scope c = ''CASE'' \<and> cc_case_id c = Some cid))"

definition channel_disabled :: "string \<Rightarrow> analyst \<Rightarrow> bool" where
  "channel_disabled cid s = list_ex (\<lambda>c. controls_case cid c \<and> cc_disabled c) (an_controls s)"

definition set_channel_control :: "env \<Rightarrow> string \<Rightarrow> string option \<Rightarrow> bool \<Rightarrow> string \<Rightarrow> string \<Rightarrow> analyst \<Rightarrow>
    (analyst_error svc_error + unit) \<times> analyst" where
  "set_channel_control e scope cid disabled changed_by reason s =
     (if scope \<notin> {''PLATFORM'', ''CASE''} then (Inl (App (AnalystChannelError ''invalid emergency-control scope'')), s)
      else if (scope = ''PLATFORM'') \<noteq> (cid = None)
      then (Inl (App (AnalystChannelError ''platform scope must omit case_id; case scope must include it'')), s)
      else if (case cid of None \<Rightarrow> False | Some c \<Rightarrow> \<not> known_case c s) then (Inl (App (AnalystChannelError ''unknown case'')), s)
      else
        let hit = (\<lambda>c. cc_scope c = scope \<and> cc_case_id c = cid);
            s1 = (if list_ex hit (an_controls s)
                  then s\<lparr>an_controls := update_where hit
                    (\<lambda>c. c\<lparr>cc_disabled := disabled, cc_changed_by := changed_by, cc_reason := reason\<rparr>) (an_controls s)\<rparr>
                  else s\<lparr>an_controls := an_controls s @ [\<lparr>cc_scope = scope, cc_case_id = cid, cc_disabled = disabled,
                    cc_changed_by = changed_by, cc_reason = reason\<rparr>]\<rparr>)
        in (Inr (), audit_analyst changed_by (if disabled then ''analyst.channel.disabled'' else ''analyst.channel.enabled'')
              (py_or cid ''PLATFORM'') ''SUCCESS'' (env_ids e 0) reason s1))"

section \<open>Messages\<close>

record message_args =
  ma_case_id :: string
  ma_session_id :: "string option"
  ma_author_id :: string
  ma_content :: string
  ma_surface :: string
  ma_preview_hash :: string
  ma_policy_decision_id :: string
  ma_idempotency_key :: string

record message_result =
  mr_message_id :: string
  mr_status :: string
  mr_confirmation_required :: bool
  mr_preview_hash :: string

definition result_of :: "message_row \<Rightarrow> message_result" where
  "result_of m = \<lparr>mr_message_id = ms_message_id m, mr_status = ms_status m, mr_confirmation_required = ms_confirmation_required m,
     mr_preview_hash = ms_preview_hash m\<rparr>"

definition find_message :: "string \<Rightarrow> string \<Rightarrow> analyst \<Rightarrow> message_row option" where
  "find_message cid key s = lookup_by (\<lambda>m. (ms_case_id m, ms_idempotency_key m)) (an_messages s) (cid, key)"

definition PERMITTING :: "string list" where
  "PERMITTING = [''ALLOW'', ''REQUIRE_ANALYST_APPROVAL'']"

text \<open>The checks of a new message against channel, session, case and policy; the decision that permits it.\<close>

definition check_message :: "runtime \<Rightarrow> message_args \<Rightarrow> analyst \<Rightarrow> analyst_error + message_preview \<times> string" where
  "check_message rt a s =
     sbind (preview_message rt (ma_case_id a) (ma_surface a) (ma_content a)) (\<lambda>p.
       case given (ma_session_id a) of
         None \<Rightarrow> Inl (AnalystChannelError ''an active session_id is required'')
       | Some sid \<Rightarrow>
           if mp_preview_hash p \<noteq> ma_preview_hash a then Inl (AnalystChannelError ''preview hash mismatch'')
           else if channel_disabled (ma_case_id a) s then Inl (AnalystChannelError ''analyst direct-message channel is disabled'')
           else (case (lookup_by case_id (cases (an_db s)) (ma_case_id a),
                       find (\<lambda>x. ss_session_id x = sid \<and> ss_case_id x = ma_case_id a) (an_sessions s)) of
              (Some c, Some x) \<Rightarrow>
                if ss_status x \<noteq> ''ACTIVE''
                then Inl (AnalystChannelError ''message requires an active session belonging to the case'')
                else if case_state c \<in> {CONCLUDING, EXPORTED, DESTROYED}
                then Inl (AnalystChannelError ''case state does not permit direct messages'')
                else (case find (\<lambda>p. po_decision_id p = ma_policy_decision_id a \<and> po_case_id p = ma_case_id a) (an_policies s) of
                   None \<Rightarrow> Inl (AnalystChannelError ''message policy decision does not permit delivery'')
                 | Some d \<Rightarrow>
                     if po_decision d \<notin> set PERMITTING
                     then Inl (AnalystChannelError ''message policy decision does not permit delivery'')
                     else Inr (p, po_decision d))
            | _ \<Rightarrow> Inl (AnalystChannelError ''message requires an active session belonging to the case'')))"

definition message_of :: "string \<Rightarrow> message_args \<Rightarrow> message_preview \<Rightarrow> string \<Rightarrow> message_row" where
  "message_of mid a p decision =
     (let confirm = mp_confirmation_required p \<or> decision = ''REQUIRE_ANALYST_APPROVAL'' in
      \<lparr>ms_message_id = mid, ms_case_id = ma_case_id a, ms_session_id = ma_session_id a, ms_author_id = ma_author_id a,
       ms_content = mp_content p, ms_surface = ma_surface a, ms_preview_hash = mp_preview_hash p,
       ms_confirmation_required = confirm, ms_confirmed_at = None, ms_policy_decision_id = ma_policy_decision_id a,
       ms_status = (if confirm then ''PENDING_CONFIRMATION'' else ''APPROVED''), ms_delivered_at = None,
       ms_response_event_ids = [], ms_evidence_id = None, ms_idempotency_key = ma_idempotency_key a\<rparr>)"

definition insert_message :: "message_row \<Rightarrow> analyst \<Rightarrow> 'e svc_error + analyst" where
  "insert_message m s =
     (if \<not> canonical_ulid (ms_message_id m) \<or> \<not> hex64 (ms_preview_hash m) then Inl (Db (CheckViolation ''analyst_messages''))
      else if ms_message_id m \<in> ms_message_id ` set (an_messages s) \<or>
        list_ex (\<lambda>q. ms_case_id q = ms_case_id m \<and> ms_idempotency_key q = ms_idempotency_key m) (an_messages s)
      then Inl (Db (UniqueViolation ''analyst_messages''))
      else Inr (s\<lparr>an_messages := an_messages s @ [m]\<rparr>))"

definition create_message :: "env \<Rightarrow> message_args \<Rightarrow> analyst \<Rightarrow> (analyst_error svc_error + message_result) \<times> analyst" where
  "create_message e a s =
     (case check_message (env_rt e) a s of
        Inl x \<Rightarrow> (Inl (App x), s)
      | Inr (p, decision) \<Rightarrow>
          (case find_message (ma_case_id a) (ma_idempotency_key a) s of
             Some m \<Rightarrow> (Inr (result_of m), s)
           | None \<Rightarrow>
               let m = message_of (env_ids e 0) a p decision in
               (case insert_message m s of
                  Inl x \<Rightarrow> (Inl x, s)
                | Inr s1 \<Rightarrow> (Inr (result_of m),
                    audit_analyst (ma_author_id a) ''analyst.message.created'' (ms_message_id m) ''SUCCESS'' (ms_message_id m) (ms_status m) s1))))"

definition set_status :: "string \<Rightarrow> string \<Rightarrow> analyst \<Rightarrow> analyst" where
  "set_status mid st s = s\<lparr>an_messages := update_where (\<lambda>m. ms_message_id m = mid) (\<lambda>m. m\<lparr>ms_status := st\<rparr>) (an_messages s)\<rparr>"

definition audit_message :: "string \<Rightarrow> string \<Rightarrow> string \<Rightarrow> string \<Rightarrow> analyst \<Rightarrow> analyst" where
  "audit_message mid outcome corr detail s =
     (case lookup_by ms_message_id (an_messages s) mid of
        None \<Rightarrow> s | Some m \<Rightarrow> audit_analyst (ms_author_id m) ''analyst.message.delivery'' mid outcome corr detail s)"

section \<open>Delivery\<close>

record host =
  ah_isoformat :: "timestamp \<Rightarrow> string"
  ah_dumps :: "json \<Rightarrow> string"
  ah_post :: "string \<Rightarrow> json \<Rightarrow> string + json"

text \<open>
  \<open>ah_post\<close> is the sandbox gateway's answer to a request for a case: the JSON body of a
  successful response, or the text of the exception of the client or of an error status.
\<close>

definition delivery_request :: "message_row \<Rightarrow> string \<Rightarrow> int \<Rightarrow> json" where
  "delivery_request m sandbox version =
     JObj [(''sandbox_id'', JStr sandbox), (''action_type'', JStr ''DISPLAY_MESSAGE''), (''expected_state_version'', JInt version),
       (''issued_by'', JStr ''ANALYST''),
       (''action_params'', JObj [(''surface'', JStr (ms_surface m)), (''content'', JStr (ms_content m)),
          (''output_tag'', JStr ''ANALYST_MESSAGE'')])]"

definition action_ids :: "json \<Rightarrow> json list" where
  "action_ids result = (let v = py_get result ''action_id'' in if py_falsy v then [] else [v])"

definition next_sequence :: "ledger \<Rightarrow> int" where
  "next_sequence l = max 0 (max_sequence l ''mirage-worker.analyst'') + 1"

definition delivery_evidence :: "timestamp \<Rightarrow> message_row \<Rightarrow> json \<Rightarrow> ledger \<Rightarrow> acquisition_request" where
  "delivery_evidence now m result l =
     \<lparr>aq_case_id = ms_case_id m, aq_session_id = ms_session_id m, aq_evidence_type = ''LOG'', aq_source_id = ''mirage-worker.analyst'',
      aq_source_sequence = next_sequence l, aq_source_certificate_serial = None, aq_related_event_ids = action_ids result,
      aq_acquisition_time = now, aq_original_filename = Some (ms_message_id m @ ''-analyst-message.json''),
      aq_media_type = ''application/json'', aq_collection_method = ''ANALYST_MESSAGE_DELIVERY'', aq_classification = ''SENSITIVE'',
      aq_metadata = JObj [(''message_id'', JStr (ms_message_id m)), (''surface'', JStr (ms_surface m)), (''output_tag'', JStr ''ANALYST_MESSAGE'')],
      aq_required_for_export = True\<rparr>"

definition delivery_record :: "message_row \<Rightarrow> json \<Rightarrow> json" where
  "delivery_record m result =
     JObj [(''message_id'', JStr (ms_message_id m)), (''authoritative_output_tag'', JStr ''ANALYST_MESSAGE''),
       (''surface'', JStr (ms_surface m)), (''content'', JStr (ms_content m)), (''delivery_result'', result)]"

text \<open>The message's row joined with its session, sandbox and policy decision, when it is APPROVED.\<close>

definition deliverable :: "string \<Rightarrow> analyst \<Rightarrow> (message_row \<times> string \<times> int \<times> string) option" where
  "deliverable mid s =
     (case find (\<lambda>m. ms_message_id m = mid \<and> ms_status m = ''APPROVED'') (an_messages s) of
        None \<Rightarrow> None
      | Some m \<Rightarrow>
          (case ms_session_id m of
             None \<Rightarrow> None
           | Some sid \<Rightarrow>
               (case lookup_by ss_session_id (an_sessions s) sid of
                  None \<Rightarrow> None
                | Some x \<Rightarrow>
                    (case ss_sandbox_id x of
                       None \<Rightarrow> None
                     | Some sb \<Rightarrow>
                         (case (lookup_by sb_sandbox_id (sandboxes (an_db s)) sb,
                                lookup_by po_decision_id (an_policies s) (ms_policy_decision_id m)) of
                            (Some box, Some p) \<Rightarrow> Some (m, sb, sb_state_version box, po_decision p)
                          | _ \<Rightarrow> None)))))"

definition finish_delivery :: "env \<Rightarrow> message_row \<Rightarrow> json \<Rightarrow> string \<Rightarrow> string option \<Rightarrow> analyst \<Rightarrow> analyst" where
  "finish_delivery e m result status evidence s =
     audit_message (ms_message_id m) (if status = ''DELIVERED'' then ''SUCCESS'' else ''FAILURE'') (env_ids e 3) status
       (s\<lparr>an_messages := update_where (\<lambda>q. ms_message_id q = ms_message_id m)
         (\<lambda>q. q\<lparr>ms_status := status, ms_delivered_at := (if status = ''DELIVERED'' then Some (env_now e) else None),
               ms_response_event_ids := ms_response_event_ids q @ action_ids result, ms_evidence_id := evidence\<rparr>) (an_messages s)\<rparr>)"

definition fail_delivery :: "env \<Rightarrow> string \<Rightarrow> analyst \<Rightarrow> analyst" where
  "fail_delivery e mid s = audit_message mid ''FAILURE'' (env_ids e 3) ''gateway delivery failed'' (set_status mid ''FAILED'' s)"

text \<open>
  What follows the answer of the gateway. An exception of the database aborts the transaction, so
  that the handler's own statements fail as well; any other one is followed by
  the FAILED status and the audit row and raised again.
\<close>

definition settle_delivery :: "'o object_store \<Rightarrow> (string \<times> int) list \<Rightarrow> host \<Rightarrow> env \<Rightarrow> message_row \<Rightarrow> string + json \<Rightarrow>
    analyst \<times> 'o \<Rightarrow> (analyst_error svc_error + json) \<times> analyst \<times> 'o" where
  "settle_delivery S limits h e m answer w = (case w of (s, st) \<Rightarrow>
     (case answer of
        Inl x \<Rightarrow> (Inl (App (AnException x)), fail_delivery e (ms_message_id m) s, st)
      | Inr result \<Rightarrow>
          if \<not> is_dict result then (Inl (App (AnException ''AttributeError'')), fail_delivery e (ms_message_id m) s, st)
          else if py_get result ''status'' \<noteq> JStr ''SUCCESS'' then (Inr result, finish_delivery e m result ''FAILED'' None s, st)
          else (case acquire S limits e (delivery_evidence (env_now e) m result (an_ledger s)) [ah_dumps h (delivery_record m result)]
                       ''mirage-worker.analyst'' None (an_ledger s, st) of
             (Inr r, l1, st1) \<Rightarrow>
               (Inr result, finish_delivery e m result ''DELIVERED'' (Some (er_evidence_id r)) (s\<lparr>an_ledger := l1\<rparr>), st1)
           | (Inl (Db x), l1, st1) \<Rightarrow> (Inl (Db (DatabaseError ''InFailedSqlTransaction'')), s\<lparr>an_ledger := l1\<rparr>, st1)
           | (Inl (Contract x), l1, st1) \<Rightarrow>
               (Inl (Contract x), fail_delivery e (ms_message_id m) (s\<lparr>an_ledger := l1\<rparr>), st1)
           | (Inl (App x), l1, st1) \<Rightarrow>
               (Inl (App (AnException (exc_text x))), fail_delivery e (ms_message_id m) (s\<lparr>an_ledger := l1\<rparr>), st1))))"

definition deliver_approved_message :: "'o object_store \<Rightarrow> (string \<times> int) list \<Rightarrow> host \<Rightarrow> env \<Rightarrow> string \<Rightarrow>
    analyst \<times> 'o \<Rightarrow> (analyst_error svc_error + json) \<times> analyst \<times> 'o" where
  "deliver_approved_message S limits h e mid w = (case w of (s, st) \<Rightarrow>
     (case lookup_by ms_message_id (an_messages s) mid of
        None \<Rightarrow> (Inl (App (AnValueError ''message not found'')), w)
      | Some m0 \<Rightarrow>
          if channel_disabled (ms_case_id m0) s
          then (Inl (App (AnValueError ''analyst direct-message channel is disabled'')), set_status mid ''BLOCKED'' s, st)
          else (case deliverable mid s of
             None \<Rightarrow> (Inl (App (AnValueError ''message is not approved or has no live sandbox session'')), w)
           | Some (m, sandbox, version, decision) \<Rightarrow>
               if decision \<notin> set PERMITTING
               then (Inl (App (AnValueError ''message policy no longer permits delivery'')), set_status mid ''BLOCKED'' s, st)
               else settle_delivery S limits h e m (ah_post h (ms_case_id m) (delivery_request m sandbox version)) (set_status mid ''SENT'' s, st))))"

section \<open>Routes\<close>

text \<open>A handler commits when it returns; an exception gives the connection back unchanged.\<close>

definition http_error :: "nat \<Rightarrow> analyst_error svc_error \<Rightarrow> api_error" where
  "http_error code x = (case x of App (AnalystChannelError t) \<Rightarrow> HTTPException code t | _ \<Rightarrow> Unhandled (map_svc_error (\<lambda>_. ()) x))"

text \<open>The directive route also answers 400 to a ValueError, which \<open>subject_for_event_type\<close> can raise.\<close>

definition directive_error :: "analyst_error svc_error \<Rightarrow> api_error" where
  "directive_error x = (case x of Contract (ValueError t) \<Rightarrow> HTTPException 400 t | _ \<Rightarrow> http_error 400 x)"

definition route_answer :: "(analyst_error svc_error \<Rightarrow> api_error) \<Rightarrow> (analyst_error svc_error + 'a) \<times> analyst \<Rightarrow> (api_error + 'a) \<times> analyst" where
  "route_answer f r = (case r of (Inl x, s) \<Rightarrow> (Inl (f x), s) | (Inr a, s) \<Rightarrow> (Inr a, s))"

definition limited :: "timestamp \<Rightarrow> dimensions \<Rightarrow> string \<Rightarrow> limiter \<Rightarrow> analyst \<Rightarrow> (analyst \<Rightarrow> (api_error + 'a) \<times> analyst) \<Rightarrow>
    (api_error + 'a) \<times> limiter \<times> analyst" where
  "limited now dims refusal rl s f = (case consume now dims rl of
      (Inl x, rl1) \<Rightarrow> (Inl (Unhandled (App ())), rl1, s)
    | (Inr False, rl1) \<Rightarrow> (Inl (HTTPException 429 refusal), rl1, s)
    | (Inr True, rl1) \<Rightarrow> (case f s of (r, s1) \<Rightarrow> (r, rl1, s1)))"

definition directive_route :: "(timestamp \<Rightarrow> string) \<Rightarrow> env \<Rightarrow> directive_args \<Rightarrow> limiter \<Rightarrow> analyst \<Rightarrow>
    (api_error + directive_row) \<times> limiter \<times> analyst" where
  "directive_route isoformat e a rl s =
     limited (env_now e) [(''analyst'', da_created_by a), (''case'', da_case_id a), (''session'', py_or (da_session_id a) (da_case_id a)),
         (''surface'', ''DIRECTIVE'')] ''analyst directive rate limit exceeded'' rl s
       (\<lambda>s. route_answer directive_error (run_tx (submit_directive isoformat e a) s))"

definition cancel_route :: "string \<Rightarrow> string \<Rightarrow> string \<Rightarrow> analyst \<Rightarrow> (api_error + string) \<times> analyst" where
  "cancel_route username cid did s = route_answer (http_error 409) (run_tx (cancel_directive cid did username) s)"

definition preview_route :: "runtime \<Rightarrow> string \<Rightarrow> string \<Rightarrow> string \<Rightarrow> api_error + message_preview" where
  "preview_route rt cid surface content = (case preview_message rt cid surface content of
      Inl x \<Rightarrow> Inl (http_error 400 (App x)) | Inr p \<Rightarrow> Inr p)"

definition message_route :: "env \<Rightarrow> message_args \<Rightarrow> limiter \<Rightarrow> analyst \<Rightarrow> (api_error + message_result) \<times> limiter \<times> analyst" where
  "message_route e a rl s =
     limited (env_now e) [(''analyst'', ma_author_id a), (''case'', ma_case_id a),
         (''session'', case ma_session_id a of None \<Rightarrow> [] | Some x \<Rightarrow> x), (''surface'', ma_surface a)]
       ''analyst message rate limit exceeded'' rl s (\<lambda>s. route_answer (http_error 409) (run_tx (create_message e a) s))"

definition confirm_message :: "env \<Rightarrow> string \<Rightarrow> string \<Rightarrow> string \<Rightarrow> string \<Rightarrow> analyst \<Rightarrow> (api_error + string) \<times> analyst" where
  "confirm_message e username cid mid hash s =
     (let hit = (\<lambda>m. ms_case_id m = cid \<and> ms_message_id m = mid \<and> ms_author_id m = username \<and>
                     ms_status m = ''PENDING_CONFIRMATION'' \<and> ms_preview_hash m = hash) in
      if channel_disabled cid s then (Inl (HTTPException 409 ''analyst direct-message channel is disabled''), s)
      else if \<not> list_ex hit (an_messages s) then (Inl (HTTPException 409 ''message confirmation rejected''), s)
      else (Inr ''APPROVED'', audit_analyst username ''analyst.message.confirmed'' mid ''SUCCESS'' (env_ids e 0) ''confirmed''
        (s\<lparr>an_messages := update_where hit (\<lambda>m. m\<lparr>ms_status := ''APPROVED'', ms_confirmed_at := Some (env_now e)\<rparr>) (an_messages s)\<rparr>)))"

definition cancel_message :: "env \<Rightarrow> string \<Rightarrow> string \<Rightarrow> string \<Rightarrow> analyst \<Rightarrow> (api_error + string) \<times> analyst" where
  "cancel_message e username cid mid s =
     (let hit = (\<lambda>m. ms_case_id m = cid \<and> ms_message_id m = mid \<and> ms_author_id m = username \<and>
                     ms_status m \<in> {''DRAFT'', ''PREVIEWED'', ''PENDING_CONFIRMATION'', ''APPROVED''}) in
      if \<not> list_ex hit (an_messages s) then (Inl (HTTPException 409 ''message cannot be cancelled''), s)
      else (Inr ''CANCELLED'', audit_analyst username ''analyst.message.cancelled'' mid ''SUCCESS'' (env_ids e 0) ''cancelled''
        (s\<lparr>an_messages := update_where hit (\<lambda>m. m\<lparr>ms_status := ''CANCELLED''\<rparr>) (an_messages s)\<rparr>)))"

definition case_channel_route :: "env \<Rightarrow> bool \<Rightarrow> string \<Rightarrow> string \<Rightarrow> string \<Rightarrow> analyst \<Rightarrow> (api_error + unit) \<times> analyst" where
  "case_channel_route e disabled username cid reason s =
     route_answer (\<lambda>x. Unhandled (map_svc_error (\<lambda>_. ()) x))
       (run_tx (set_channel_control e ''CASE'' (Some cid) disabled username (str_strip reason)) s)"

definition platform_channel_route :: "env \<Rightarrow> bool \<Rightarrow> string \<Rightarrow> string \<Rightarrow> analyst \<Rightarrow> (api_error + unit) \<times> analyst" where
  "platform_channel_route e disabled username reason s =
     route_answer (\<lambda>x. Unhandled (map_svc_error (\<lambda>_. ()) x))
       (run_tx (set_channel_control e ''PLATFORM'' None disabled username (str_strip reason)) s)"

section \<open>The life of a message\<close>

lemma an_simps [simp]:
  "an_messages (with_db d s) = an_messages s" "an_controls (with_db d s) = an_controls s" "an_directives (with_db d s) = an_directives s"
  "an_messages (audit_analyst x1 x2 x3 x4 x5 x6 s) = an_messages s" "an_controls (audit_analyst x1 x2 x3 x4 x5 x6 s) = an_controls s"
  "an_directives (audit_analyst x1 x2 x3 x4 x5 x6 s) = an_directives s"
  "an_messages (audit_message mid x7 x8 x9 s) = an_messages s" "an_controls (audit_message mid x7 x8 x9 s) = an_controls s"
  by (simp_all add: with_db_def audit_analyst_def audit_message_def split: option.splits)

text \<open>What may happen to a stored message.\<close>

definition same_text :: "message_row \<Rightarrow> message_row \<Rightarrow> bool" where
  "same_text m m' = (ms_message_id m' = ms_message_id m \<and> ms_case_id m' = ms_case_id m \<and> ms_author_id m' = ms_author_id m \<and>
     ms_content m' = ms_content m \<and> ms_surface m' = ms_surface m \<and> ms_preview_hash m' = ms_preview_hash m \<and>
     ms_confirmation_required m' = ms_confirmation_required m)"

definition row_step :: "message_row \<Rightarrow> message_row \<Rightarrow> bool" where
  "row_step m m' = (same_text m m' \<and>
     (ms_status m' = ms_status m \<and> ms_confirmed_at m' = ms_confirmed_at m \<or>
      ms_status m = ''PENDING_CONFIRMATION'' \<and> ms_status m' = ''APPROVED'' \<and> ms_confirmed_at m' \<noteq> None \<or>
      ms_status m' \<in> {''CANCELLED'', ''BLOCKED''} \<and> ms_confirmed_at m' = ms_confirmed_at m \<or>
      ms_status m = ''APPROVED'' \<and> ms_status m' \<in> {''SENT'', ''DELIVERED'', ''FAILED''} \<and> ms_confirmed_at m' = ms_confirmed_at m))"

lemma row_step_refl [simp]: "row_step m m"
  by (simp add: row_step_def same_text_def)

lemma row_steps_update:
  "(\<And>m. m \<in> set rows \<Longrightarrow> P m \<Longrightarrow> row_step m (f m)) \<Longrightarrow> list_all2 row_step rows (update_where P f rows)"
  by (auto simp: update_where_def list_all2_map2 list_all2_same)

definition new_message_ok :: "runtime \<Rightarrow> message_row \<Rightarrow> bool" where
  "new_message_ok rt m = (ms_surface m \<in> set APPROVED_SURFACES \<and> ms_content m \<noteq> [] \<and> length (ms_content m) \<le> 2048 \<and>
     \<not> rx_search COMMAND_PATTERN (ms_content m) \<and> ms_preview_hash m = preview_hash rt (ms_case_id m) (ms_surface m) (ms_content m) \<and>
     (confirmation_required (ms_content m) \<longrightarrow> ms_confirmation_required m) \<and>
     (if ms_confirmation_required m then ms_status m = ''PENDING_CONFIRMATION'' else ms_status m = ''APPROVED''))"

definition grows :: "runtime \<Rightarrow> message_row list \<Rightarrow> message_row list \<Rightarrow> bool" where
  "grows rt rows rows' = (\<exists>old new. rows' = old @ new \<and> list_all2 row_step rows old \<and>
     (\<forall>m\<in>set new. new_message_ok rt m \<and> ms_message_id m \<notin> ms_message_id ` set rows) \<and> distinct (map ms_message_id new))"

lemma grows_rows: "list_all2 row_step rows rows' \<Longrightarrow> grows rt rows rows'"
  unfolding grows_def by (rule exI [of _ rows'], rule exI [of _ "[]"]) simp

lemma grows_refl [simp]: "grows rt rows rows"
  by (rule grows_rows) (simp add: list_all2_same)

lemma check_message_ok:
  assumes "check_message rt a s = Inr (p, decision)"
  shows "preview_message rt (ma_case_id a) (ma_surface a) (ma_content a) = Inr p" "\<not> channel_disabled (ma_case_id a) s"
    "decision \<in> set PERMITTING"
  using assms by (auto simp: check_message_def sbind_def split: sum.splits option.splits if_splits)

lemma create_message_grows:
  assumes "create_message e a s = (Inr r, s')"
  shows "grows (env_rt e) (an_messages s) (an_messages s')" "an_controls s' = an_controls s" "\<not> channel_disabled (ma_case_id a) s"
proof -
  obtain p decision where ok: "check_message (env_rt e) a s = Inr (p, decision)"
    using assms by (auto simp: create_message_def split: sum.splits)
  note check = check_message_ok [OF ok]
  show "\<not> channel_disabled (ma_case_id a) s"
    by (rule check(2))
  show "grows (env_rt e) (an_messages s) (an_messages s')"
  proof (cases "find_message (ma_case_id a) (ma_idempotency_key a) s")
    case None
    let ?m = "message_of (env_ids e 0) a p decision"
    have "an_messages s' = an_messages s @ [?m]" "ms_message_id ?m \<notin> ms_message_id ` set (an_messages s)"
      using assms ok None by (auto simp: create_message_def insert_message_def Let_def split: if_splits)
    moreover have "new_message_ok (env_rt e) ?m"
      using check(1) by (auto simp: new_message_ok_def message_of_def preview_message_def Let_def split: if_splits)
    ultimately show ?thesis
      unfolding grows_def by (intro exI [of _ "an_messages s"] exI [of _ "[?m]"]) (simp add: list_all2_same)
  qed (use assms ok in \<open>auto simp: create_message_def\<close>)
  show "an_controls s' = an_controls s"
    using assms ok by (auto simp: create_message_def insert_message_def Let_def split: option.splits if_splits)
qed

lemma confirm_message_rows:
  assumes "confirm_message e username cid mid hash s = (r, s')"
  shows "list_all2 row_step (an_messages s) (an_messages s')" "an_controls s' = an_controls s"
  using assms
  by (auto simp: confirm_message_def Let_def list_all2_same row_step_def same_text_def split: if_splits intro!: row_steps_update)

lemma cancel_message_rows:
  assumes "cancel_message e username cid mid s = (r, s')"
  shows "list_all2 row_step (an_messages s) (an_messages s')" "an_controls s' = an_controls s"
  using assms
  by (auto simp: cancel_message_def Let_def list_all2_same row_step_def same_text_def split: if_splits intro!: row_steps_update)

text \<open>The request a delivery sends to the gateway, if it sends one.\<close>

definition sent_request :: "string \<Rightarrow> analyst \<Rightarrow> (message_row \<times> json) option" where
  "sent_request mid s =
     (case lookup_by ms_message_id (an_messages s) mid of
        None \<Rightarrow> None
      | Some m0 \<Rightarrow>
          if channel_disabled (ms_case_id m0) s then None
          else (case deliverable mid s of
             None \<Rightarrow> None
           | Some (m, sandbox, version, decision) \<Rightarrow>
               if decision \<in> set PERMITTING then Some (m, delivery_request m sandbox version) else None))"

lemma sent_request_row:
  assumes "sent_request mid s = Some (m, req)"
  shows "m \<in> set (an_messages s)" "ms_message_id m = mid" "ms_status m = ''APPROVED''"
  using assms
  by (auto simp: sent_request_def deliverable_def find_Some_iff split: option.splits prod.splits if_splits)

text \<open>The gateway is asked that one request or nothing.\<close>

lemma deliver_asks:
  "deliver_approved_message S limits h e mid (s, st) =
    (case sent_request mid s of
       Some (m, req) \<Rightarrow> settle_delivery S limits h e m (ah_post h (ms_case_id m) req) (set_status mid ''SENT'' s, st)
     | None \<Rightarrow> deliver_approved_message S limits (h\<lparr>ah_post := (\<lambda>_ _. Inl [])\<rparr>) e mid (s, st))"
  by (auto simp: deliver_approved_message_def sent_request_def split: option.splits)

definition settles :: "string \<Rightarrow> message_row \<Rightarrow> message_row \<Rightarrow> bool" where
  "settles mid m m' = (if ms_message_id m = mid
     then same_text m m' \<and> ms_confirmed_at m' = ms_confirmed_at m \<and> (ms_status m' = ms_status m \<or> ms_status m' \<in> {''DELIVERED'', ''FAILED''})
     else m' = m)"

lemma settles_refl: "list_all2 (settles mid) rows rows"
  by (simp add: list_all2_same settles_def same_text_def)

lemma settles_fail: "list_all2 (settles mid) (an_messages s) (an_messages (fail_delivery e mid s))"
  "an_controls (fail_delivery e mid s) = an_controls s"
  by (auto simp: fail_delivery_def set_status_def update_where_def list_all2_map2 list_all2_same settles_def same_text_def)

lemma settles_finish:
  "st \<in> {''DELIVERED'', ''FAILED''} \<Longrightarrow> list_all2 (settles (ms_message_id m)) (an_messages s) (an_messages (finish_delivery e m result st ev s))"
  "an_controls (finish_delivery e m result st ev s) = an_controls s"
  by (auto simp: finish_delivery_def update_where_def list_all2_map2 list_all2_same settles_def same_text_def)

lemma settle_messages:
  assumes "settle_delivery S limits h e m ans (s, st) = (r, s', st')"
  shows "list_all2 (settles (ms_message_id m)) (an_messages s) (an_messages s') \<and> an_controls s' = an_controls s"
proof (cases ans)
  case (Inl x)
  then show ?thesis
    using assms settles_fail by (auto simp: settle_delivery_def)
next
  case (Inr result)
  obtain r1 l1 st1 where acq: "acquire S limits e (delivery_evidence (env_now e) m result (an_ledger s)) [ah_dumps h (delivery_record m result)]
      ''mirage-worker.analyst'' None (an_ledger s, st) = (r1, l1, st1)"
    by (metis prod.exhaust)
  note fails = settles_fail(1) [of "ms_message_id m" "s\<lparr>an_ledger := l1\<rparr>" e, simplified]
  note fins = settles_finish(1) [of _ m "s\<lparr>an_ledger := l1\<rparr>", simplified]
  have "r1 = Inl (Db x) \<or> r1 = Inl (Contract y) \<or> r1 = Inl (App z) \<or> r1 = Inr u \<Longrightarrow> ?thesis" for x y z u
    using assms Inr acq fails fins settles_fail(1) [of _ s] settles_finish(1) [of _ m s]
    by (auto simp: settle_delivery_def settles_refl settles_fail(2) settles_finish(2) split: if_splits)
  then show ?thesis
    by (metis sum.exhaust svc_error.exhaust)
qed

lemma list_all2_compose:
  "list_all2 P xs ys \<Longrightarrow> list_all2 Q ys zs \<Longrightarrow> (\<And>x y z. x \<in> set xs \<Longrightarrow> P x y \<Longrightarrow> Q y z \<Longrightarrow> R x z) \<Longrightarrow> list_all2 R xs zs"
  by (induction xs arbitrary: ys zs) (fastforce simp: list_all2_Cons1)+

lemma deliver_rows:
  assumes "deliver_approved_message S limits h e mid (s, st) = (r, s', st')" "distinct (map ms_message_id (an_messages s))"
  shows "list_all2 row_step (an_messages s) (an_messages s') \<and> an_controls s' = an_controls s"
proof (cases "sent_request mid s")
  case None
  then have "s' = s \<or> s' = set_status mid ''BLOCKED'' s"
    using assms(1)
    by (auto simp: deliver_approved_message_def sent_request_def split: option.splits if_splits)
  then show ?thesis
    by (auto simp: set_status_def list_all2_same row_step_def same_text_def intro!: row_steps_update)
next
  case (Some x)
  obtain m req where x: "x = (m, req)"
    by fastforce
  note row = sent_request_row [OF Some [unfolded x]]
  have "settle_delivery S limits h e m (ah_post h (ms_case_id m) req) (set_status mid ''SENT'' s, st) = (r, s', st')"
    using assms(1) Some x by (simp add: deliver_asks [of S limits h])
  note settled = settle_messages [OF this]
  have uniq: "q = m" if "q \<in> set (an_messages s)" "ms_message_id q = mid" for q
    using that row(1,2) assms(2) by (auto simp: distinct_map inj_on_def)
  have "list_all2 (\<lambda>q q'. q' = (if ms_message_id q = mid then q\<lparr>ms_status := ''SENT''\<rparr> else q)) (an_messages s)
      (an_messages (set_status mid ''SENT'' s))"
    by (auto simp: set_status_def update_where_def list_all2_map2 list_all2_same)
  then have "list_all2 row_step (an_messages s) (an_messages s')"
    using conjunct1 [OF settled] 
  proof (rule list_all2_compose)
    fix q q1 q2
    assume "q \<in> set (an_messages s)" "q1 = (if ms_message_id q = mid then q\<lparr>ms_status := ''SENT''\<rparr> else q)" "settles (ms_message_id m) q1 q2"
    then show "row_step q q2"
      using row(2,3) uniq by (auto simp: settles_def row_step_def same_text_def split: if_splits)
  qed
  then show ?thesis
    using settled by (simp add: set_status_def)
qed

text \<open>
  A delivery may be committed or rolled back by its caller; the other operations are the
  committed routes. The last rule is everything that touches neither messages nor
  controls (directives, sessions, sandboxes, policies, evidence).
\<close>

inductive message_step :: "'o object_store \<Rightarrow> runtime \<Rightarrow> analyst \<times> 'o \<Rightarrow> analyst \<times> 'o \<Rightarrow> bool" for S rt where
  create: "run_tx (create_message e a) s = (r, s') \<Longrightarrow> env_rt e = rt \<Longrightarrow> message_step S rt (s, st) (s', st)"
| confirm: "confirm_message e username cid mid hash s = (r, s') \<Longrightarrow> message_step S rt (s, st) (s', st)"
| cancel: "cancel_message e username cid mid s = (r, s') \<Longrightarrow> message_step S rt (s, st) (s', st)"
| deliver: "deliver_approved_message S limits h e mid (s, st) = (r, s', st') \<Longrightarrow> message_step S rt (s, st) (s', st')"
| undelivered: "deliver_approved_message S limits h e mid (s, st) = (r, s', st') \<Longrightarrow> message_step S rt (s, st) (s, st')"
| elsewhere: "an_messages s' = an_messages s \<Longrightarrow> an_controls s' = an_controls s \<Longrightarrow> message_step S rt (s, st) (s', st')"

definition unique_messages :: "analyst \<Rightarrow> bool" where
  "unique_messages s = distinct (map ms_message_id (an_messages s))"

lemma message_step_shape:
  assumes "message_step S rt w w'" "unique_messages (fst w)"
  shows "grows rt (an_messages (fst w)) (an_messages (fst w')) \<and> an_controls (fst w') = an_controls (fst w)"
  using assms(1)
proof cases
  case (create e a s r s' st)
  show ?thesis
  proof (cases r)
    case (Inl x)
    then show ?thesis
      using create run_tx_error [of "create_message e a" s x s'] by simp
  next
    case (Inr y)
    then show ?thesis
      using create create_message_grows [of e a s y s'] by (simp add: run_tx_ok)
  qed
next
  case (deliver limits h e mid s st r s' st')
  then show ?thesis
    using deliver_rows [OF deliver(3)] assms(2) grows_rows by (simp add: unique_messages_def)
qed (auto intro!: grows_rows dest: confirm_message_rows cancel_message_rows)

lemma deliver_controls:
  assumes "deliver_approved_message S limits h e mid (s, st) = (r, s', st')"
  shows "an_controls s' = an_controls s"
proof (cases "sent_request mid s")
  case None
  then show ?thesis
    using assms by (auto simp: deliver_approved_message_def sent_request_def set_status_def split: option.splits if_splits)
next
  case (Some x)
  then show ?thesis
    using assms settle_messages by (fastforce simp: deliver_asks [of S limits h] set_status_def split: prod.splits)
qed

lemma message_step_controls:
  assumes "message_step S rt w w'"
  shows "an_controls (fst w') = an_controls (fst w)"
  using assms
proof cases
  case (create e a s r s' st)
  then show ?thesis
    using create_message_grows(2) [of e a s _ s'] run_tx_error [of "create_message e a" s _ s'] by (cases r) (auto simp: run_tx_ok)
next
  case (deliver limits h e mid s st r s' st')
  then show ?thesis
    using deliver_controls [OF deliver(3)] by simp
qed (auto dest: confirm_message_rows cancel_message_rows)

lemma row_step_id: "row_step m m' \<Longrightarrow> ms_message_id m' = ms_message_id m"
  by (simp add: row_step_def same_text_def)

lemma row_steps_ids: "list_all2 row_step rows old \<Longrightarrow> map ms_message_id old = map ms_message_id rows"
  by (induction rows old rule: list_all2_induct) (auto simp: row_step_id)

lemma grows_unique:
  assumes "grows rt rows rows'" "distinct (map ms_message_id rows)"
  shows "distinct (map ms_message_id rows')"
proof -
  obtain old new where g: "rows' = old @ new" "list_all2 row_step rows old" "distinct (map ms_message_id new)"
      "\<forall>m\<in>set new. ms_message_id m \<notin> ms_message_id ` set rows"
    using assms(1) by (auto simp: grows_def)
  have ids: "map ms_message_id old = map ms_message_id rows"
    using row_steps_ids g(2) by blast
  have "set (map ms_message_id old) \<inter> set (map ms_message_id new) = {}"
    unfolding ids using g(4) by (auto simp: image_iff) (metis)
  then show ?thesis
    using g(1,3) assms(2) ids by simp
qed

text \<open>Every stored message is one the preview accepts, and what has left PENDING_CONFIRMATION for the gateway was confirmed if it had to be.\<close>

definition text_ok :: "runtime \<Rightarrow> message_row \<Rightarrow> bool" where
  "text_ok rt m = (ms_surface m \<in> set APPROVED_SURFACES \<and> ms_content m \<noteq> [] \<and> length (ms_content m) \<le> 2048 \<and>
     \<not> rx_search COMMAND_PATTERN (ms_content m) \<and> ms_preview_hash m = preview_hash rt (ms_case_id m) (ms_surface m) (ms_content m) \<and>
     (confirmation_required (ms_content m) \<longrightarrow> ms_confirmation_required m))"

definition confirmed_ok :: "message_row \<Rightarrow> bool" where
  "confirmed_ok m = (ms_status m \<in> {''APPROVED'', ''SENT'', ''DELIVERED'', ''FAILED''} \<and> ms_confirmation_required m \<longrightarrow> ms_confirmed_at m \<noteq> None)"

definition messages_inv :: "runtime \<Rightarrow> analyst \<Rightarrow> bool" where
  "messages_inv rt s = (unique_messages s \<and> (\<forall>m\<in>set (an_messages s). text_ok rt m \<and> confirmed_ok m))"

lemma message_inv_new:
  assumes "new_message_ok rt m"
  shows "text_ok rt m" "confirmed_ok m"
  using assms unfolding new_message_ok_def text_ok_def by blast
    (use assms in \<open>auto simp: new_message_ok_def confirmed_ok_def split: if_splits\<close>)

lemma message_inv_row:
  assumes "row_step m m'"
  shows "text_ok rt m \<Longrightarrow> text_ok rt m'" "confirmed_ok m \<Longrightarrow> confirmed_ok m'"
proof -
  show "text_ok rt m \<Longrightarrow> text_ok rt m'"
    using assms by (simp add: row_step_def same_text_def text_ok_def)
  have "ms_confirmation_required m' = ms_confirmation_required m"
    using assms by (simp add: row_step_def same_text_def)
  then show "confirmed_ok m \<Longrightarrow> confirmed_ok m'"
    using assms by (auto simp: row_step_def confirmed_ok_def)
qed

lemma list_all2_back: "list_all2 P xs ys \<Longrightarrow> y \<in> set ys \<Longrightarrow> \<exists>x\<in>set xs. P x y"
  by (induction rule: list_all2_induct) auto

lemma old_rows:
  assumes "list_all2 row_step rows old" "m' \<in> set old"
  obtains m where "m \<in> set rows" "row_step m m'"
  using list_all2_back [OF assms] by blast

lemma messages_inv_step:
  assumes "message_step S rt w w' \<or> an_messages (fst w') = an_messages (fst w)" "messages_inv rt (fst w)"
  shows "messages_inv rt (fst w')"
proof (cases "an_messages (fst w') = an_messages (fst w)")
  case True
  then show ?thesis
    using assms(2) by (simp add: messages_inv_def unique_messages_def)
next
  case False
  then have g: "grows rt (an_messages (fst w)) (an_messages (fst w'))"
    using assms message_step_shape [of S rt w w'] by (auto simp: messages_inv_def)
  then obtain old new where on: "an_messages (fst w') = old @ new" "list_all2 row_step (an_messages (fst w)) old"
      "\<forall>m\<in>set new. new_message_ok rt m"
    by (auto simp: grows_def)
  have "text_ok rt m' \<and> confirmed_ok m'" if m': "m' \<in> set old" for m'
    using on(2) m'
  proof (rule old_rows)
    fix m assume "m \<in> set (an_messages (fst w))" "row_step m m'"
    then show ?thesis
      using message_inv_row assms(2) by (simp add: messages_inv_def)
  qed
  then show ?thesis
    using on(1,3) grows_unique [OF g] assms(2) message_inv_new by (auto simp: messages_inv_def unique_messages_def)
qed

definition analyst_step :: "'o object_store \<Rightarrow> runtime \<Rightarrow> analyst \<times> 'o \<Rightarrow> analyst \<times> 'o \<Rightarrow> bool" where
  "analyst_step S rt w w' = (message_step S rt w w' \<or> an_messages (fst w') = an_messages (fst w))"

interpretation analyst_messages: step_system "analyst_step S rt" "\<lambda>w. messages_inv rt (fst w)" for S rt
  by unfold_locales (auto simp: analyst_step_def intro: messages_inv_step)

text \<open>A message that can no longer be sent.\<close>

definition closed :: "string \<Rightarrow> analyst \<Rightarrow> bool" where
  "closed mid s = (unique_messages s \<and> mid \<in> ms_message_id ` set (an_messages s) \<and>
     (\<forall>m\<in>set (an_messages s). ms_message_id m = mid \<longrightarrow> ms_status m \<notin> {''PENDING_CONFIRMATION'', ''APPROVED''}))"

lemma closed_step:
  assumes "analyst_step S rt w w'" "closed mid (fst w)"
  shows "closed mid (fst w')"
proof (cases "an_messages (fst w') = an_messages (fst w)")
  case True
  then show ?thesis
    using assms(2) by (simp add: closed_def unique_messages_def)
next
  case False
  then have g: "grows rt (an_messages (fst w)) (an_messages (fst w'))"
    using assms message_step_shape [of S rt w w'] by (auto simp: closed_def analyst_step_def)
  then obtain old new where on: "an_messages (fst w') = old @ new" "list_all2 row_step (an_messages (fst w)) old"
      "\<forall>m\<in>set new. ms_message_id m \<notin> ms_message_id ` set (an_messages (fst w))"
    by (auto simp: grows_def)
  have ids: "ms_message_id ` set old = ms_message_id ` set (an_messages (fst w))"
    using row_steps_ids [OF on(2)] by (metis list.set_map)
  have "ms_status m' \<notin> {''PENDING_CONFIRMATION'', ''APPROVED''}" if m': "m' \<in> set old" "ms_message_id m' = mid" for m'
  proof -
    obtain m where m: "m \<in> set (an_messages (fst w))" "row_step m m'"
      using on(2) m'(1) by (rule old_rows)
    then have "ms_status m \<notin> {''PENDING_CONFIRMATION'', ''APPROVED''}"
      using assms(2) m'(2) row_step_id by (auto simp: closed_def)
    then show ?thesis
      using m(2) by (auto simp: row_step_def)
  qed
  moreover have "ms_message_id m \<noteq> mid" if "m \<in> set new" for m
    using that on(3) assms(2) by (auto simp: closed_def)
  moreover have "mid \<in> ms_message_id ` set old"
    using ids assms(2) by (simp add: closed_def)
  ultimately show ?thesis
    using on(1) grows_unique [OF g] assms(2) by (auto simp: closed_def unique_messages_def)
qed

interpretation closed_message: step_system "analyst_step S rt" "\<lambda>w. closed mid (fst w)" for S rt mid
  by unfold_locales (rule closed_step)

lemma closed_not_sent: "closed mid s \<Longrightarrow> sent_request mid s = None"
  by (cases "sent_request mid s") (auto simp: closed_def dest: sent_request_row)

section \<open>The sliding window\<close>

fun consume_all :: "(timestamp \<times> dimensions) list \<Rightarrow> limiter \<Rightarrow> (timestamp \<times> dimensions) list \<times> limiter" where
  "consume_all [] rl = ([], rl)"
| "consume_all ((now, dims) # calls) rl = (case consume now dims rl of
      (Inr True, rl1) \<Rightarrow> (case consume_all calls rl1 of (acc, rl2) \<Rightarrow> ((now, dims) # acc, rl2))
    | (_, rl1) \<Rightarrow> consume_all calls rl1)"

definition times_of :: "string \<times> string \<Rightarrow> (timestamp \<times> dimensions) list \<Rightarrow> timestamp list" where
  "times_of key acc = map fst (filter (\<lambda>c. key \<in> set (snd c)) acc)"

text \<open>Any \<open>n + 1\<close> consecutive times span at least the window.\<close>

definition spaced :: "timestamp \<Rightarrow> nat \<Rightarrow> timestamp list \<Rightarrow> bool" where
  "spaced window n ts = (\<forall>i. i + n < length ts \<longrightarrow> ts ! (i + n) - ts ! i \<ge> window)"

lemma consume_check_keeps:
  assumes "consume_check now dims rl = (r, rl1)"
  shows "rl_limits rl1 = rl_limits rl" "rl_window rl1 = rl_window rl"
    "rl_events rl1 key = rl_events rl key \<or> rl_events rl1 key = prune (rl_window rl) now (rl_events rl key)"
    "r = Inr True \<Longrightarrow> key \<in> set dims \<Longrightarrow> map_of (rl_limits rl) (fst key) = Some n \<Longrightarrow>
       rl_events rl1 key = prune (rl_window rl) now (rl_events rl key) \<and> length (rl_events rl1 key) < n"
proof -
  have pp: "prune w t (prune w t q) = prune w t q" for w t q
    by (simp add: prune_def dropWhile_idem)
  have "rl_limits rl1 = rl_limits rl \<and> rl_window rl1 = rl_window rl \<and>
    (rl_events rl1 key = rl_events rl key \<or> rl_events rl1 key = prune (rl_window rl) now (rl_events rl key)) \<and>
    (r = Inr True \<and> key \<in> set dims \<and> map_of (rl_limits rl) (fst key) = Some n \<longrightarrow>
       rl_events rl1 key = prune (rl_window rl) now (rl_events rl key) \<and> length (rl_events rl1 key) < n)"
    using assms
  proof (induction now dims rl arbitrary: r rl1 rule: consume_check.induct)
    case (2 now k dims rl)
    let ?q = "prune (rl_window rl) now (rl_events rl k)"
    let ?l = "rl\<lparr>rl_events := (rl_events rl)(k := ?q)\<rparr>"
    show ?case
    proof (cases "map_of (rl_limits rl) (fst k)")
      case None
      then show ?thesis
        using 2(2) by (auto simp: Let_def)
    next
      case (Some m)
      show ?thesis
      proof (cases "length ?q \<ge> m")
        case True
        then show ?thesis
          using 2(2) Some by (auto simp: Let_def)
      next
        case False
        then have rest: "consume_check now dims ?l = (r, rl1)"
          using 2(2) Some by (simp add: Let_def)
        note ih = 2(1) [OF HOL.refl HOL.refl Some False rest]
        show ?thesis
          using ih Some False pp [of "rl_window rl" now "rl_events rl k"] by (auto split: if_splits)
      qed
    qed
  qed simp
  then show "rl_limits rl1 = rl_limits rl" "rl_window rl1 = rl_window rl"
    "rl_events rl1 key = rl_events rl key \<or> rl_events rl1 key = prune (rl_window rl) now (rl_events rl key)"
    "r = Inr True \<Longrightarrow> key \<in> set dims \<Longrightarrow> map_of (rl_limits rl) (fst key) = Some n \<Longrightarrow>
       rl_events rl1 key = prune (rl_window rl) now (rl_events rl key) \<and> length (rl_events rl1 key) < n"
    by auto
qed

lemma consume_record_keeps:
  "distinct dims \<Longrightarrow> rl_limits (consume_record now dims rl) = rl_limits rl \<and> rl_window (consume_record now dims rl) = rl_window rl \<and>
   rl_events (consume_record now dims rl) key = (if key \<in> set dims then rl_events rl key @ [now] else rl_events rl key)"
  by (induction now dims rl rule: consume_record.induct) auto

text \<open>The queue of a key is what is left of its accepted times once expired ones have been taken off the front.\<close>

definition window_inv :: "timestamp \<Rightarrow> nat \<Rightarrow> timestamp \<Rightarrow> timestamp list \<Rightarrow> timestamp list \<Rightarrow> bool" where
  "window_inv window n now ts q = (spaced window n ts \<and> (\<exists>old. ts = old @ q \<and> (\<forall>t\<in>set old. now - t \<ge> window)))"

lemma window_inv_prune:
  assumes "window_inv window n clock ts q" "clock \<le> now"
  shows "window_inv window n now ts q" "window_inv window n now ts (prune window now q)"
proof -
  obtain old where old: "ts = old @ q" "\<forall>t\<in>set old. clock - t \<ge> window" "spaced window n ts"
    using assms(1) by (auto simp: window_inv_def)
  then have later: "\<forall>t\<in>set old. now - t \<ge> window"
    using assms(2) by force
  then show "window_inv window n now ts q"
    using old by (auto simp: window_inv_def)
  have "ts = (old @ takeWhile (\<lambda>t. now - t \<ge> window) q) @ prune window now q"
    using old(1) by (simp add: prune_def)
  moreover have "\<forall>t\<in>set (old @ takeWhile (\<lambda>t. now - t \<ge> window) q). now - t \<ge> window"
    using later by (auto dest: set_takeWhileD)
  ultimately show "window_inv window n now ts (prune window now q)"
    using old(3) unfolding window_inv_def by blast
qed

lemma window_inv_accept:
  assumes "window_inv window n now ts q" "length q < n"
  shows "window_inv window n now (ts @ [now]) (q @ [now])"
proof -
  obtain old where old: "ts = old @ q" "\<forall>t\<in>set old. now - t \<ge> window" "spaced window n ts"
    using assms(1) by (auto simp: window_inv_def)
  have "(ts @ [now]) ! (i + n) - (ts @ [now]) ! i \<ge> window" if i: "i + n < length (ts @ [now])" for i
  proof (cases "i + n < length ts")
    case True
    then show ?thesis
      using old(3) by (simp add: spaced_def nth_append)
  next
    case False
    then have "i + n = length ts" "i < length old"
      using i assms(2) old(1) by auto
    then show ?thesis
      using old(1,2) by (simp add: nth_append)
  qed
  then show ?thesis
    using old by (auto simp: window_inv_def spaced_def)
qed

lemma consume_all_window:
  assumes "consume_all calls rl = (acc, rl')" "sorted (clock # map fst calls)" "\<forall>c\<in>set calls. distinct (snd c)"
    "map_of (rl_limits rl) (fst key) = Some n" "window_inv (rl_window rl) n clock ts (rl_events rl key)"
  shows "spaced (rl_window rl) n (ts @ times_of key acc)"
  using assms
proof (induction calls arbitrary: rl acc clock ts)
  case Nil
  then show ?case
    by (simp add: times_of_def window_inv_def)
next
  case (Cons c calls)
  obtain now dims where c: "c = (now, dims)"
    by fastforce
  obtain r rl1 where check: "consume_check now dims rl = (r, rl1)"
    by fastforce
  note keeps = consume_check_keeps(1,2) [OF check]
  have now: "clock \<le> now" "sorted (now # map fst calls)" "distinct dims"
    using Cons.prems(2,3) by (auto simp: c)
  have w1: "window_inv (rl_window rl) n now ts (rl_events rl1 key)"
    using consume_check_keeps(3) [OF check, of key] window_inv_prune [OF Cons.prems(5) now(1)] by auto
  show ?case
  proof (cases "r = Inr True")
    case True
    let ?rl2 = "consume_record now dims rl1"
    note rec = consume_record_keeps [OF now(3), of now rl1 key]
    obtain acc' where acc: "consume_all calls ?rl2 = (acc', rl')" "acc = (now, dims) # acc'"
      using Cons.prems(1) True check by (auto simp: c consume_def split: prod.splits)
    let ?ts = "if key \<in> set dims then ts @ [now] else ts"
    have "window_inv (rl_window ?rl2) n now ?ts (rl_events ?rl2 key)"
      using w1 window_inv_accept consume_check_keeps(4) [OF check True _ Cons.prems(4)] rec keeps(2) by auto
    then have "spaced (rl_window rl) n (?ts @ times_of key acc')"
      using Cons.IH [OF acc(1) now(2)] Cons.prems(3,4) rec keeps(1,2) by simp
    then show ?thesis
      by (simp add: acc(2) times_of_def split: if_splits)
  next
    case False
    then have run: "consume_all calls rl1 = (acc, rl')"
      using Cons.prems(1) check by (auto simp: c consume_def split: sum.splits bool.splits)
    show ?thesis
      using Cons.IH [OF run now(2), of ts] Cons.prems(3,4) w1 keeps(1,2) by simp
  qed
qed

section \<open>What the platform control does\<close>

lemma list_ex_update: "list_ex P rows \<Longrightarrow> (\<And>r. P r \<Longrightarrow> Q (f r)) \<Longrightarrow> list_ex Q (update_where P f rows)"
  by (induction rows) (auto simp: update_where_def)

lemma platform_control_effect:
  assumes "platform_channel_route e True username reason s = (Inr (), s')"
  shows "channel_disabled cid s'"
proof -
  let ?hit = "\<lambda>c. cc_scope c = ''PLATFORM'' \<and> cc_case_id c = None"
  let ?set = "\<lambda>c. c\<lparr>cc_disabled := True, cc_changed_by := username, cc_reason := str_strip reason\<rparr>"
  have run: "set_channel_control e ''PLATFORM'' None True username (str_strip reason) s = (Inr (), s')"
    using assms by (auto simp: platform_channel_route_def route_answer_def run_tx_def split: prod.splits sum.splits)
  show ?thesis
  proof (cases "list_ex ?hit (an_controls s)")
    case True
    then have "an_controls s' = update_where ?hit ?set (an_controls s)"
      using run by (auto simp: set_channel_control_def Let_def)
    then show ?thesis
      using list_ex_update [OF True, of "\<lambda>c. controls_case cid c \<and> cc_disabled c" ?set]
      by (simp add: channel_disabled_def controls_case_def)
  next
    case False
    then show ?thesis
      using run by (auto simp: set_channel_control_def Let_def channel_disabled_def controls_case_def)
  qed
qed

section \<open>Idempotent directives\<close>

lemma submit_directive_ok:
  assumes "submit_directive isoformat e a s = (Inr r, s')"
  shows "find_directive (da_case_id a) (da_idempotency_key a) s = Some r \<and> s' = s \<or>
    find_directive (da_case_id a) (da_idempotency_key a) s = None \<and> an_directives s' = an_directives s @ [r] \<and>
    dr_case_id r = da_case_id a \<and> dr_idempotency_key r = da_idempotency_key a"
  using assms
  by (auto simp: submit_directive_def Let_def insert_directive_def directive_of_def
      split: sum.splits if_splits option.splits)

definition directive_seen :: "analyst \<Rightarrow> string \<times> string \<Rightarrow> bool" where
  "directive_seen s k = (find_directive (fst k) (snd k) s \<noteq> None)"

definition submit_keyed :: "analyst \<Rightarrow> string \<times> string \<Rightarrow> directive_args \<Rightarrow> (timestamp \<Rightarrow> string) \<times> env \<Rightarrow>
    (analyst_error svc_error + directive_row) \<times> analyst" where
  "submit_keyed s k a x = run_tx (submit_directive (fst x) (snd x) (a\<lparr>da_case_id := fst k, da_idempotency_key := snd k\<rparr>)) s"

lemma submit_keyed_ok:
  assumes "submit_keyed s k a x = (Inr r, t)"
  shows "find_directive (fst k) (snd k) t = Some r" "find_directive (fst k) (snd k) s \<noteq> None \<Longrightarrow> t = s"
    "directive_seen s k' \<Longrightarrow> directive_seen t k'"
  using submit_directive_ok [of "fst x" "snd x" "a\<lparr>da_case_id := fst k, da_idempotency_key := snd k\<rparr>" s r t] assms
  by (auto simp: submit_keyed_def run_tx_ok find_directive_def directive_seen_def split: option.splits)

lemma submit_keyed_error: "submit_keyed s k a x = (Inl e, t) \<Longrightarrow> t = s"
  unfolding submit_keyed_def by (rule run_tx_error)

interpretation directives: idempotent_store directive_seen submit_keyed Some "\<lambda>s k a. find_directive (fst k) (snd k) s"
proof
  fix s k a x r t assume run: "submit_keyed s k a x = (Inr r, t)"
  then show "directive_seen t k \<and> find_directive (fst k) (snd k) t = Some r"
    using submit_keyed_ok(1) by (simp add: directive_seen_def)
next
  fix s k a x q t assume seen: "directive_seen s k" and run: "submit_keyed s k a x = (q, t)"
  then show "t = s"
    using submit_keyed_ok(2) [of s k a x _ t] submit_keyed_error [of s k a x _ t]
    by (cases q) (auto simp: directive_seen_def)
next
  fix s k a x q t k' assume run: "submit_keyed s k a x = (q, t)" and seen: "directive_seen s k'"
  then show "directive_seen t k'"
    using submit_keyed_ok(3) [of s k a x _ t k'] submit_keyed_error [of s k a x _ t]
    by (cases q) auto
qed

section \<open>Properties\<close>


text \<open>C21. A message is sent at most once: after a delivery that asked the gateway has been
  committed, whatever its outcome, no delivery of that message asks it again, in any later state.\<close>

theorem analyst_message_sent_once:
  assumes "deliver_approved_message S limits h e mid (s, st) = (r, s', st')" "unique_messages s" "sent_request mid s = Some (m, req)"
    "(analyst_step S rt)\<^sup>*\<^sup>* (s', st') (t, st'')"
  shows "sent_request mid t = None"
proof -
  have run: "settle_delivery S limits h e m (ah_post h (ms_case_id m) req) (set_status mid ''SENT'' s, st) = (r, s', st')"
    using assms(1,3) by (simp add: deliver_asks [of S limits h])
  note row = sent_request_row [OF assms(3)]
  have rows: "list_all2 row_step (an_messages s) (an_messages s')"
    using deliver_rows [OF assms(1)] assms(2) by (simp add: unique_messages_def)
  then have ids: "map ms_message_id (an_messages s') = map ms_message_id (an_messages s)"
    by (rule row_steps_ids)
  have "ms_status q' \<notin> {''PENDING_CONFIRMATION'', ''APPROVED''}" if new: "q' \<in> set (an_messages s')" "ms_message_id q' = mid" for q'
  proof -
    obtain q where "q \<in> set (an_messages (set_status mid ''SENT'' s))" "settles (ms_message_id m) q q'"
      using list_all2_back [OF conjunct1 [OF settle_messages [OF run]] new(1)] by blast
    moreover from this have "ms_status q = ''SENT''"
      using row(2) new(2) by (auto simp: settles_def same_text_def set_status_def set_update_where split: if_splits)
    ultimately show ?thesis
      using row(2) by (auto simp: settles_def split: if_splits)
  qed
  moreover have "mid \<in> ms_message_id ` set (an_messages s')"
    using arg_cong [OF ids, of set] row(1,2) by auto
  ultimately have "closed mid s'"
    using ids assms(2) by (simp add: closed_def unique_messages_def)
  then have "closed mid t"
    using closed_message.steps_inv [OF assms(4)] by simp
  then show ?thesis
    by (rule closed_not_sent)
qed

text \<open>C22. The emergency stop works: once the platform control has been set to disabled, and
  until a control is changed again, nothing is sent for any message of any case, no message is
  created and none is confirmed.\<close>

theorem analyst_kill_switch:
  assumes "platform_channel_route e True username reason s = (Inr (), s')" "(message_step S rt)\<^sup>*\<^sup>* (s', st') (t, st)"
  shows "channel_disabled cid t \<and> sent_request mid t = None \<and> \<not> is_ok (fst (create_message e' a t)) \<and>
    confirm_message e' user cid mid hash t = (Inl (HTTPException 409 ''analyst direct-message channel is disabled''), t)"
proof -
  have "an_controls (fst w) = an_controls s'" if "(message_step S rt)\<^sup>*\<^sup>* (s', st') w" for w
    using that by (induction rule: rtranclp_induct) (auto dest: message_step_controls)
  then have "an_controls t = an_controls s'"
    using assms(2) by fastforce
  then have off: "channel_disabled c t" for c
    using platform_control_effect [OF assms(1), of c] by (simp add: channel_disabled_def)
  have "\<not> is_ok (fst (create_message e' a t))"
    using create_message_grows(3) [of e' a t] off
    by (metis is_okE prod.collapse)
  then show ?thesis
    using off by (simp add: sent_request_def confirm_message_def split: option.split)
qed

text \<open>C24. The sliding window holds: for calls in the order of their times, and every dimension and
  value, the accepted call number \<open>i + n\<close> comes at least the window after call number
  \<open>i\<close>, where \<open>n\<close> is the limit of the dimension; so no window ever holds more than
  \<open>n\<close> accepted calls.\<close>

theorem rate_limit_spacing:
  assumes "consume_all calls rl = (acc, rl')" "sorted (map fst calls)" "\<forall>c\<in>set calls. distinct (snd c)"
    "rl_events rl = (\<lambda>_. [])" "map_of (rl_limits rl) (fst key) = Some n"
  shows "spaced (rl_window rl) n (times_of key acc)"
proof (cases calls)
  case Nil
  then show ?thesis
    using assms(1) by (simp add: times_of_def spaced_def)
next
  case (Cons c cs)
  have "window_inv (rl_window rl) n (fst c) [] (rl_events rl key)"
    using assms(4) by (simp add: window_inv_def spaced_def)
  moreover have "sorted (fst c # map fst calls)"
    using assms(2) Cons by auto
  ultimately show ?thesis
    using consume_all_window [OF assms(1) _ assms(3,5)] by fastforce
qed

text \<open>A directive is submitted once per case and idempotency key: a later submission under the
  key, whatever else it asks for and whatever was submitted in between, changes nothing.\<close>

theorem directive_submitted_once:
  assumes "submit_keyed s k a x = (Inr r, t)"
  shows "snd (submit_keyed (directives.handle_all t later) k b y) = directives.handle_all t later"
  using assms by (rule directives.duplicate_no_effect)

text \<open>Messages are not refused for a case whose evidence is being verified: the check forbids
  only CONCLUDING, EXPORTED and DESTROYED, so a message on an active session of a case in
  EVIDENCE_VERIFYING, which follows CONCLUDING, is accepted like one of an engaged case.\<close>

theorem message_accepted_after_conclusion:
  assumes "preview_message rt (ma_case_id a) (ma_surface a) (ma_content a) = Inr p" "mp_preview_hash p = ma_preview_hash a"
    "\<not> channel_disabled (ma_case_id a) s" "ma_session_id a = Some sid" "sid \<noteq> []"
    "lookup_by case_id (cases (an_db s)) (ma_case_id a) = Some c" "case_state c = EVIDENCE_VERIFYING"
    "find (\<lambda>x. ss_session_id x = sid \<and> ss_case_id x = ma_case_id a) (an_sessions s) = Some x" "ss_status x = ''ACTIVE''"
    "find (\<lambda>p. po_decision_id p = ma_policy_decision_id a \<and> po_case_id p = ma_case_id a) (an_policies s) = Some d"
    "po_decision d \<in> set PERMITTING"
  shows "check_message rt a s = Inr (p, po_decision d)"
  using assms by (simp add: check_message_def sbind_def given_def)

section \<open>Witnesses\<close>

definition example_analyst :: "case_state \<Rightarrow> analyst" where
  "example_analyst st = \<lparr>an_ledger = example_ledger\<lparr>
       el_db := empty_db\<lparr>
         cases := [\<lparr>case_id = example_case, case_state = st, case_version = 5, severity = ''HIGH'', owner = None, correlation_key = None, updated_at = 0\<rparr>],
         sandboxes := [\<lparr>sb_sandbox_id = ''SB'', sb_case_id = example_case, sb_image_id = ''img'', sb_state_version = 3, sb_network_identity = None\<rparr>]\<rparr>,
       el_sessions := [\<lparr>ss_session_id = ''SE'', ss_case_id = example_case, ss_sandbox_id = Some ''SB'', ss_status = ''ACTIVE''\<rparr>]\<rparr>,
     an_policies = [\<lparr>po_decision_id = ''P'', po_case_id = example_case, po_decision = ''ALLOW''\<rparr>],
     an_directives = [], an_messages = [], an_controls = [], an_phases = []\<rparr>"

definition example_args :: message_args where
  "example_args = \<lparr>ma_case_id = example_case, ma_session_id = Some ''SE'', ma_author_id = ''alice'',
     ma_content = ''  Your session is concluded. '', ma_surface = ''DECOY_WEB_CHAT'', ma_preview_hash = replicate 64 (CHR ''a''),
     ma_policy_decision_id = ''P'', ma_idempotency_key = ''k''\<rparr>"

definition example_mid :: string where
  "example_mid = env_ids (example_env 0) 0"

definition example_created :: analyst where
  "example_created = snd (run_tx (create_message (example_env 0) example_args) (example_analyst ENGAGING))"

definition example_confirmed :: analyst where
  "example_confirmed = snd (confirm_message (example_env 3) ''alice'' example_case example_mid (replicate 64 (CHR ''a'')) example_created)"

definition example_message :: message_row where
  "example_message = \<lparr>ms_message_id = example_mid, ms_case_id = example_case, ms_session_id = Some ''SE'', ms_author_id = ''alice'',
     ms_content = ''Your session is concluded.'', ms_surface = ''DECOY_WEB_CHAT'', ms_preview_hash = replicate 64 (CHR ''a''),
     ms_confirmation_required = True, ms_confirmed_at = Some 1000, ms_policy_decision_id = ''P'', ms_status = ''APPROVED'',
     ms_delivered_at = None, ms_response_event_ids = [], ms_evidence_id = None, ms_idempotency_key = ''k''\<rparr>"

text \<open>A sensitive message is stored pending, and sent once its author has confirmed it.\<close>

lemma example_not_sent: "sent_request example_mid example_created = None"
  by code_simp

lemma example_sent: "sent_request example_mid example_confirmed = Some (example_message, delivery_request example_message ''SB'' 3)"
  by code_simp

lemma example_steps:
  "(analyst_step MemoryObjectStore (env_rt (example_env 0)))\<^sup>*\<^sup>* (example_analyst ENGAGING, example_store) (example_confirmed, example_store)"
proof -
  have "message_step MemoryObjectStore (env_rt (example_env 0)) (example_analyst ENGAGING, example_store) (example_created, example_store)"
    unfolding example_created_def by (rule message_step.create [of "example_env 0"], rule prod.collapse [symmetric]) simp
  moreover have "message_step MemoryObjectStore (env_rt (example_env 0)) (example_created, example_store) (example_confirmed, example_store)"
    unfolding example_confirmed_def by (rule message_step.confirm, rule prod.collapse [symmetric])
  ultimately show ?thesis
    by (meson analyst_step_def rtranclp.rtrancl_into_rtrancl rtranclp.rtrancl_refl)
qed


definition example_host :: host where
  "example_host = \<lparr>ah_isoformat = (\<lambda>_. ''2026-01-01T00:00:00+00:00''), ah_dumps = (\<lambda>_. ''{}''),
     ah_post = (\<lambda>_ _. Inr (JObj [(''status'', JStr ''FAILED''), (''action_id'', JStr ''A'')]))\<rparr>"

definition example_delivered :: "(analyst_error svc_error + json) \<times> analyst \<times> memory_store" where
  "example_delivered = deliver_approved_message MemoryObjectStore [] example_host (example_env 4) example_mid (example_confirmed, example_store)"

theorem analyst_message_sent_once_witness:
  "sent_request example_mid example_confirmed \<noteq> None \<and> is_ok (fst example_delivered) \<and> sent_request example_mid (fst (snd example_delivered)) = None"
proof -
  have ok: "is_ok (fst example_delivered)"
    by code_simp
  have unique: "unique_messages example_confirmed"
    by code_simp
  have run: "deliver_approved_message MemoryObjectStore [] example_host (example_env 4) example_mid (example_confirmed, example_store) =
      (fst example_delivered, fst (snd example_delivered), snd (snd example_delivered))"
    by (simp add: example_delivered_def)
  from analyst_message_sent_once [OF run unique example_sent rtranclp.rtrancl_refl] show ?thesis
    using ok by (simp add: example_sent)
qed

definition example_stopped :: analyst where
  "example_stopped = snd (platform_channel_route (example_env 5) True ''alice'' ''stop'' example_confirmed)"

theorem analyst_kill_switch_witness:
  "sent_request example_mid example_confirmed \<noteq> None \<and> sent_request example_mid example_stopped = None \<and>
   \<not> is_ok (fst (create_message (example_env 6) example_args example_stopped))"
proof -
  have "fst (platform_channel_route (example_env 5) True ''alice'' ''stop'' example_confirmed) = Inr ()"
    by code_simp
  then have "platform_channel_route (example_env 5) True ''alice'' ''stop'' example_confirmed = (Inr (), example_stopped)"
    by (simp add: example_stopped_def prod_eq_iff)
  from analyst_kill_switch [OF this rtranclp.rtrancl_refl] show ?thesis
    by (simp add: example_sent)
qed

theorem rate_limit_spacing_witness:
  "times_of (''k'', ''v'') (fst (consume_all [(0, [(''k'', ''v'')]), (4, [(''k'', ''v'')]), (12, [(''k'', ''v'')])]
     \<lparr>rl_limits = [(''k'', 1)], rl_window = 10, rl_events = (\<lambda>_. [])\<rparr>)) = [0, 12] \<and> spaced 10 1 [0, 12]"
proof -
  let ?rl = "\<lparr>rl_limits = [(''k'', 1)], rl_window = 10, rl_events = (\<lambda>_. [])\<rparr>"
  let ?calls = "[(0, [(''k'', ''v'')]), (4, [(''k'', ''v'')]), (12, [(''k'', ''v'')])]"
  have "times_of (''k'', ''v'') (fst (consume_all ?calls ?rl)) = [0, 12]"
    by (simp add: consume_def prune_def times_of_def Let_def)
  then show ?thesis
    using rate_limit_spacing [of ?calls ?rl "fst (consume_all ?calls ?rl)" "snd (consume_all ?calls ?rl)" "(''k'', ''v'')" 1] by simp
qed

theorem message_accepted_after_conclusion_witness:
  "\<exists>p. check_message (env_rt (example_env 0)) example_args (example_analyst EVIDENCE_VERIFYING) = Inr (p, ''ALLOW'')"
proof -
  let ?s = "example_analyst EVIDENCE_VERIFYING"
  let ?rt = "env_rt (example_env 0)"
  let ?p = "\<lparr>mp_case_id = example_case, mp_surface = ''DECOY_WEB_CHAT'', mp_content = ''Your session is concluded.'',
     mp_preview_hash = replicate 64 (CHR ''a''), mp_confirmation_required = True\<rparr>"
  have "preview_message ?rt (ma_case_id example_args) (ma_surface example_args) (ma_content example_args) = Inr ?p"
    by code_simp
  from message_accepted_after_conclusion [OF this, of ?s "''SE''"] show ?thesis
    by (simp add: example_args_def example_analyst_def an_db_def an_sessions_def channel_disabled_def PERMITTING_def)
qed

definition directive_env :: env where
  "directive_env = (sample_env [''analyst.directive''])\<lparr>
     env_rt := env_rt (example_env 0), env_ids := env_ids (example_env 0)\<rparr>"

definition example_directive :: directive_args where
  "example_directive = \<lparr>da_case_id = example_case, da_session_id = Some ''SE'', da_objective = ''keep the attacker on the file share'',
     da_priority = ''HIGH'', da_created_by = ''alice'', da_expires_at = None, da_idempotency_key = ''k''\<rparr>"

lemma example_directive_published:
  assumes "outbox d = []"
  shows "is_ok (publish_validated directive_env 1
    (directive_args_of isoformat (directive_of example_mid ''keep the attacker on the file share'' 1000 example_directive)) d :: analyst_error svc_error + db)"
proof -
  let ?a = "directive_args_of isoformat (directive_of example_mid ''keep the attacker on the file share'' 1000 example_directive)"
  have "subject_for_event_type ''analyst.directive'' = Inr ''analyst.directive''"
    by code_simp
  moreover have "length (canonical_json_bytes (\<lambda>_. ''0.5'') (be_payload (directive_args_of (\<lambda>_. [])
      (directive_of example_mid ''keep the attacker on the file share'' 1000 example_directive)))) \<le> 900"
    by code_simp
  moreover have "be_payload ?a = be_payload (directive_args_of (\<lambda>_. []) (directive_of example_mid ''keep the attacker on the file share'' 1000 example_directive))"
    by (simp add: directive_args_of_def directive_of_def example_directive_def)
  moreover have "be_event_type ?a = ''analyst.directive''" "be_event_id ?a = None" "be_schema_version ?a = ''1.0''"
    by (simp_all add: directive_args_of_def)
  ultimately have "publishable directive_env 1 ?a d"
    using assms by (auto simp: publishable_def py_or_def directive_env_def example_env_def sample_env_def MAX_PAYLOAD_BYTES_def is_ok_def intro!: sample_accepts)
  from publishable_ok [OF this, where 'a = analyst_error] show ?thesis
    by (auto simp: is_ok_def)
qed

lemma example_directive_stored:
  obtains r t where "submit_keyed (example_analyst ENGAGING) (example_case, ''k'') example_directive (isoformat, directive_env) = (Inr r, t)"
    "an_directives t = [r]"
proof -
  let ?s = "example_analyst ENGAGING"
  have obj: "validate_objective ''keep the attacker on the file share'' = Inr ''keep the attacker on the file share''"
    by code_simp
  have env: "env_ids directive_env 0 = example_mid" "env_now directive_env = 1000"
    by (simp_all add: directive_env_def example_mid_def example_env_def sample_env_def)
  let ?r = "directive_of example_mid ''keep the attacker on the file share'' 1000 example_directive"
  have row: "dr_case_id ?r = example_case" "dr_session_id ?r = Some ''SE''" "dr_directive_id ?r = example_mid"
    by (simp_all add: directive_of_def example_directive_def)
  have "canonical_ulid example_mid"
    by code_simp
  then have ins: "insert_directive ?r ?s = (Inr (?s\<lparr>an_directives := [?r]\<rparr>) :: analyst_error svc_error + analyst)"
    using row by (simp add: insert_directive_def known_case_def known_session_def an_db_def an_sessions_def example_analyst_def)
  have empty: "outbox (an_db (audit_analyst x1 x2 x3 x4 x5 x6 (?s\<lparr>an_directives := [?r]\<rparr>))) = []" for x1 x2 x3 x4 x5 x6
    by (simp add: audit_analyst_def with_db_def an_db_def insert_audit_def example_analyst_def empty_db_def)
  have known: "known_case example_case ?s" "find_directive example_case ''k'' ?s = None"
    by (simp_all add: known_case_def an_db_def find_directive_def example_analyst_def)
  have args: "example_directive\<lparr>da_case_id := example_case, da_idempotency_key := ''k''\<rparr> = example_directive"
    "da_case_id example_directive = example_case" "da_idempotency_key example_directive = ''k''" "da_priority example_directive = ''HIGH''"
    "da_objective example_directive = ''keep the attacker on the file share''" "da_expires_at example_directive = None"
    by (simp_all add: example_directive_def)
  obtain d where pub: "publish_validated directive_env 1 (directive_args_of isoformat ?r)
      (an_db (audit_analyst (da_created_by example_directive) ''analyst.directive.submitted'' example_mid ''SUCCESS'' example_mid
        ''keep the attacker on the file share'' (?s\<lparr>an_directives := [?r]\<rparr>))) = (Inr d :: analyst_error svc_error + db)"
    using example_directive_published [OF empty] by (meson is_okE)
  show ?thesis
    by (rule that [of ?r "with_db d (audit_analyst (da_created_by example_directive) ''analyst.directive.submitted'' example_mid ''SUCCESS''
        example_mid ''keep the attacker on the file share'' (?s\<lparr>an_directives := [?r]\<rparr>))"])
      (simp_all add: submit_keyed_def run_tx_def submit_directive_def args obj env known ins row pub Let_def del: One_nat_def)
qed

theorem directive_submitted_once_witness:
  "\<exists>r t. submit_keyed (example_analyst ENGAGING) (example_case, ''k'') example_directive (\<lambda>_. [], directive_env) = (Inr r, t) \<and>
    an_directives t = [r] \<and>
    snd (submit_keyed t (example_case, ''k'') (example_directive\<lparr>da_priority := ''LOW''\<rparr>) (\<lambda>_. [], directive_env)) = t"
proof -
  obtain r t where ok: "submit_keyed (example_analyst ENGAGING) (example_case, ''k'') example_directive (\<lambda>_. [], directive_env) = (Inr r, t)"
      "an_directives t = [r]"
    by (rule example_directive_stored)
  then show ?thesis
    using directive_submitted_once [OF ok(1), of "[]" "example_directive\<lparr>da_priority := ''LOW''\<rparr>" "(\<lambda>_. [], directive_env)"] by auto
qed

end
