(* ===== verification/Mirage_Teardown.thy ===== *)
theory Mirage_Teardown
  imports Mirage_Prelude "HOL-Library.Sublist"
begin

text \<open>
  \<^verbatim>\<open>libs/mirage_common/teardown.py\<close>: the ordered teardown of a case. A run works
  through the steps, writes its journal after each one and stops at the first
  step that fails; the next run reads the journal and goes on from there. The
  cloud is an \<open>adapter\<close> (inventory and deactivation, and the fault the local one
  injects); \<open>LocalCloudAdapter\<close> and the AWS adapter are instances. The journal is kept as
  the data its JSON file holds; \<open>now\<close> gives the successive readings of the clock.
\<close>

datatype td_step =
    block_analyst_directives | block_direct_messages | block_ai_mutations | block_artifact_deployments
  | mark_case_concluding | drain_queues | record_remaining_gaps | capture_final_snapshot | capture_final_fingerprint
  | verify_required_evidence | generate_final_report | generate_final_manifest | sign_report_and_manifest
  | independently_verify_export | revoke_sandbox_certificate | revoke_temporary_agent_certificates
  | terminate_sandbox_sessions | destroy_sandbox | remove_temporary_compute_and_volumes
  | remove_temporary_credentials_and_tokens | remove_temporary_public_endpoints | preserve_evidence_resources
  | run_inventory | confirm_no_disallowed_resources | mark_case_destroyed

definition TEARDOWN_STEPS :: "td_step list" where
  "TEARDOWN_STEPS =
     [block_analyst_directives, block_direct_messages, block_ai_mutations, block_artifact_deployments,
      mark_case_concluding, drain_queues, record_remaining_gaps, capture_final_snapshot, capture_final_fingerprint,
      verify_required_evidence, generate_final_report, generate_final_manifest, sign_report_and_manifest,
      independently_verify_export, revoke_sandbox_certificate, revoke_temporary_agent_certificates,
      terminate_sandbox_sessions, destroy_sandbox, remove_temporary_compute_and_volumes,
      remove_temporary_credentials_and_tokens, remove_temporary_public_endpoints, preserve_evidence_resources,
      run_inventory, confirm_no_disallowed_resources, mark_case_destroyed]"

primrec step_name :: "td_step \<Rightarrow> string" where
  "step_name block_analyst_directives = ''block_analyst_directives''"
| "step_name block_direct_messages = ''block_direct_messages''"
| "step_name block_ai_mutations = ''block_ai_mutations''"
| "step_name block_artifact_deployments = ''block_artifact_deployments''"
| "step_name mark_case_concluding = ''mark_case_concluding''"
| "step_name drain_queues = ''drain_queues''"
| "step_name record_remaining_gaps = ''record_remaining_gaps''"
| "step_name capture_final_snapshot = ''capture_final_snapshot''"
| "step_name capture_final_fingerprint = ''capture_final_fingerprint''"
| "step_name verify_required_evidence = ''verify_required_evidence''"
| "step_name generate_final_report = ''generate_final_report''"
| "step_name generate_final_manifest = ''generate_final_manifest''"
| "step_name sign_report_and_manifest = ''sign_report_and_manifest''"
| "step_name independently_verify_export = ''independently_verify_export''"
| "step_name revoke_sandbox_certificate = ''revoke_sandbox_certificate''"
| "step_name revoke_temporary_agent_certificates = ''revoke_temporary_agent_certificates''"
| "step_name terminate_sandbox_sessions = ''terminate_sandbox_sessions''"
| "step_name destroy_sandbox = ''destroy_sandbox''"
| "step_name remove_temporary_compute_and_volumes = ''remove_temporary_compute_and_volumes''"
| "step_name remove_temporary_credentials_and_tokens = ''remove_temporary_credentials_and_tokens''"
| "step_name remove_temporary_public_endpoints = ''remove_temporary_public_endpoints''"
| "step_name preserve_evidence_resources = ''preserve_evidence_resources''"
| "step_name run_inventory = ''run_inventory''"
| "step_name confirm_no_disallowed_resources = ''confirm_no_disallowed_resources''"
| "step_name mark_case_destroyed = ''mark_case_destroyed''"

datatype td_exc = TeardownBlocked string | TdValueError string | TdRuntimeError string | TdIndexError string

definition td_detail :: "td_exc \<Rightarrow> string" where
  "td_detail x = (case x of
      TeardownBlocked s \<Rightarrow> ''TeardownBlocked: '' @ s | TdValueError s \<Rightarrow> ''ValueError: '' @ s
    | TdRuntimeError s \<Rightarrow> ''RuntimeError: '' @ s | TdIndexError s \<Rightarrow> ''IndexError: '' @ s)"

record cloud_resource =
  cr_resource_id :: string
  cr_project :: string
  cr_environment :: string
  cr_case_id :: "string option"
  cr_resource_type :: string
  cr_temporary :: bool
  cr_protected_evidence :: bool
  cr_active :: bool

record gap_override =
  ov_reason :: string
  ov_missing_items :: "string list"
  ov_actor :: string
  ov_policy_decision_id :: string
  ov_policy_allows :: bool

definition validate_override :: "gap_override \<Rightarrow> td_exc option" where
  "validate_override v =
     (if str_strip (ov_reason v) = [] \<or> ov_missing_items v = [] \<or> str_strip (ov_actor v) = []
      then Some (TdValueError ''override requires reason, missing items, and actor'')
      else if ov_policy_decision_id v = [] \<or> \<not> ov_policy_allows v
      then Some (TdValueError ''override requires an ALLOW policy decision'')
      else None)"

section \<open>Adapters\<close>

record 'a adapter =
  ad_inventory :: "'a \<Rightarrow> string \<Rightarrow> string \<Rightarrow> string option \<Rightarrow> td_exc + cloud_resource list"
  ad_deactivate :: "'a \<Rightarrow> string \<Rightarrow> td_exc + 'a"
  ad_maybe_fail :: "'a \<Rightarrow> td_step \<Rightarrow> td_exc option \<times> 'a"

definition check_filters :: "string \<Rightarrow> string \<Rightarrow> td_exc option" where
  "check_filters project environment =
     (if project \<noteq> ''mirage'' \<or> environment = []
      then Some (TdValueError ''exact Project=mirage and Environment filters are required'') else None)"

definition in_scope :: "string \<Rightarrow> string \<Rightarrow> string option \<Rightarrow> cloud_resource \<Rightarrow> bool" where
  "in_scope project environment cid r =
     (cr_active r \<and> cr_project r = project \<and> cr_environment r = environment \<and> (cid = None \<or> cr_case_id r = cid))"

record local_cloud =
  lc_resources :: "(string \<times> cloud_resource) list"
  lc_fail_once_at :: "td_step option"
  lc_failed :: bool

definition local_cloud_of :: "cloud_resource list \<Rightarrow> td_step option \<Rightarrow> local_cloud" where
  "local_cloud_of rs fail_at =
     \<lparr>lc_resources = foldl (\<lambda>d r. AList.update (cr_resource_id r) r d) [] rs, lc_fail_once_at = fail_at, lc_failed = False\<rparr>"

definition local_inventory :: "local_cloud \<Rightarrow> string \<Rightarrow> string \<Rightarrow> string option \<Rightarrow> td_exc + cloud_resource list" where
  "local_inventory a project environment cid =
     (case check_filters project environment of
        Some x \<Rightarrow> Inl x | None \<Rightarrow> Inr (filter (in_scope project environment cid) (map snd (lc_resources a))))"

definition local_deactivate :: "local_cloud \<Rightarrow> string \<Rightarrow> td_exc + local_cloud" where
  "local_deactivate a rid =
     Inr (a\<lparr>lc_resources := map (\<lambda>(k, r). (k, if k = rid then r\<lparr>cr_active := False\<rparr> else r)) (lc_resources a)\<rparr>)"

definition local_maybe_fail :: "local_cloud \<Rightarrow> td_step \<Rightarrow> td_exc option \<times> local_cloud" where
  "local_maybe_fail a step =
     (if lc_fail_once_at a = Some step \<and> \<not> lc_failed a
      then (Some (TdRuntimeError (''injected interruption at '' @ step_name step)), a\<lparr>lc_failed := True\<rparr>)
      else (None, a))"

definition LocalCloudAdapter :: "local_cloud adapter" where
  "LocalCloudAdapter = \<lparr>ad_inventory = local_inventory, ad_deactivate = local_deactivate, ad_maybe_fail = local_maybe_fail\<rparr>"

text \<open>The tagging API answers a filter with pages of (ARN, tags); that answer is a parameter.\<close>

type_synonym tag_api = "(string \<times> string) list \<Rightarrow> (string \<times> (string \<times> string) list) list list"

definition tag_of :: "(string \<times> string) list \<Rightarrow> string \<Rightarrow> string option" where
  "tag_of tags k = map_of (rev tags) k"

definition aws_resource :: "string \<times> (string \<times> string) list \<Rightarrow> td_exc + cloud_resource" where
  "aws_resource x = (case x of (arn, tags) \<Rightarrow>
     if length (split_on (CHR '':'') arn) < 3 then Inl (TdIndexError ''list index out of range'')
     else Inr \<lparr>cr_resource_id = arn, cr_project = (case tag_of tags ''Project'' of None \<Rightarrow> [] | Some p \<Rightarrow> p),
        cr_environment = (case tag_of tags ''Environment'' of None \<Rightarrow> [] | Some p \<Rightarrow> p), cr_case_id = tag_of tags ''CaseId'',
        cr_resource_type = split_on (CHR '':'') arn ! 2,
        cr_temporary = (str_lower (case tag_of tags ''Temporary'' of None \<Rightarrow> ''true'' | Some p \<Rightarrow> p) = ''true''),
        cr_protected_evidence = (tag_of tags ''EvidenceRetention'' = Some ''protected''), cr_active = True\<rparr>)"

fun aws_resources :: "(string \<times> (string \<times> string) list) list \<Rightarrow> td_exc + cloud_resource list" where
  "aws_resources [] = Inr []"
| "aws_resources (x # xs) = sbind (aws_resource x) (\<lambda>r. sbind (aws_resources xs) (\<lambda>rs. Inr (r # rs)))"

definition aws_inventory :: "tag_api \<Rightarrow> string \<Rightarrow> string \<Rightarrow> string option \<Rightarrow> td_exc + cloud_resource list" where
  "aws_inventory api project environment cid =
     (case check_filters project environment of
        Some x \<Rightarrow> Inl x
      | None \<Rightarrow> aws_resources (concat (api ([(''Project'', project), (''Environment'', environment)] @
                  (case cid of None \<Rightarrow> [] | Some c \<Rightarrow> if c = [] then [] else [(''CaseId'', c)])))))"

definition aws_deactivate :: "tag_api \<Rightarrow> string \<Rightarrow> td_exc + tag_api" where
  "aws_deactivate api rid = Inl (TeardownBlocked (''AWS resource destruction requires the service-specific Profile B adapter; '' @
     ''no broad delete was attempted for '' @ rid))"

definition AwsCloudAdapter :: "tag_api adapter" where
  "AwsCloudAdapter = \<lparr>ad_inventory = aws_inventory, ad_deactivate = aws_deactivate, ad_maybe_fail = (\<lambda>a s. (None, a))\<rparr>"

section \<open>The workflow\<close>

datatype td_audit = EvidenceGapDetected | EvidenceGapOverride gap_override

record td_state =
  ts_case_state :: string
  ts_directives_allowed :: bool
  ts_messages_allowed :: bool
  ts_ai_mutations_allowed :: bool
  ts_artifact_deployments_allowed :: bool
  ts_revoked_identities :: "string set"
  ts_audit :: "td_audit list"

definition initial_state :: td_state where
  "initial_state = \<lparr>ts_case_state = ''ENGAGING'', ts_directives_allowed = True, ts_messages_allowed = True,
     ts_ai_mutations_allowed = True, ts_artifact_deployments_allowed = True, ts_revoked_identities = {}, ts_audit = []\<rparr>"

record td_entry =
  te_number :: nat
  te_step :: td_step
  te_started_at :: string
  te_ended_at :: string
  te_result :: string
  te_detail :: string

record td_journal =
  tj_entries :: "td_entry list"
  tj_state :: td_state

record td_config =
  tc_environment :: string
  tc_case_id :: string
  tc_required_evidence_verified :: bool
  tc_export_verified :: bool
  tc_queue_drain_succeeds :: bool
  tc_final_snapshot_succeeds :: bool
  tc_certificate_revocation_succeeds :: bool
  tc_inventory_complete :: bool
  tc_override :: "gap_override option"

definition removable :: "cloud_resource \<Rightarrow> bool" where
  "removable r = (cr_temporary r \<and> \<not> cr_protected_evidence r)"

definition case_inventory :: "'a adapter \<Rightarrow> td_config \<Rightarrow> 'a \<Rightarrow> td_exc + cloud_resource list" where
  "case_inventory A c a = ad_inventory A a ''mirage'' (tc_environment c) (Some (tc_case_id c))"

record td_plan =
  tp_protected :: "cloud_resource list"
  tp_temporary :: "cloud_resource list"
  tp_steps :: "(nat \<times> td_step) list"

definition plan :: "'a adapter \<Rightarrow> td_config \<Rightarrow> 'a \<Rightarrow> td_exc + td_plan" where
  "plan A c a = sbind (case_inventory A c a) (\<lambda>listed.
     Inr \<lparr>tp_protected = filter cr_protected_evidence listed, tp_temporary = filter removable listed,
          tp_steps = zip [1..<26] TEARDOWN_STEPS\<rparr>)"

fun removal_types :: "td_step \<Rightarrow> string set" where
  "removal_types destroy_sandbox = {''sandbox''}"
| "removal_types remove_temporary_compute_and_volumes = {''compute'', ''volume''}"
| "removal_types remove_temporary_credentials_and_tokens = {''credential'', ''token''}"
| "removal_types remove_temporary_public_endpoints = {''public_endpoint''}"
| "removal_types _ = {}"

fun deactivate_all :: "'a adapter \<Rightarrow> cloud_resource list \<Rightarrow> 'a \<Rightarrow> td_exc option \<times> 'a" where
  "deactivate_all A [] a = (None, a)"
| "deactivate_all A (r # rs) a =
     (case ad_deactivate A a (cr_resource_id r) of Inl x \<Rightarrow> (Some x, a) | Inr a' \<Rightarrow> deactivate_all A rs a')"

definition guard_step :: "bool \<Rightarrow> string \<Rightarrow> 'a \<Rightarrow> td_state \<Rightarrow> (td_exc + string) \<times> 'a \<times> td_state" where
  "guard_step ok msg a s = (if ok then Inr ''completed'' else Inl (TeardownBlocked msg), a, s)"

definition remove_step :: "'a adapter \<Rightarrow> td_config \<Rightarrow> td_step \<Rightarrow> 'a \<Rightarrow> td_state \<Rightarrow> (td_exc + string) \<times> 'a \<times> td_state" where
  "remove_step A c step a s =
     (case case_inventory A c a of
        Inl x \<Rightarrow> (Inl x, a, s)
      | Inr listed \<Rightarrow>
          (case deactivate_all A (filter (\<lambda>r. cr_resource_type r \<in> removal_types step \<and> removable r) listed) a of
             (Some x, a') \<Rightarrow> (Inl x, a', s) | (None, a') \<Rightarrow> (Inr ''completed'', a', s)))"

definition inventory_step :: "'a adapter \<Rightarrow> td_config \<Rightarrow> (cloud_resource list \<Rightarrow> td_exc option) \<Rightarrow> 'a \<Rightarrow> td_state \<Rightarrow>
    (td_exc + string) \<times> 'a \<times> td_state" where
  "inventory_step A c test a s =
     (case case_inventory A c a of
        Inl x \<Rightarrow> (Inl x, a, s)
      | Inr listed \<Rightarrow> (case test listed of Some x \<Rightarrow> (Inl x, a, s) | None \<Rightarrow> (Inr ''completed'', a, s)))"

definition record_gaps :: "td_config \<Rightarrow> 'a \<Rightarrow> td_state \<Rightarrow> (td_exc + string) \<times> 'a \<times> td_state" where
  "record_gaps c a s =
     (if tc_required_evidence_verified c then (Inr ''completed'', a, s)
      else case tc_override c of
        None \<Rightarrow> (Inr ''completed'', a, s\<lparr>ts_audit := ts_audit s @ [EvidenceGapDetected]\<rparr>)
      | Some v \<Rightarrow> (case validate_override v of
                     Some x \<Rightarrow> (Inl x, a, s)
                   | None \<Rightarrow> (Inr ''completed'', a, s\<lparr>ts_audit := ts_audit s @ [EvidenceGapOverride v]\<rparr>)))"

definition revoke_step :: "td_config \<Rightarrow> string \<Rightarrow> 'a \<Rightarrow> td_state \<Rightarrow> (td_exc + string) \<times> 'a \<times> td_state" where
  "revoke_step c identity a s =
     (if \<not> tc_certificate_revocation_succeeds c then (Inl (TeardownBlocked ''certificate revocation failed''), a, s)
      else (Inr ''completed'', a, s\<lparr>ts_revoked_identities := insert identity (ts_revoked_identities s)\<rparr>))"

definition apply_step :: "'a adapter \<Rightarrow> td_config \<Rightarrow> td_step \<Rightarrow> 'a \<Rightarrow> td_state \<Rightarrow> (td_exc + string) \<times> 'a \<times> td_state" where
  "apply_step A c step a s = (case step of
      block_analyst_directives \<Rightarrow> (Inr ''new operation blocked'', a, s\<lparr>ts_directives_allowed := False\<rparr>)
    | block_direct_messages \<Rightarrow> (Inr ''new operation blocked'', a, s\<lparr>ts_messages_allowed := False\<rparr>)
    | block_ai_mutations \<Rightarrow> (Inr ''new operation blocked'', a, s\<lparr>ts_ai_mutations_allowed := False\<rparr>)
    | block_artifact_deployments \<Rightarrow> (Inr ''new operation blocked'', a, s\<lparr>ts_artifact_deployments_allowed := False\<rparr>)
    | mark_case_concluding \<Rightarrow> (Inr ''completed'', a, s\<lparr>ts_case_state := ''CONCLUDING''\<rparr>)
    | drain_queues \<Rightarrow> guard_step (tc_queue_drain_succeeds c) ''queue drain failed'' a s
    | record_remaining_gaps \<Rightarrow> record_gaps c a s
    | capture_final_snapshot \<Rightarrow> guard_step (tc_final_snapshot_succeeds c) ''final snapshot failed'' a s
    | verify_required_evidence \<Rightarrow>
        guard_step (tc_required_evidence_verified c \<or> tc_override c \<noteq> None) ''required evidence is not VERIFIED'' a s
    | independently_verify_export \<Rightarrow> guard_step (tc_export_verified c) ''independent export verification failed'' a s
    | revoke_sandbox_certificate \<Rightarrow> revoke_step c ''sandbox-cert'' a s
    | revoke_temporary_agent_certificates \<Rightarrow> revoke_step c ''agent-cert'' a s
    | preserve_evidence_resources \<Rightarrow>
        inventory_step A c (\<lambda>listed. if filter cr_protected_evidence listed = []
          then Some (TeardownBlocked ''protected evidence allowlist is empty'') else None) a s
    | run_inventory \<Rightarrow> guard_step (tc_inventory_complete c) ''resource inventory is incomplete'' a s
    | confirm_no_disallowed_resources \<Rightarrow>
        inventory_step A c (\<lambda>listed. if filter removable listed \<noteq> []
          then Some (TeardownBlocked (''temporary resources remain: '' @ str_join '','' (map cr_resource_id (filter removable listed))))
          else None) a s
    | mark_case_destroyed \<Rightarrow> (Inr ''completed'', a, s\<lparr>ts_case_state := ''DESTROYED''\<rparr>)
    | _ \<Rightarrow> if removal_types step \<noteq> {} then remove_step A c step a s else (Inr ''completed'', a, s))"

text \<open>One step with its exceptions: the entry's result and detail.\<close>

definition attempt :: "'a adapter \<Rightarrow> td_config \<Rightarrow> td_step \<Rightarrow> 'a \<Rightarrow> td_state \<Rightarrow> (string \<times> string) \<times> 'a \<times> td_state" where
  "attempt A c step a s =
     (case ad_maybe_fail A a step of
        (Some x, a1) \<Rightarrow> ((''BLOCKED'', td_detail x), a1, s)
      | (None, a1) \<Rightarrow>
          (case apply_step A c step a1 s of
             (Inl x, a2, s2) \<Rightarrow> ((''BLOCKED'', td_detail x), a2, s2)
           | (Inr detail, a2, s2) \<Rightarrow> ((''PASS'', detail), a2, s2)))"

definition completed :: "td_entry list \<Rightarrow> td_step set" where
  "completed entries = te_step ` {e \<in> set entries. te_result e = ''PASS''}"

fun run_steps :: "'a adapter \<Rightarrow> td_config \<Rightarrow> (nat \<Rightarrow> string) \<Rightarrow> td_step set \<Rightarrow> (nat \<times> td_step) list \<Rightarrow> td_entry list \<Rightarrow>
    'a \<times> td_state \<times> td_journal option \<Rightarrow> td_exc option \<times> 'a \<times> td_state \<times> td_journal option" where
  "run_steps A c now passed [] entries w = (None, w)"
| "run_steps A c now passed ((number, step) # steps) entries (a, s, j) =
     (if step \<in> passed then run_steps A c now passed steps entries (a, s, j)
      else case attempt A c step a s of
        ((result, detail), a', s') \<Rightarrow>
          let entries' = entries @ [\<lparr>te_number = number, te_step = step, te_started_at = now (2 * length entries),
                te_ended_at = now (2 * length entries + 1), te_result = result, te_detail = detail\<rparr>];
              j' = Some \<lparr>tj_entries = entries', tj_state = s'\<rparr> in
          if result \<noteq> ''PASS'' then (Some (TeardownBlocked (step_name step @ '': '' @ detail)), a', s', j')
          else run_steps A c now passed steps entries' (a', s', j'))"

definition read_journal :: "td_journal option \<Rightarrow> td_state \<Rightarrow> td_entry list \<times> td_state" where
  "read_journal j s = (case j of None \<Rightarrow> ([], s) | Some v \<Rightarrow> (tj_entries v, tj_state v))"

definition expected_confirmation :: "td_config \<Rightarrow> string" where
  "expected_confirmation c = ''mirage:'' @ tc_environment c @ '':'' @ tc_case_id c"

definition execute :: "'a adapter \<Rightarrow> td_config \<Rightarrow> (nat \<Rightarrow> string) \<Rightarrow> string \<Rightarrow> 'a \<times> td_state \<times> td_journal option \<Rightarrow>
    td_exc option \<times> 'a \<times> td_state \<times> td_journal option" where
  "execute A c now confirmation w = (case w of (a, s, j) \<Rightarrow>
     if confirmation \<noteq> expected_confirmation c
     then (Some (TdValueError (''teardown requires exact confirmation '' @ expected_confirmation c)), w)
     else let (entries, s1) = read_journal j s in
       run_steps A c now (completed entries) (zip [1..<26] TEARDOWN_STEPS) entries (a, s1, j))"

text \<open>A new process: the constructor's check and fresh in-memory state on the journal that is there.\<close>

definition start_workflow :: "'a adapter \<Rightarrow> td_config \<Rightarrow> (nat \<Rightarrow> string) \<Rightarrow> string \<Rightarrow> 'a \<Rightarrow> td_journal option \<Rightarrow>
    td_exc option \<times> 'a \<times> td_state \<times> td_journal option" where
  "start_workflow A c now confirmation a j =
     (if tc_environment c = [] \<or> tc_case_id c = []
      then (Some (TdValueError ''explicit environment and case identity are required''), a, initial_state, j)
      else execute A c now confirmation (a, initial_state, j))"

definition identity_can_reconnect :: "td_state \<Rightarrow> string \<Rightarrow> bool" where
  "identity_can_reconnect s i = (i \<notin> ts_revoked_identities s)"

section \<open>What a step does to the workflow's state\<close>

definition passes :: "td_entry list \<Rightarrow> td_step list" where
  "passes entries = map te_step (filter (\<lambda>e. te_result e = ''PASS'') entries)"

lemma completed_passes: "completed entries = set (passes entries)"
  by (auto simp: completed_def passes_def)

lemma passes_simps [simp]:
  "passes [] = []"
  "passes (xs @ ys) = passes xs @ passes ys"
  "passes (e # es) = (if te_result e = ''PASS'' then te_step e # passes es else passes es)"
  by (simp_all add: passes_def)

text \<open>The in-memory state is determined, the audit trail apart, by which steps have passed.\<close>

definition spec_state :: "td_step set \<Rightarrow> td_state \<Rightarrow> bool" where
  "spec_state P s =
     (ts_case_state s = (if mark_case_destroyed \<in> P then ''DESTROYED''
                         else if mark_case_concluding \<in> P then ''CONCLUDING'' else ''ENGAGING'') \<and>
      ts_directives_allowed s = (block_analyst_directives \<notin> P) \<and>
      ts_messages_allowed s = (block_direct_messages \<notin> P) \<and>
      ts_ai_mutations_allowed s = (block_ai_mutations \<notin> P) \<and>
      ts_artifact_deployments_allowed s = (block_artifact_deployments \<notin> P) \<and>
      ts_revoked_identities s = (if revoke_sandbox_certificate \<in> P then {''sandbox-cert''} else {}) \<union>
                                (if revoke_temporary_agent_certificates \<in> P then {''agent-cert''} else {}))"

lemma spec_state_initial: "spec_state {} initial_state"
  by (simp add: spec_state_def initial_state_def)

lemmas step_ops = guard_step_def record_gaps_def revoke_step_def remove_step_def inventory_step_def

lemma apply_step_error_keeps_state:
  "apply_step A c step a s = (Inl x, a', s') \<Longrightarrow> s' = s"
  by (cases step) (auto simp: apply_step_def step_ops split: if_splits option.splits sum.splits prod.splits)

text \<open>The steps that write a field of the state; the others leave all but the audit trail as it is.\<close>

lemma frame_steps:
  "guard_step ok msg a s = (Inr d, a', s') \<Longrightarrow> s' = s"
  "inventory_step A c test a s = (Inr d, a', s') \<Longrightarrow> s' = s"
  "remove_step A c step a s = (Inr d, a', s') \<Longrightarrow> s' = s"
  by (auto simp: guard_step_def inventory_step_def remove_step_def split: if_splits sum.splits option.splits prod.splits)

lemma spec_state_audit [simp]: "spec_state P (s\<lparr>ts_audit := au\<rparr>) = spec_state P s"
  by (simp add: spec_state_def)

lemma spec_state_gaps: "record_gaps c a s = (Inr d, a', s') \<Longrightarrow> spec_state P s' = spec_state P s"
  by (auto simp: record_gaps_def split: if_splits option.splits)

definition writing_steps :: "td_step set" where
  "writing_steps = {block_analyst_directives, block_direct_messages, block_ai_mutations, block_artifact_deployments,
     mark_case_concluding, revoke_sandbox_certificate, revoke_temporary_agent_certificates, mark_case_destroyed}"

lemma spec_state_insert: "step \<notin> writing_steps \<Longrightarrow> spec_state (insert step P) s = spec_state P s"
  by (auto simp: spec_state_def writing_steps_def)

lemma apply_step_other:
  assumes "apply_step A c step a s = (Inr d, a', s')" "step \<notin> writing_steps"
  shows "spec_state P s' = spec_state P s"
  using assms
  by (cases step) (auto simp: apply_step_def writing_steps_def dest: frame_steps spec_state_gaps)

lemma apply_step_writes:
  assumes "apply_step A c step a s = (Inr d, a', s')" "step \<in> writing_steps" "spec_state P s"
    "step = mark_case_concluding \<longrightarrow> mark_case_destroyed \<notin> P"
  shows "spec_state (insert step P) s'"
  using assms
  by (cases step; clarsimp simp: apply_step_def writing_steps_def revoke_step_def split: if_splits)
    (simp_all add: spec_state_def insert_commute)

lemma apply_step_state:
  assumes "apply_step A c step a s = (Inr d, a', s')" "spec_state P s"
    "step = mark_case_concluding \<longrightarrow> mark_case_destroyed \<notin> P"
  shows "spec_state (insert step P) s'"
  using apply_step_writes [OF assms(1) _ assms(2,3)] apply_step_other [OF assms(1), of P] spec_state_insert [of step P s'] assms(2)
  by blast

lemma attempt_cases:
  assumes "attempt A c step a s = ((result, detail), a', s')"
  obtains (blocked) "result = ''BLOCKED''" "s' = s"
  | (passed) a1 where "result = ''PASS''" "ad_maybe_fail A a step = (None, a1)" "apply_step A c step a1 s = (Inr detail, a', s')"
  using assms
  by (auto simp: attempt_def dest: apply_step_error_keeps_state split: prod.splits option.splits sum.splits)

section \<open>The loop over the steps\<close>

definition pending :: "td_step set \<Rightarrow> (nat \<times> td_step) list \<Rightarrow> td_step list" where
  "pending P ps = filter (\<lambda>s. s \<notin> P) (map snd ps)"

lemma pending_simps [simp]:
  "pending P [] = []"
  "pending P ((n, s) # ps) = (if s \<in> P then pending P ps else s # pending P ps)"
  by (simp_all add: pending_def)

definition numbered_steps :: "(nat \<times> td_step) list" where
  "numbered_steps = zip [1..<26] TEARDOWN_STEPS"

lemma upt_26: "[Suc 0..<26] = [1,2,3,4,5,6,7,8,9,10,11,12,13,14,15,16,17,18,19,20,21,22,23,24,25]"
  by (simp add: upt_rec)

lemma numbered_steps_snd: "map snd numbered_steps = TEARDOWN_STEPS"
  by (simp add: numbered_steps_def TEARDOWN_STEPS_def upt_26)

lemma distinct_steps: "distinct TEARDOWN_STEPS"
  by (simp add: TEARDOWN_STEPS_def)

lemma pending_take: "pending (set (take n TEARDOWN_STEPS)) numbered_steps = drop n TEARDOWN_STEPS"
proof -
  have "filter (\<lambda>s. s \<notin> set (take n xs)) xs = drop n xs" if "distinct xs" for xs :: "td_step list"
  proof -
    have "filter (\<lambda>s. s \<notin> set (take n xs)) (take n xs @ drop n xs) = drop n xs"
      using that set_take_disj_set_drop_if_distinct [of xs n n]
      by (subst filter_append) (auto simp: filter_empty_conv intro!: filter_True)
    then show ?thesis
      by simp
  qed
  then show ?thesis
    by (simp add: pending_def numbered_steps_snd distinct_steps)
qed

text \<open>
  An invariant of the loop over the steps passed so far, the adapter and the
  state: kept by every attempt, it holds of what the loop leaves, whichever way it
  ends. \<open>I xs a s\<close> is stated for the steps \<open>xs\<close> that have passed.
\<close>

definition journal_entries :: "td_journal option \<Rightarrow> td_entry list" where
  "journal_entries j = (case j of None \<Rightarrow> [] | Some v \<Rightarrow> tj_entries v)"

definition journal_passes :: "td_journal option \<Rightarrow> td_step list" where
  "journal_passes j = passes (journal_entries j)"

lemma journal_simps [simp]:
  "journal_entries None = []" "journal_entries (Some v) = tj_entries v"
  "journal_passes None = []" "journal_passes (Some v) = passes (tj_entries v)"
  by (simp_all add: journal_entries_def journal_passes_def)

definition blocked_in :: "(td_step list \<Rightarrow> 'a \<Rightarrow> td_state \<Rightarrow> bool) \<Rightarrow> 'a adapter \<Rightarrow> td_config \<Rightarrow> 'a \<Rightarrow> bool" where
  "blocked_in I A c a' = (\<exists>xs x ys a s r d s'. xs @ x # ys = TEARDOWN_STEPS \<and> I xs a s \<and>
     attempt A c x a s = ((r, d), a', s') \<and> r \<noteq> ''PASS'')"

lemma blocked_in_mono:
  assumes "blocked_in I A c a'" "\<And>xs a s. I xs a s \<Longrightarrow> J xs a s"
  shows "blocked_in J A c a'"
proof -
  from assms(1) obtain xs x ys a s r d s' where "xs @ x # ys = TEARDOWN_STEPS" "I xs a s"
    "attempt A c x a s = ((r, d), a', s')" "r \<noteq> ''PASS''"
    unfolding blocked_in_def by fast
  then show ?thesis
    unfolding blocked_in_def using assms(2) by (intro exI conjI)
qed

lemma run_steps_invariant:
  assumes step: "\<And>xs x ys a s r d a' s'. xs @ x # ys = TEARDOWN_STEPS \<Longrightarrow> I xs a s \<Longrightarrow>
      attempt A c x a s = ((r, d), a', s') \<Longrightarrow> I (if r = ''PASS'' then xs @ [x] else xs) a' s'"
  assumes "run_steps A c now P ps entries (a, s, j) = (e, a', s', j')"
    and "passes entries @ pending P ps = TEARDOWN_STEPS" "I (passes entries) a s"
    and "journal_entries j = entries" "\<And>v. j = Some v \<Longrightarrow> tj_state v = s"
  shows "I (journal_passes j') a' s' \<and> prefix (journal_passes j') TEARDOWN_STEPS \<and> prefix entries (journal_entries j') \<and>
         (\<forall>v. j' = Some v \<longrightarrow> tj_state v = s') \<and> (e = None \<longrightarrow> journal_passes j' = TEARDOWN_STEPS) \<and>
         (e \<noteq> None \<longrightarrow> blocked_in I A c a')"
  using assms(2-)
proof (induction ps arbitrary: entries a s j)
  case Nil
  then show ?case
    by (auto simp: journal_passes_def)
next
  case (Cons p ps)
  obtain number x where p: "p = (number, x)"
    by fastforce
  show ?case
  proof (cases "x \<in> P")
    case True
    then show ?thesis
      using Cons.IH [of entries a s j] Cons.prems by (simp add: p)
  next
    case False
    obtain r d a1 s1 where att: "attempt A c x a s = ((r, d), a1, s1)"
      by (metis prod.exhaust)
    define entry where "entry = \<lparr>te_number = number, te_step = x, te_started_at = now (2 * length entries),
      te_ended_at = now (2 * length entries + 1), te_result = r, te_detail = d\<rparr>"
    define j1 where "j1 = Some \<lparr>tj_entries = entries @ [entry], tj_state = s1\<rparr>"
    have todo: "passes entries @ x # pending P ps = TEARDOWN_STEPS"
      using Cons.prems(2) False by (simp add: p)
    have I1: "I (if r = ''PASS'' then passes entries @ [x] else passes entries) a1 s1"
      using step [OF todo Cons.prems(3) att] .
    show ?thesis
    proof (cases "r = ''PASS''")
      case True
      have "run_steps A c now P ps (entries @ [entry]) (a1, s1, j1) = (e, a', s', j')"
        using Cons.prems(1) False True att by (simp add: p entry_def j1_def Let_def)
      from Cons.IH [OF this] I1 todo True show ?thesis
        by (auto simp: entry_def j1_def prefix_def)
    next
      case False': False
      have "e \<noteq> None \<and> a' = a1 \<and> s' = s1 \<and> j' = j1"
        using Cons.prems(1) False False' att by (auto simp: p entry_def j1_def Let_def)
      moreover have blocked: "blocked_in I A c a1"
        using todo Cons.prems(3) att False' unfolding blocked_in_def by blast
      moreover have "prefix (passes entries) TEARDOWN_STEPS"
        using todo by (metis prefixI)
      ultimately show ?thesis
        using I1 False' blocked by (auto simp: j1_def entry_def)
    qed
  qed
qed

section \<open>Runs and resumed runs\<close>

text \<open>
  A history: each element is one process that builds the workflow with its own
  configuration, clock and confirmation, runs it on the cloud and the journal
  the previous one left, and ends (by returning or by an exception).
\<close>

type_synonym td_run = "td_config \<times> (nat \<Rightarrow> string) \<times> string"

fun runs :: "'a adapter \<Rightarrow> td_run list \<Rightarrow> 'a \<times> td_journal option \<Rightarrow> 'a \<times> td_journal option" where
  "runs A [] w = w"
| "runs A ((c, now, conf) # xs) (a, j) = (case start_workflow A c now conf a j of (e, a', s', j') \<Rightarrow> runs A xs (a', j'))"

text \<open>A journal a history can have left: it fits the order of the steps and its state fits its entries.\<close>

definition journal_ok :: "td_journal option \<Rightarrow> bool" where
  "journal_ok j = (prefix (journal_passes j) TEARDOWN_STEPS \<and> (\<forall>v. j = Some v \<longrightarrow> spec_state (set (passes (tj_entries v))) (tj_state v)))"

lemma journal_ok_None [simp]: "journal_ok None"
  by (simp add: journal_ok_def)

lemma pending_prefix:
  assumes "prefix xs TEARDOWN_STEPS"
  shows "xs @ pending (set xs) (zip [1..<26] TEARDOWN_STEPS) = TEARDOWN_STEPS"
proof -
  have xs: "take (length xs) TEARDOWN_STEPS = xs"
    using assms by (metis append_eq_conv_conj prefix_def)
  show ?thesis
    using pending_take [of "length xs"] append_take_drop_id [of "length xs" TEARDOWN_STEPS] unfolding xs numbered_steps_def
    by (simp only:)
qed

lemma step_order:
  assumes "xs @ x # ys = TEARDOWN_STEPS"
  shows "x = mark_case_concluding \<longrightarrow> mark_case_destroyed \<notin> set xs"
proof
  assume x: "x = mark_case_concluding"
  have "last TEARDOWN_STEPS = mark_case_destroyed" "mark_case_concluding \<noteq> mark_case_destroyed"
    by (simp_all add: TEARDOWN_STEPS_def)
  then have "mark_case_destroyed \<in> set ys"
    using assms x by (metis last_ConsL last_ConsR last_append last_in_set list.discI)
  then show "mark_case_destroyed \<notin> set xs"
    using distinct_steps unfolding assms [symmetric] by auto
qed

lemma attempt_state:
  assumes "attempt A c x a s = ((r, d), a', s')" "xs @ x # ys = TEARDOWN_STEPS" "spec_state (set xs) s"
  shows "spec_state (set (if r = ''PASS'' then xs @ [x] else xs)) s'"
  using assms(1)
proof (cases rule: attempt_cases)
  case blocked
  then show ?thesis
    using assms(3) by simp
next
  case (passed a1)
  then show ?thesis
    using apply_step_state [OF passed(3) assms(3) step_order [OF assms(2)]] by simp
qed

lemma execute_invariant:
  assumes "start_workflow A c now conf a j = (e, a', s', j')" "journal_ok j" "I (journal_passes j) a"
    and step: "\<And>xs x ys a s r d a' s'. xs @ x # ys = TEARDOWN_STEPS \<Longrightarrow> I xs a \<Longrightarrow>
      attempt A c x a s = ((r, d), a', s') \<Longrightarrow> I (if r = ''PASS'' then xs @ [x] else xs) a'"
  shows "journal_ok j' \<and> I (journal_passes j') a' \<and> prefix (journal_entries j) (journal_entries j') \<and>
    (e = None \<longrightarrow> journal_passes j' = TEARDOWN_STEPS) \<and>
    (tc_environment c \<noteq> [] \<and> tc_case_id c \<noteq> [] \<and> conf = expected_confirmation c \<and> e \<noteq> None \<longrightarrow>
      blocked_in (\<lambda>xs a s. I xs a) A c a')"
proof (cases "tc_environment c = [] \<or> tc_case_id c = [] \<or> conf \<noteq> expected_confirmation c")
  case True
  then show ?thesis
    using assms(1-3) by (auto simp: start_workflow_def execute_def split: if_splits)
next
  case False
  define s where "s = snd (read_journal j initial_state)"
  let ?I = "\<lambda>xs a s. I xs a \<and> spec_state (set xs) s"
  have "run_steps A c now (set (journal_passes j)) (zip [1..<26] TEARDOWN_STEPS) (journal_entries j) (a, s, j) = (e, a', s', j')"
    using assms(1) False
    by (cases j) (simp_all add: start_workflow_def execute_def read_journal_def s_def completed_passes)
  moreover have "?I (passes (journal_entries j)) a s"
    using assms(2,3) spec_state_initial
    by (cases j) (simp_all add: s_def read_journal_def journal_ok_def journal_passes_def)
  moreover have "?I (if r = ''PASS'' then xs @ [x] else xs) a' s'"
    if "xs @ x # ys = TEARDOWN_STEPS" "?I xs a s" "attempt A c x a s = ((r, d), a', s')" for xs x ys a s r d a' s'
    using step [OF that(1) _ that(3)] that(2) attempt_state [OF that(3,1)] by blast
  ultimately have post: "?I (journal_passes j') a' s' \<and> prefix (journal_passes j') TEARDOWN_STEPS \<and>
      prefix (journal_entries j) (journal_entries j') \<and> (\<forall>v. j' = Some v \<longrightarrow> tj_state v = s') \<and>
      (e = None \<longrightarrow> journal_passes j' = TEARDOWN_STEPS) \<and>
      (e \<noteq> None \<longrightarrow> blocked_in ?I A c a')"
    using assms(2) pending_prefix [of "journal_passes j"]
    by (intro run_steps_invariant [where I = ?I])
      (auto simp: journal_ok_def journal_passes_def s_def read_journal_def)
  then have "journal_ok j'"
    by (cases j') (auto simp: journal_ok_def)
  moreover have "blocked_in (\<lambda>xs a s. I xs a) A c a'" if "blocked_in ?I A c a'"
    using that by (rule blocked_in_mono) simp
  ultimately show ?thesis
    using post by simp
qed

lemma runs_invariant:
  assumes "runs A xs (a, j) = (a', j')" "journal_ok j" "I (journal_passes j) a" "\<And>c now conf. (c, now, conf) \<in> set xs \<Longrightarrow> ok c"
    and "\<And>c xs x ys a s r d a' s'. ok c \<Longrightarrow> xs @ x # ys = TEARDOWN_STEPS \<Longrightarrow> I xs a \<Longrightarrow>
      attempt A c x a s = ((r, d), a', s') \<Longrightarrow> I (if r = ''PASS'' then xs @ [x] else xs) a'"
  shows "journal_ok j' \<and> I (journal_passes j') a'"
  using assms(1-4)
proof (induction xs arbitrary: a j)
  case (Cons p xs)
  obtain c now conf where p: "p = (c, now, conf)"
    by (metis prod.exhaust)
  obtain e a1 s1 j1 where one: "start_workflow A c now conf a j = (e, a1, s1, j1)"
    by (metis prod.exhaust)
  have "ok c"
    using Cons.prems(4) p by auto
  then have "journal_ok j1 \<and> I (journal_passes j1) a1"
    using execute_invariant [where I = I, OF one Cons.prems(2,3)] assms(5) by blast
  then show ?case
    using Cons.IH [of a1 j1] Cons.prems(1,4) one p by auto
qed simp

section \<open>The cloud behind an adapter\<close>

text \<open>
  What the workflow relies on: an adapter whose states hold resources under
  distinct identifiers, whose inventory lists exactly the active ones in the
  given scope, and whose deactivation clears the one resource it is given.
\<close>

definition clear :: "string set \<Rightarrow> cloud_resource \<Rightarrow> cloud_resource" where
  "clear ids r = (if cr_resource_id r \<in> ids then r\<lparr>cr_active := False\<rparr> else r)"

lemma clear_simps [simp]:
  "cr_resource_id (clear ids r) = cr_resource_id r" "clear {} r = r"
  "clear ids (clear ids' r) = clear (ids \<union> ids') r"
  by (simp_all add: clear_def)

definition scoped :: "td_config \<Rightarrow> cloud_resource \<Rightarrow> bool" where
  "scoped c r = in_scope ''mirage'' (tc_environment c) (Some (tc_case_id c)) r"

definition same_case :: "td_config \<Rightarrow> td_config \<Rightarrow> bool" where
  "same_case c c' = (tc_environment c' = tc_environment c \<and> tc_case_id c' = tc_case_id c)"

lemma same_case_scoped: "same_case c c' \<Longrightarrow> scoped c' = scoped c"
  by (auto simp: same_case_def scoped_def)

text \<open>How a resource may differ from what it was: only a removable one of the case, and only by being inactive.\<close>

definition kept_or_removed :: "td_config \<Rightarrow> cloud_resource \<Rightarrow> cloud_resource \<Rightarrow> bool" where
  "kept_or_removed c r r' = (r' = r \<or> (scoped c r \<and> removable r \<and> r' = r\<lparr>cr_active := False\<rparr>))"

lemma kept_or_removed_trans:
  "kept_or_removed c r r' \<Longrightarrow> kept_or_removed c r' r'' \<Longrightarrow> kept_or_removed c r r''"
  by (auto simp: kept_or_removed_def scoped_def in_scope_def)

lemma scoped_clear: "scoped c (clear ids r) \<longleftrightarrow> scoped c r \<and> cr_resource_id r \<notin> ids"
  by (auto simp: clear_def scoped_def in_scope_def)

lemma clear_keeps [simp]:
  "removable (clear ids r) = removable r" "cr_resource_type (clear ids r) = cr_resource_type r"
  "cr_protected_evidence (clear ids r) = cr_protected_evidence r"
  by (simp_all add: clear_def removable_def)

text \<open>The first removal comes after the seventeen steps that secure the evidence and revoke the identities.\<close>

definition SECURING_STEPS :: "td_step list" where
  "SECURING_STEPS = take 17 TEARDOWN_STEPS"

lemma earlier_block:
  assumes "distinct (us @ vs)" "xs @ x # ys = us @ vs" "x \<in> set vs"
  shows "prefix us xs"
  using assms by (auto simp: append_eq_append_conv2 append_eq_Cons_conv Cons_eq_append_conv)

lemma removal_after_securing:
  assumes "xs @ x # ys = TEARDOWN_STEPS" "removal_types x \<noteq> {}"
  shows "prefix SECURING_STEPS xs"
proof (rule earlier_block)
  show "distinct (SECURING_STEPS @ drop 17 TEARDOWN_STEPS)"
    using distinct_steps by (simp add: SECURING_STEPS_def)
  show "xs @ x # ys = SECURING_STEPS @ drop 17 TEARDOWN_STEPS"
    using assms(1) by (simp add: SECURING_STEPS_def)
  show "x \<in> set (drop 17 TEARDOWN_STEPS)"
    using assms(2) by (cases x) (simp_all add: TEARDOWN_STEPS_def)
qed

locale cloud_adapter =
  fixes A :: "'a adapter" and resources :: "'a \<Rightarrow> cloud_resource list" and valid :: "'a \<Rightarrow> bool"
  assumes ids: "valid a \<Longrightarrow> distinct (map cr_resource_id (resources a))"
    and inventory: "valid a \<Longrightarrow> ad_inventory A a project environment cid =
      (case check_filters project environment of
         Some x \<Rightarrow> Inl x | None \<Rightarrow> Inr (filter (in_scope project environment cid) (resources a)))"
    and deactivate: "valid a \<Longrightarrow> ad_deactivate A a rid = Inr a' \<Longrightarrow> valid a' \<and> resources a' = map (clear {rid}) (resources a)"
    and maybe_fail: "valid a \<Longrightarrow> ad_maybe_fail A a step = (x, a') \<Longrightarrow> valid a' \<and> resources a' = resources a"
begin

lemma case_inventory_eq:
  assumes "valid a" "tc_environment c \<noteq> []"
  shows "case_inventory A c a = Inr (filter (scoped c) (resources a))"
  using assms inventory by (simp add: case_inventory_def check_filters_def scoped_def [abs_def])

lemma case_inventory_sound:
  assumes "valid a" "case_inventory A c a = Inr listed"
  shows "listed = filter (scoped c) (resources a)"
  using assms inventory by (auto simp: case_inventory_def scoped_def [abs_def] split: option.splits)

lemma deactivate_all_clears:
  assumes "valid a" "deactivate_all A rs a = (x, a')"
  shows "\<exists>ids \<subseteq> cr_resource_id ` set rs. valid a' \<and> resources a' = map (clear ids) (resources a) \<and>
    (x = None \<longrightarrow> ids = cr_resource_id ` set rs)"
  using assms
proof (induction rs arbitrary: a)
  case Nil
  then show ?case
    by (simp add: map_idI)
next
  case (Cons r rs)
  show ?case
  proof (cases "ad_deactivate A a (cr_resource_id r)")
    case (Inl y)
    then show ?thesis
      using Cons.prems by (intro exI [of _ "{}"]) (auto simp: map_idI)
  next
    case (Inr a1)
    have one: "valid a1" "resources a1 = map (clear {cr_resource_id r}) (resources a)"
      using deactivate [OF Cons.prems(1) Inr] by auto
    obtain ids where "ids \<subseteq> cr_resource_id ` set rs" "valid a'" "resources a' = map (clear ids) (resources a1)"
      "x = None \<longrightarrow> ids = cr_resource_id ` set rs"
      using Cons.IH [OF one(1)] Cons.prems(2) Inr by auto
    then show ?thesis
      using one by (intro exI [of _ "insert (cr_resource_id r) ids"]) (auto simp: o_def)
  qed
qed

text \<open>The resources a step removes, and what the whole step does to the cloud.\<close>

definition targets :: "td_config \<Rightarrow> td_step \<Rightarrow> 'a \<Rightarrow> cloud_resource set" where
  "targets c step a = {r \<in> set (resources a). scoped c r \<and> removable r \<and> cr_resource_type r \<in> removal_types step}"

lemma remove_step_cloud:
  assumes "valid a" "remove_step A c step a s = (res, a', s')"
  shows "\<exists>ids \<subseteq> cr_resource_id ` targets c step a. valid a' \<and> resources a' = map (clear ids) (resources a) \<and>
    (is_ok res \<longrightarrow> ids = cr_resource_id ` targets c step a)"
proof (cases "case_inventory A c a")
  case (Inl x)
  then show ?thesis
    using assms by (intro exI [of _ "{}"]) (auto simp: remove_step_def map_idI is_ok_def)
next
  case (Inr listed)
  let ?rs = "filter (\<lambda>r. cr_resource_type r \<in> removal_types step \<and> removable r) listed"
  obtain x a1 where d: "deactivate_all A ?rs a = (x, a1)"
    by fastforce
  have "set ?rs = targets c step a"
    using case_inventory_sound [OF assms(1) Inr] by (auto simp: targets_def)
  moreover have "a' = a1" "is_ok res \<longrightarrow> x = None"
    using assms(2) Inr d by (auto simp: remove_step_def is_ok_def split: option.splits)
  ultimately show ?thesis
    using deactivate_all_clears [OF assms(1) d] by auto
qed

lemma apply_step_cloud:
  assumes "valid a" "apply_step A c step a s = (res, a', s')"
  shows "\<exists>ids \<subseteq> cr_resource_id ` targets c step a. valid a' \<and> resources a' = map (clear ids) (resources a) \<and>
    (is_ok res \<longrightarrow> ids = cr_resource_id ` targets c step a)"
proof (cases "removal_types step = {}")
  case True
  then have "a' = a"
    using assms(2)
    by (cases step) (auto simp: apply_step_def step_ops split: if_splits option.splits sum.splits)
  then show ?thesis
    using assms(1) True by (intro exI [of _ "{}"]) (auto simp: targets_def map_idI)
next
  case False
  then have "apply_step A c step a s = remove_step A c step a s"
    by (cases step) (simp_all add: apply_step_def)
  then show ?thesis
    using remove_step_cloud assms by metis
qed

lemma attempt_cloud:
  assumes "valid a" "attempt A c step a s = ((r, d), a', s')"
  shows "\<exists>ids \<subseteq> cr_resource_id ` targets c step a. valid a' \<and> resources a' = map (clear ids) (resources a) \<and>
    (r = ''PASS'' \<longrightarrow> ids = cr_resource_id ` targets c step a)"
proof -
  obtain x a1 where f: "ad_maybe_fail A a step = (x, a1)"
    by fastforce
  have a1: "valid a1" "resources a1 = resources a" "targets c step a1 = targets c step a"
    using maybe_fail [OF assms(1) f] by (auto simp: targets_def)
  show ?thesis
  proof (cases x)
    case None
    obtain res a2 s2 where ap: "apply_step A c step a1 s = (res, a2, s2)"
      by (metis prod.exhaust)
    have "a' = a2" "r = ''PASS'' \<longrightarrow> is_ok res"
      using assms(2) f None ap by (auto simp: attempt_def is_ok_def split: sum.splits)
    then show ?thesis
      using apply_step_cloud [OF a1(1) ap] a1 by auto
  next
    case (Some y)
    then show ?thesis
      using assms(2) f a1 by (intro exI [of _ "{}"]) (auto simp: attempt_def map_idI)
  qed
qed

lemma clear_targets_kept:
  assumes "valid a" "same_case c0 c" "ids \<subseteq> cr_resource_id ` targets c step a"
  shows "list_all2 (kept_or_removed c0) (resources a) (map (clear ids) (resources a))"
proof -
  have "kept_or_removed c0 r (clear ids r)" if r: "r \<in> set (resources a)" for r
  proof (cases "cr_resource_id r \<in> ids")
    case True
    then obtain t where t: "t \<in> targets c step a" "cr_resource_id t = cr_resource_id r"
      using assms(3) by auto
    then have "t = r"
      using ids [OF assms(1)] r by (auto simp: targets_def distinct_map inj_on_def)
    then show ?thesis
      using t(1) True same_case_scoped [OF assms(2)] by (auto simp: kept_or_removed_def targets_def clear_def)
  qed (simp add: kept_or_removed_def clear_def)
  then show ?thesis
    by (auto simp: list_all2_map2 list_all2_same)
qed

text \<open>The invariant of a history on one case: what became of the cloud \<open>a0\<close> it began with.\<close>

definition cloud_inv :: "td_config \<Rightarrow> 'a \<Rightarrow> td_step list \<Rightarrow> 'a \<Rightarrow> bool" where
  "cloud_inv c a0 xs a =
     (valid a \<and> list_all2 (kept_or_removed c) (resources a0) (resources a) \<and>
      (resources a \<noteq> resources a0 \<longrightarrow> prefix SECURING_STEPS xs) \<and>
      (confirm_no_disallowed_resources \<in> set xs \<longrightarrow> (\<forall>r\<in>set (resources a). \<not> (scoped c r \<and> removable r))))"

lemma confirm_step:
  assumes "attempt A c confirm_no_disallowed_resources a s = ((''PASS'', d), a', s')" "valid a"
  shows "\<forall>r\<in>set (resources a'). \<not> (scoped c r \<and> removable r)"
  using assms(1)
proof (cases rule: attempt_cases)
  case (passed a1)
  have a1: "valid a1" "resources a1 = resources a"
    using maybe_fail [OF assms(2) passed(2)] by auto
  from passed(3) obtain listed where listed: "case_inventory A c a1 = Inr listed" "filter removable listed = []" "a' = a1"
    by (auto simp: apply_step_def inventory_step_def split: sum.splits option.splits if_splits)
  then show ?thesis
    using case_inventory_sound [OF a1(1) listed(1)] by (auto simp: filter_empty_conv)
qed simp

lemma cloud_inv_attempt:
  assumes "same_case c0 c" "xs @ x # ys = TEARDOWN_STEPS" "cloud_inv c0 a0 xs a" "attempt A c x a s = ((r, d), a', s')"
  shows "cloud_inv c0 a0 (if r = ''PASS'' then xs @ [x] else xs) a'"
proof -
  let ?xs = "if r = ''PASS'' then xs @ [x] else xs"
  have a: "valid a"
    using assms(3) by (simp add: cloud_inv_def)
  obtain ids where ids': "ids \<subseteq> cr_resource_id ` targets c x a" "valid a'" "resources a' = map (clear ids) (resources a)"
    using attempt_cloud [OF a assms(4)] by auto
  have kept: "list_all2 (kept_or_removed c0) (resources a0) (resources a')"
    using assms(3) clear_targets_kept [OF a assms(1) ids'(1)] ids'(3)
    by (auto simp: cloud_inv_def intro: list_all2_trans [OF kept_or_removed_trans])
  have secured: "prefix SECURING_STEPS xs" if "resources a' \<noteq> resources a0"
  proof (cases "removal_types x = {}")
    case True
    then have "resources a' = resources a"
      using ids' by (simp add: targets_def map_idI)
    then show ?thesis
      using that assms(3) by (simp add: cloud_inv_def)
  next
    case False
    then show ?thesis
      using removal_after_securing [OF assms(2)] by simp
  qed
  have gone: "\<forall>r\<in>set (resources a'). \<not> (scoped c0 r \<and> removable r)" if "confirm_no_disallowed_resources \<in> set ?xs"
  proof (cases "confirm_no_disallowed_resources \<in> set xs")
    case True
    then show ?thesis
      using assms(3) ids'(3) by (auto simp: cloud_inv_def scoped_clear)
  next
    case False
    then have "x = confirm_no_disallowed_resources" "r = ''PASS''"
      using that by (auto split: if_splits)
    then show ?thesis
      using confirm_step [of c a s d a' s'] assms(4) a same_case_scoped [OF assms(1)] by simp
  qed
  show ?thesis
    using kept secured gone ids'(2) by (auto simp: cloud_inv_def)
qed

lemma history_cloud_inv:
  assumes "runs A xs (a0, None) = (a, j)" "valid a0" "\<And>c now conf. (c, now, conf) \<in> set xs \<Longrightarrow> same_case c0 c"
  shows "journal_ok j \<and> cloud_inv c0 a0 (journal_passes j) a"
proof (rule runs_invariant [where ok = "same_case c0", OF assms(1)])
  show "cloud_inv c0 a0 (journal_passes None) a0"
    using assms(2) by (auto simp: cloud_inv_def kept_or_removed_def list_all2_same)
qed (use assms(3) cloud_inv_attempt in auto)

end

text \<open>
  An adapter that can also be relied on to make progress: deactivation does not
  fail, and the injected faults are used up.
\<close>

definition guards_ok :: "td_config \<Rightarrow> bool" where
  "guards_ok c = (tc_environment c \<noteq> [] \<and> tc_case_id c \<noteq> [] \<and> tc_required_evidence_verified c \<and> tc_export_verified c \<and>
     tc_queue_drain_succeeds c \<and> tc_final_snapshot_succeeds c \<and> tc_certificate_revocation_succeeds c \<and> tc_inventory_complete c)"

lemma after_removals:
  assumes "xs @ confirm_no_disallowed_resources # ys = TEARDOWN_STEPS" "x \<in> set TEARDOWN_STEPS" "x \<notin> set xs"
  shows "removal_types x = {}"
proof -
  have "prefix (take 23 TEARDOWN_STEPS) xs"
    using assms(1) distinct_steps
    by (intro earlier_block [where vs = "drop 23 TEARDOWN_STEPS"]) (simp_all, simp add: TEARDOWN_STEPS_def)
  then have "x \<notin> set (take 23 TEARDOWN_STEPS)"
    using assms(3) set_mono_prefix by blast
  then show ?thesis
    by (cases x) (simp_all add: TEARDOWN_STEPS_def)
qed

locale progressing_adapter = cloud_adapter A resources valid
  for A :: "'a adapter" and resources :: "'a \<Rightarrow> cloud_resource list" and valid :: "'a \<Rightarrow> bool" +
  fixes faults :: "'a \<Rightarrow> nat"
  assumes deactivate_total: "valid a \<Longrightarrow> \<exists>a'. ad_deactivate A a rid = Inr a' \<and> faults a' = faults a"
    and fault: "valid a \<Longrightarrow> ad_maybe_fail A a step = (Some x, a') \<Longrightarrow> faults a' < faults a"
    and no_fault: "valid a \<Longrightarrow> ad_maybe_fail A a step = (None, a') \<Longrightarrow> faults a' = faults a"
begin

definition ready :: "td_config \<Rightarrow> td_step list \<Rightarrow> 'a \<Rightarrow> bool" where
  "ready c xs a =
     (valid a \<and> (\<exists>r\<in>set (resources a). scoped c r \<and> cr_protected_evidence r) \<and>
      (\<forall>r\<in>set (resources a). scoped c r \<and> removable r \<longrightarrow>
         (\<exists>x\<in>set TEARDOWN_STEPS - set xs. cr_resource_type r \<in> removal_types x)))"

lemma ready_attempt:
  assumes "ready c xs a" "attempt A c x a s = ((r, d), a', s')"
  shows "ready c (if r = ''PASS'' then xs @ [x] else xs) a'"
proof -
  have a: "valid a"
    using assms(1) by (simp add: ready_def)
  obtain ids where cl: "ids \<subseteq> cr_resource_id ` targets c x a" "valid a'" "resources a' = map (clear ids) (resources a)"
      "r = ''PASS'' \<longrightarrow> ids = cr_resource_id ` targets c x a"
    using attempt_cloud [OF a assms(2)] by auto
  obtain q where q: "q \<in> set (resources a)" "scoped c q" "cr_protected_evidence q"
    using assms(1) by (auto simp: ready_def)
  have "cr_resource_id q \<notin> ids"
  proof
    assume "cr_resource_id q \<in> ids"
    then obtain t where "t \<in> targets c x a" "cr_resource_id t = cr_resource_id q"
      using cl(1) by auto
    then show False
      using ids [OF a] q by (auto simp: targets_def distinct_map inj_on_def removable_def)
  qed
  then have "\<exists>r\<in>set (resources a'). scoped c r \<and> cr_protected_evidence r"
    using q cl(3) by (auto simp: scoped_clear)
  moreover have "\<exists>y\<in>set TEARDOWN_STEPS - set (if r = ''PASS'' then xs @ [x] else xs). cr_resource_type t \<in> removal_types y"
    if t: "t \<in> set (resources a)" "scoped c t" "removable t" "cr_resource_id t \<notin> ids" for t
  proof -
    obtain y where "y \<in> set TEARDOWN_STEPS - set xs" "cr_resource_type t \<in> removal_types y"
      using assms(1) t by (auto simp: ready_def)
    moreover have "y \<noteq> x" if "r = ''PASS''"
      using that cl(4) t \<open>cr_resource_type t \<in> removal_types y\<close> by (auto simp: targets_def)
    ultimately show ?thesis
      by auto
  qed
  ultimately show ?thesis
    using cl(2,3) by (auto simp: ready_def scoped_clear)
qed

lemma deactivate_all_total:
  assumes "valid a"
  shows "\<exists>a'. deactivate_all A rs a = (None, a') \<and> faults a' = faults a"
  using assms
proof (induction rs arbitrary: a)
  case (Cons r rs)
  obtain a1 where a1: "ad_deactivate A a (cr_resource_id r) = Inr a1" "faults a1 = faults a"
    using deactivate_total [OF Cons.prems] by blast
  then have "valid a1"
    using deactivate [OF Cons.prems] by blast
  then show ?case
    using Cons.IH [of a1] a1 by simp
qed simp

lemma apply_step_passes:
  assumes "guards_ok c" "ready c xs a" "xs @ x # ys = TEARDOWN_STEPS"
  shows "\<exists>d a' s'. apply_step A c x a s = (Inr d, a', s') \<and> faults a' = faults a"
proof -
  have a: "valid a"
    using assms(2) by (simp add: ready_def)
  have listed: "case_inventory A c a = Inr (filter (scoped c) (resources a))"
    using case_inventory_eq [OF a] assms(1) by (simp add: guards_ok_def)
  show ?thesis
  proof (cases "removal_types x = {}")
    case False
    then have "apply_step A c x a s = remove_step A c x a s"
      by (cases x) (simp_all add: apply_step_def)
    moreover obtain a' where
      "deactivate_all A (filter (\<lambda>r. cr_resource_type r \<in> removal_types x \<and> removable r) (filter (scoped c) (resources a))) a = (None, a')"
      "faults a' = faults a"
      using deactivate_all_total [OF a] by blast
    ultimately show ?thesis
      using listed by (simp add: remove_step_def del: filter_filter)
  next
    case True
    have "filter removable (filter (scoped c) (resources a)) = []" if "x = confirm_no_disallowed_resources"
      using assms(2,3) after_removals that by (fastforce simp: ready_def filter_empty_conv)
    moreover have "filter cr_protected_evidence (filter (scoped c) (resources a)) \<noteq> []"
      using assms(2) by (auto simp: ready_def filter_empty_conv)
    ultimately show ?thesis
      using assms(1) listed True
      by (cases x) (simp_all add: apply_step_def step_ops guards_ok_def del: filter_filter)
  qed
qed

lemma attempt_faults:
  assumes "guards_ok c" "ready c xs a" "xs @ x # ys = TEARDOWN_STEPS" "attempt A c x a s = ((r, d), a', s')"
  shows "faults a' \<le> faults a" "r \<noteq> ''PASS'' \<Longrightarrow> faults a' < faults a"
proof -
  have a: "valid a"
    using assms(2) by (simp add: ready_def)
  obtain y a1 where f: "ad_maybe_fail A a x = (y, a1)"
    by fastforce
  have "valid a1 \<and> ready c xs a1"
    using maybe_fail [OF a f] assms(2) by (simp add: ready_def)
  then have "(case y of None \<Rightarrow> r = ''PASS'' \<and> faults a' = faults a | Some z \<Rightarrow> faults a' < faults a)"
    using apply_step_passes [OF assms(1) _ assms(3), of a1 s] f assms(4) fault [OF a] no_fault [OF a]
    by (cases y) (auto simp: attempt_def)
  then show "faults a' \<le> faults a" "r \<noteq> ''PASS'' \<Longrightarrow> faults a' < faults a"
    by (auto split: option.splits)
qed

lemma run_progress:
  assumes "guards_ok c" "start_workflow A c now (expected_confirmation c) a j = (e, a', s', j')"
    "journal_ok j" "ready c (journal_passes j) a"
  shows "journal_ok j' \<and> ready c (journal_passes j') a' \<and> faults a' \<le> faults a \<and>
    (journal_passes j' = TEARDOWN_STEPS \<or> faults a' < faults a) \<and>
    (journal_passes j = TEARDOWN_STEPS \<longrightarrow> journal_passes j' = TEARDOWN_STEPS)"
proof -
  let ?I = "\<lambda>xs b. ready c xs b \<and> faults b \<le> faults a"
  have "?I (if r = ''PASS'' then xs @ [x] else xs) b'"
    if "xs @ x # ys = TEARDOWN_STEPS" "?I xs b" "attempt A c x b s = ((r, d), b', s')" for xs x ys b s r d b' s'
    using ready_attempt [OF _ that(3)] attempt_faults(1) [OF assms(1) _ that(1,3)] that(2) le_trans by blast
  then have run: "journal_ok j' \<and> ?I (journal_passes j') a' \<and> prefix (journal_entries j) (journal_entries j') \<and>
      (e = None \<longrightarrow> journal_passes j' = TEARDOWN_STEPS) \<and> (guards_ok c \<and> e \<noteq> None \<longrightarrow> blocked_in (\<lambda>xs b s. ?I xs b) A c a')"
    using execute_invariant [where I = ?I, OF assms(2,3)] assms(4) by (simp add: guards_ok_def)
  have "faults a' < faults a" if "blocked_in (\<lambda>xs b s. ?I xs b) A c a'"
  proof -
    from that obtain xs x ys b s r d s1 where "xs @ x # ys = TEARDOWN_STEPS" "?I xs b"
      "attempt A c x b s = ((r, d), a', s1)" "r \<noteq> ''PASS''"
      unfolding blocked_in_def by fast
    then show ?thesis
      using attempt_faults(2) [OF assms(1)] by (meson less_le_trans)
  qed
  moreover have "journal_passes j' = TEARDOWN_STEPS" if "journal_passes j = TEARDOWN_STEPS"
  proof -
    have "prefix (journal_passes j) (journal_passes j')"
      using conjunct1 [OF conjunct2 [OF conjunct2 [OF run]]] by (auto simp: prefix_def journal_passes_def)
    then show ?thesis
      using that run by (metis journal_ok_def prefix_order.antisym)
  qed
  ultimately show ?thesis
    using run assms(1) by blast
qed

lemma history_completes:
  assumes "runs A xs (a, j) = (a', j')" "journal_ok j" "ready c0 (journal_passes j) a"
    "\<And>c now conf. (c, now, conf) \<in> set xs \<Longrightarrow> same_case c0 c \<and> guards_ok c \<and> conf = expected_confirmation c"
    "faults a < length xs \<or> journal_passes j = TEARDOWN_STEPS"
  shows "journal_ok j' \<and> journal_passes j' = TEARDOWN_STEPS"
  using assms
proof (induction xs arbitrary: a j)
  case (Cons p xs)
  obtain c now conf where p: "p = (c, now, conf)"
    by (metis prod.exhaust)
  obtain e a1 s1 j1 where one: "start_workflow A c now conf a j = (e, a1, s1, j1)"
    by (metis prod.exhaust)
  have c: "same_case c0 c" "guards_ok c" "conf = expected_confirmation c"
    using Cons.prems(4) p by auto
  have scope: "ready c = ready c0"
    using same_case_scoped [OF c(1)] by (simp add: ready_def fun_eq_iff)
  have next1: "journal_ok j1 \<and> ready c (journal_passes j1) a1 \<and> faults a1 \<le> faults a \<and>
      (journal_passes j1 = TEARDOWN_STEPS \<or> faults a1 < faults a) \<and>
      (journal_passes j = TEARDOWN_STEPS \<longrightarrow> journal_passes j1 = TEARDOWN_STEPS)"
    using run_progress [OF c(2) one [unfolded c(3)] Cons.prems(2)] Cons.prems(3) unfolding scope by blast
  moreover have "runs A xs (a1, j1) = (a', j')"
    using Cons.prems(1) one p by simp
  moreover have "faults a1 < length xs \<or> journal_passes j1 = TEARDOWN_STEPS"
    using next1 Cons.prems(5) by auto
  ultimately show ?case
    using Cons.IH [of a1 j1] Cons.prems(4) unfolding scope by (meson list.set_intros(2))
qed simp

end

section \<open>The local adapter\<close>

definition cloud_of :: "local_cloud \<Rightarrow> cloud_resource list" where
  "cloud_of a = map snd (lc_resources a)"

definition local_valid :: "local_cloud \<Rightarrow> bool" where
  "local_valid a = (distinct (map fst (lc_resources a)) \<and> (\<forall>(k, r) \<in> set (lc_resources a). cr_resource_id r = k))"

definition local_faults :: "local_cloud \<Rightarrow> nat" where
  "local_faults a = (if lc_fail_once_at a = None \<or> lc_failed a then 0 else 1)"

lemma local_valid_ids: "local_valid a \<Longrightarrow> map cr_resource_id (cloud_of a) = map fst (lc_resources a)"
  by (auto simp: local_valid_def cloud_of_def)

lemma local_deactivate_effect:
  assumes "local_valid a" "local_deactivate a rid = Inr a'"
  shows "local_valid a' \<and> cloud_of a' = map (clear {rid}) (cloud_of a) \<and> local_faults a' = local_faults a"
proof -
  have a': "a' = a\<lparr>lc_resources := map (\<lambda>(k, r). (k, if k = rid then r\<lparr>cr_active := False\<rparr> else r)) (lc_resources a)\<rparr>"
    using assms(2) by (simp add: local_deactivate_def)
  have key: "k = cr_resource_id r" if "(k, r) \<in> set (lc_resources a)" for k r
    using assms(1) that by (auto simp: local_valid_def)
  have "map fst (lc_resources a') = map fst (lc_resources a)"
    by (simp add: a' o_def split_def)
  moreover have "cr_resource_id r = k" if "(k, r) \<in> set (lc_resources a')" for k r
    using that key by (auto simp: a')
  moreover have "cloud_of a' = map (clear {rid}) (cloud_of a)"
    using key by (auto simp: cloud_of_def a' clear_def)
  moreover have "local_faults a' = local_faults a"
    by (simp add: local_faults_def a')
  ultimately show ?thesis
    using assms(1) by (auto simp: local_valid_def)
qed

lemma local_valid_of: "local_valid (local_cloud_of rs f)"
proof -
  have "distinct (map fst d) \<and> (\<forall>(k, r) \<in> set d. cr_resource_id r = k) \<Longrightarrow>
    distinct (map fst (foldl (\<lambda>d r. AList.update (cr_resource_id r) r d) d rs)) \<and>
    (\<forall>(k, r) \<in> set (foldl (\<lambda>d r. AList.update (cr_resource_id r) r d) d rs). cr_resource_id r = k)" for d
  proof (induction rs arbitrary: d)
    case (Cons r rs)
    have "(\<forall>(k, r') \<in> set (AList.update (cr_resource_id r) r d). cr_resource_id r' = k)"
      using Cons.prems by (induction d) (auto split: if_splits)
    then show ?case
      using Cons.IH [of "AList.update (cr_resource_id r) r d"] Cons.prems by (simp add: distinct_update)
  qed simp
  from this [of "[]"] show ?thesis
    by (simp add: local_valid_def local_cloud_of_def)
qed

interpretation local_cloud: progressing_adapter LocalCloudAdapter cloud_of local_valid local_faults
proof unfold_locales
  fix a :: local_cloud and a' rid step x
  assume v: "local_valid a"
  show "distinct (map cr_resource_id (cloud_of a))"
    using v local_valid_ids [OF v] by (simp add: local_valid_def)
  show "ad_inventory LocalCloudAdapter a project environment cid =
      (case check_filters project environment of
         Some x \<Rightarrow> Inl x | None \<Rightarrow> Inr (filter (in_scope project environment cid) (cloud_of a)))" for project environment cid
    by (simp add: LocalCloudAdapter_def local_inventory_def cloud_of_def split: option.split)
  show "ad_deactivate LocalCloudAdapter a rid = Inr a' \<Longrightarrow> local_valid a' \<and> cloud_of a' = map (clear {rid}) (cloud_of a)"
    using local_deactivate_effect [OF v] by (simp add: LocalCloudAdapter_def)
  show "ad_maybe_fail LocalCloudAdapter a step = (x, a') \<Longrightarrow> local_valid a' \<and> cloud_of a' = cloud_of a"
    using v by (auto simp: LocalCloudAdapter_def local_maybe_fail_def local_valid_def cloud_of_def split: if_splits)
  show "\<exists>a'. ad_deactivate LocalCloudAdapter a rid = Inr a' \<and> local_faults a' = local_faults a"
    by (simp add: LocalCloudAdapter_def local_deactivate_def local_faults_def)
next
  fix a a' :: local_cloud and step x
  show "ad_maybe_fail LocalCloudAdapter a step = (Some x, a') \<Longrightarrow> local_faults a' < local_faults a"
    by (auto simp: LocalCloudAdapter_def local_maybe_fail_def local_faults_def split: if_splits)
  show "ad_maybe_fail LocalCloudAdapter a step = (None, a') \<Longrightarrow> local_faults a' = local_faults a"
    by (auto simp: LocalCloudAdapter_def local_maybe_fail_def local_faults_def split: if_splits)
qed

lemma history_local:
  assumes "runs LocalCloudAdapter xs (local_cloud_of rs f, None) = (a, j)" "\<forall>(c, now, conf) \<in> set xs. same_case c0 c"
  shows "journal_ok j" "local_cloud.cloud_inv c0 (local_cloud_of rs f) (journal_passes j) a"
  using local_cloud.history_cloud_inv [OF assms(1) local_valid_of, of c0] assms(2) by auto

lemma spec_state_names:
  "spec_state P s \<Longrightarrow> ts_case_state s = ''DESTROYED'' \<longleftrightarrow> mark_case_destroyed \<in> P"
  by (auto simp: spec_state_def)

lemma prefix_last_all:
  assumes "prefix xs ys" "distinct ys" "ys \<noteq> []" "last ys \<in> set xs"
  shows "xs = ys"
proof -
  obtain zs where zs: "ys = xs @ zs"
    using assms(1) by (auto simp: prefix_def)
  then have "zs = []"
    using assms(2-4) by (cases zs rule: rev_cases) auto
  then show ?thesis
    using zs by simp
qed

section \<open>Properties\<close>

text \<open>C18. Evidence comes before destruction. Over any history of runs and resumed runs on
  one case, with any mixture of failing guards, overrides and injected faults, if a
  single resource of the cloud has changed then the journal shows the first
  seventeen steps as passed, in their order: in particular the required evidence was
  verified (or overridden), the export independently verified, and both identities are
  revoked in the journalled state.\<close>

theorem teardown_evidence_before_destruction:
  assumes "runs LocalCloudAdapter xs (local_cloud_of rs f, None) = (a, j)" "\<forall>(c, now, conf) \<in> set xs. same_case c0 c"
    and "cloud_of a \<noteq> cloud_of (local_cloud_of rs f)"
  shows "take 17 (journal_passes j) = take 17 TEARDOWN_STEPS \<and>
    {verify_required_evidence, independently_verify_export} \<subseteq> set (journal_passes j) \<and>
    (\<exists>v. j = Some v \<and> \<not> identity_can_reconnect (tj_state v) ''sandbox-cert'' \<and> \<not> identity_can_reconnect (tj_state v) ''agent-cert'')"
proof -
  have pre: "prefix SECURING_STEPS (journal_passes j)"
    using history_local(2) [OF assms(1,2)] assms(3) by (simp add: local_cloud.cloud_inv_def)
  then have t: "take 17 (journal_passes j) = SECURING_STEPS"
    by (auto simp: prefix_def SECURING_STEPS_def TEARDOWN_STEPS_def)
  have sub: "set SECURING_STEPS \<subseteq> set (journal_passes j)"
    using pre by (rule set_mono_prefix)
  then have "journal_passes j \<noteq> []"
    by (auto simp: SECURING_STEPS_def TEARDOWN_STEPS_def)
  then obtain v where v: "j = Some v"
    by (cases j) auto
  have "spec_state (set (journal_passes j)) (tj_state v)"
    using history_local(1) [OF assms(1,2)] v by (simp add: journal_ok_def)
  then show ?thesis
    using t sub v by (auto simp: SECURING_STEPS_def TEARDOWN_STEPS_def spec_state_def identity_can_reconnect_def)
qed

text \<open>C20. A teardown touches only what it may: over any history on one case every
  resource is either as it was, or was an active, temporary, unprotected resource of
  that case in the project and environment, and is now inactive and otherwise unchanged. No
  resource appears or disappears.\<close>

theorem teardown_removes_only_case_temporaries:
  assumes "runs LocalCloudAdapter xs (local_cloud_of rs f, None) = (a, j)" "\<forall>(c, now, conf) \<in> set xs. same_case c0 c"
  shows "list_all2 (kept_or_removed c0) (cloud_of (local_cloud_of rs f)) (cloud_of a)"
  using history_local(2) [OF assms] by (simp add: local_cloud.cloud_inv_def)

text \<open>The journal's DESTROYED can be believed: in any history on one case it is
  written only when all the steps have passed, each once and in their order, and
  then the cloud holds no active temporary, unprotected resource of the case.\<close>

theorem teardown_destroyed_means_clean:
  assumes "runs LocalCloudAdapter xs (local_cloud_of rs f, None) = (a, Some v)" "\<forall>(c, now, conf) \<in> set xs. same_case c0 c"
    and "ts_case_state (tj_state v) = ''DESTROYED''"
  shows "passes (tj_entries v) = TEARDOWN_STEPS \<and> filter (\<lambda>r. scoped c0 r \<and> removable r) (cloud_of a) = []"
proof -
  have ok: "prefix (passes (tj_entries v)) TEARDOWN_STEPS" "spec_state (set (passes (tj_entries v))) (tj_state v)"
    using history_local(1) [OF assms(1,2)] by (auto simp: journal_ok_def)
  have "last TEARDOWN_STEPS \<in> set (passes (tj_entries v))" "TEARDOWN_STEPS \<noteq> []"
    using spec_state_names [OF ok(2)] assms(3) by (simp_all add: TEARDOWN_STEPS_def)
  then have all: "passes (tj_entries v) = TEARDOWN_STEPS"
    using prefix_last_all [OF ok(1) distinct_steps] by simp
  moreover have "confirm_no_disallowed_resources \<in> set TEARDOWN_STEPS"
    by (simp add: TEARDOWN_STEPS_def)
  ultimately show ?thesis
    using history_local(2) [OF assms(1,2)] by (simp add: local_cloud.cloud_inv_def filter_empty_conv)
qed

text \<open>C23. Teardown terminates in DESTROYED. When the guards hold, the confirmation is the
  expected one, a protected evidence resource of the case is there and every
  removable resource of the case has one of the six types the removal steps know, then
  two runs reach DESTROYED whatever step the injected interruption hits (and one
  run without one): the second resumes from the journal.\<close>

theorem teardown_completes:
  assumes "\<forall>(c, now, conf) \<in> set xs. same_case c0 c \<and> guards_ok c \<and> conf = expected_confirmation c"
    and "\<exists>r\<in>set (cloud_of (local_cloud_of rs f)). scoped c0 r \<and> cr_protected_evidence r"
    and "\<forall>r\<in>set (cloud_of (local_cloud_of rs f)). scoped c0 r \<and> removable r \<longrightarrow>
      cr_resource_type r \<in> {''sandbox'', ''compute'', ''volume'', ''credential'', ''token'', ''public_endpoint''}"
    and "length xs \<ge> (if f = None then 1 else 2)"
  shows "\<exists>a v. runs LocalCloudAdapter xs (local_cloud_of rs f, None) = (a, Some v) \<and> ts_case_state (tj_state v) = ''DESTROYED''"
proof -
  obtain a j where run: "runs LocalCloudAdapter xs (local_cloud_of rs f, None) = (a, j)"
    by fastforce
  have types: "\<exists>x\<in>set TEARDOWN_STEPS. t \<in> removal_types x"
    if "t \<in> {''sandbox'', ''compute'', ''volume'', ''credential'', ''token'', ''public_endpoint''}" for t
    using that by (auto simp: TEARDOWN_STEPS_def)
  have ready: "local_cloud.ready c0 (journal_passes None) (local_cloud_of rs f)"
    unfolding local_cloud.ready_def using assms(2,3) types by (simp add: local_valid_of)
  have "local_faults (local_cloud_of rs f) < length xs"
    using assms(4) by (auto simp: local_faults_def local_cloud_of_def split: if_splits)
  then have "journal_ok j \<and> journal_passes j = TEARDOWN_STEPS"
    using assms(1) by (intro local_cloud.history_completes [OF run journal_ok_None ready]) auto
  then show ?thesis
    using run by (cases j) (auto simp: journal_ok_def TEARDOWN_STEPS_def dest: spec_state_names)
qed

section \<open>Witnesses\<close>

definition example_config :: td_config where
  "example_config = \<lparr>tc_environment = ''dev'', tc_case_id = ''c1'', tc_required_evidence_verified = True, tc_export_verified = True,
     tc_queue_drain_succeeds = True, tc_final_snapshot_succeeds = True, tc_certificate_revocation_succeeds = True,
     tc_inventory_complete = True, tc_override = None\<rparr>"

definition example_resources :: "cloud_resource list" where
  "example_resources =
     [\<lparr>cr_resource_id = ''bucket'', cr_project = ''mirage'', cr_environment = ''dev'', cr_case_id = Some ''c1'',
        cr_resource_type = ''volume'', cr_temporary = True, cr_protected_evidence = True, cr_active = True\<rparr>,
      \<lparr>cr_resource_id = ''sb'', cr_project = ''mirage'', cr_environment = ''dev'', cr_case_id = Some ''c1'',
        cr_resource_type = ''sandbox'', cr_temporary = True, cr_protected_evidence = False, cr_active = True\<rparr>,
      \<lparr>cr_resource_id = ''other'', cr_project = ''mirage'', cr_environment = ''dev'', cr_case_id = Some ''c2'',
        cr_resource_type = ''compute'', cr_temporary = True, cr_protected_evidence = False, cr_active = True\<rparr>]"

definition example_runs :: "td_run list" where
  "example_runs = [(example_config, \<lambda>_. ''t'', ''mirage:dev:c1''), (example_config, \<lambda>_. ''t'', ''mirage:dev:c1'')]"

definition example_end :: "local_cloud \<times> td_journal option" where
  "example_end = runs LocalCloudAdapter example_runs (local_cloud_of example_resources (Some run_inventory), None)"

lemma example_end_eq:
  "runs LocalCloudAdapter example_runs (local_cloud_of example_resources (Some run_inventory), None) = (fst example_end, snd example_end)"
  by (simp add: example_end_def)

lemma example_same_case: "\<forall>(c, now, conf) \<in> set example_runs. same_case example_config c"
  by (simp add: example_runs_def same_case_def)

lemma example_changed: "map cr_active (cloud_of (fst example_end)) = [True, False, True]"
  by code_simp

lemma example_destroyed: "map_option (\<lambda>v. ts_case_state (tj_state v)) (snd example_end) = Some ''DESTROYED''"
  by code_simp

theorem teardown_evidence_before_destruction_witness:
  "cloud_of (fst example_end) \<noteq> cloud_of (local_cloud_of example_resources (Some run_inventory)) \<and>
   {verify_required_evidence, independently_verify_export} \<subseteq> set (journal_passes (snd example_end))"
proof -
  have "map cr_active (cloud_of (local_cloud_of example_resources (Some run_inventory))) = [True, True, True]"
    by code_simp
  then have "cloud_of (fst example_end) \<noteq> cloud_of (local_cloud_of example_resources (Some run_inventory))"
    using example_changed by (metis (no_types, lifting) list.inject)
  with teardown_evidence_before_destruction [OF example_end_eq example_same_case] show ?thesis
    by blast
qed

theorem teardown_removes_only_case_temporaries_witness:
  "list_all2 (kept_or_removed example_config) (cloud_of (local_cloud_of example_resources (Some run_inventory)))
     (cloud_of (fst example_end)) \<and> map cr_active (cloud_of (fst example_end)) = [True, False, True]"
  using teardown_removes_only_case_temporaries [OF example_end_eq example_same_case] example_changed by blast

theorem teardown_destroyed_means_clean_witness:
  "passes (tj_entries (the (snd example_end))) = TEARDOWN_STEPS \<and>
   filter (\<lambda>r. scoped example_config r \<and> removable r) (cloud_of (fst example_end)) = []"
proof -
  obtain v where v: "snd example_end = Some v" "ts_case_state (tj_state v) = ''DESTROYED''"
    using example_destroyed by auto
  from teardown_destroyed_means_clean [OF example_end_eq [unfolded v(1)] example_same_case v(2)] show ?thesis
    using v(1) by simp
qed

theorem teardown_completes_witness:
  "\<exists>a v. runs LocalCloudAdapter example_runs (local_cloud_of example_resources (Some run_inventory), None) = (a, Some v) \<and>
     ts_case_state (tj_state v) = ''DESTROYED''"
proof (rule teardown_completes [where ?c0.0 = example_config])
  show "\<forall>(c, now, conf) \<in> set example_runs. same_case example_config c \<and> guards_ok c \<and> conf = expected_confirmation c"
    by code_simp
  show "\<exists>r\<in>set (cloud_of (local_cloud_of example_resources (Some run_inventory))). scoped example_config r \<and> cr_protected_evidence r"
    by code_simp
  show "\<forall>r\<in>set (cloud_of (local_cloud_of example_resources (Some run_inventory))). scoped example_config r \<and> removable r \<longrightarrow>
      cr_resource_type r \<in> {''sandbox'', ''compute'', ''volume'', ''credential'', ''token'', ''public_endpoint''}"
    by code_simp
  show "length example_runs \<ge> (if Some run_inventory = None then 1 else 2)"
    by (simp add: example_runs_def)
qed

definition unverified_config :: "gap_override option \<Rightarrow> td_config" where
  "unverified_config ov = example_config\<lparr>tc_required_evidence_verified := False, tc_override := ov\<rparr>"


end
