(* ===== verification/Mirage_Cases.thy ===== *)
theory Mirage_Cases
  imports Mirage_Store
begin

text \<open>
  \<^verbatim>\<open>libs/mirage_common/case_state_machine.py\<close>: the case lifecycle. One
  operation, \<^verbatim>\<open>transition_case\<close>, advances a case by one state in one
  transaction: version check, case row, transition row, audit row and two
  outbox events. The theory proves what a successful call writes, that a
  rejected one writes nothing, that the history of every reachable case is the
  lifecycle up to its version, and (through \<open>optimistic_store\<close>) that of all
  requests for one version at most one succeeds.
\<close>

section \<open>The lifecycle\<close>

definition ALLOWED_TRANSITIONS :: "case_state \<Rightarrow> case_state option" where
  "ALLOWED_TRANSITIONS s = (case s of
      CREATED \<Rightarrow> Some ARMED
    | ARMED \<Rightarrow> Some MONITORING
    | MONITORING \<Rightarrow> Some STEERING_PENDING
    | STEERING_PENDING \<Rightarrow> Some SANDBOX_ACTIVE
    | SANDBOX_ACTIVE \<Rightarrow> Some ENGAGING
    | ENGAGING \<Rightarrow> Some CONCLUDING
    | CONCLUDING \<Rightarrow> Some EVIDENCE_VERIFYING
    | EVIDENCE_VERIFYING \<Rightarrow> Some EXPORTED
    | EXPORTED \<Rightarrow> Some DESTROYED
    | DESTROYED \<Rightarrow> None)"

definition TERMINAL_STATE :: case_state where
  "TERMINAL_STATE = DESTROYED"

text \<open>The states are ordered by their place in the lifecycle.\<close>

fun state_index :: "case_state \<Rightarrow> nat" where
  "state_index CREATED = 0"
| "state_index ARMED = 1"
| "state_index MONITORING = 2"
| "state_index STEERING_PENDING = 3"
| "state_index SANDBOX_ACTIVE = 4"
| "state_index ENGAGING = 5"
| "state_index CONCLUDING = 6"
| "state_index EVIDENCE_VERIFYING = 7"
| "state_index EXPORTED = 8"
| "state_index DESTROYED = 9"

lemma state_index_inj: "state_index a = state_index b \<longleftrightarrow> a = b"
  by (cases a; cases b) simp_all

instantiation case_state :: linorder
begin

definition less_eq_case_state :: "case_state \<Rightarrow> case_state \<Rightarrow> bool" where
  "less_eq_case_state a b = (state_index a \<le> state_index b)"

definition less_case_state :: "case_state \<Rightarrow> case_state \<Rightarrow> bool" where
  "less_case_state a b = (state_index a < state_index b)"

instance
  by standard (auto simp: less_eq_case_state_def less_case_state_def state_index_inj)

end

lemma allowed_index: "ALLOWED_TRANSITIONS s = Some t \<Longrightarrow> state_index t = Suc (state_index s)"
  by (cases s) (auto simp: ALLOWED_TRANSITIONS_def)

lemma allowed_None: "ALLOWED_TRANSITIONS s = None \<longleftrightarrow> s = TERMINAL_STATE"
  by (cases s) (simp_all add: ALLOWED_TRANSITIONS_def TERMINAL_STATE_def)

lemma state_index_le: "state_index s \<le> 9"
  by (cases s) simp_all

section \<open>transition\_case\<close>

datatype case_error =
    CaseNotFoundError string
  | OptimisticLockConflictError string int int
  | InvalidTransitionError string case_state

record transition_args =
  ta_case_id :: string
  ta_expected_version :: int
  ta_actor :: string
  ta_actor_type :: string
  ta_reason :: string
  ta_correlation_id :: "string option"

record transition_result =
  res_case_id :: string
  res_from_state :: case_state
  res_to_state :: case_state
  res_new_version :: int
  res_correlation_id :: string

definition state_changed_args :: "transition_args \<Rightarrow> string \<Rightarrow> case_state \<Rightarrow> case_state \<Rightarrow> int \<Rightarrow> build_args" where
  "state_changed_args a corr from to v =
     \<lparr>be_event_type = ''case.state_changed'', be_schema_version = ''1.0'',
      be_payload = JObj
        [(''case_id'', JStr (ta_case_id a)), (''from_state'', JStr (state_name from)),
         (''to_state'', JStr (state_name to)), (''actor'', JStr (ta_actor a)),
         (''actor_type'', JStr (ta_actor_type a)), (''reason'', JStr (ta_reason a)),
         (''new_version'', JInt v), (''correlation_id'', JStr corr)],
      be_source_id = ''mirage_common.case_state_machine'', be_sequence = v,
      be_actor_type = ta_actor_type a, be_classification = ''INTERNAL'',
      be_case_id = Some (ta_case_id a), be_session_id = None, be_event_id = None, be_event_time = None\<rparr>"

definition transition_audit_action :: "case_state \<Rightarrow> case_state \<Rightarrow> string" where
  "transition_audit_action from to = ''case.transition.'' @ state_name from @ ''_to_'' @ state_name to"

definition audit_recorded_args :: "transition_args \<Rightarrow> string \<Rightarrow> case_state \<Rightarrow> case_state \<Rightarrow> int \<Rightarrow> build_args" where
  "audit_recorded_args a corr from to v =
     \<lparr>be_event_type = ''audit.recorded'', be_schema_version = ''1.0'',
      be_payload = JObj
        [(''actor'', JStr (ta_actor a)), (''actor_type'', JStr (ta_actor_type a)),
         (''action'', JStr (transition_audit_action from to)), (''target'', JStr (ta_case_id a)),
         (''outcome'', JStr ''SUCCESS''), (''correlation_id'', JStr corr), (''detail'', JStr (ta_reason a))],
      be_source_id = ''mirage_common.case_state_machine'', be_sequence = v,
      be_actor_type = ta_actor_type a, be_classification = ''INTERNAL'',
      be_case_id = Some (ta_case_id a), be_session_id = None, be_event_id = None, be_event_time = None\<rparr>"

definition transition_audit_row :: "transition_args \<Rightarrow> string \<Rightarrow> case_state \<Rightarrow> case_state \<Rightarrow> audit_row" where
  "transition_audit_row a corr from to =
     \<lparr>au_actor = ta_actor a, au_actor_type = ta_actor_type a, au_action = transition_audit_action from to,
      au_target = ta_case_id a, au_outcome = ''SUCCESS'', au_correlation_id = corr, au_detail = ta_reason a\<rparr>"

definition transition_record :: "transition_args \<Rightarrow> string \<Rightarrow> case_state \<Rightarrow> case_state \<Rightarrow> int \<Rightarrow> transition_row" where
  "transition_record a corr from to v =
     \<lparr>tr_case_id = ta_case_id a, tr_from = from, tr_to = to, tr_actor = ta_actor a,
      tr_actor_type = ta_actor_type a, tr_reason = ta_reason a, tr_new_version = v, tr_correlation_id = corr\<rparr>"

definition advance_case :: "timestamp \<Rightarrow> string \<Rightarrow> int \<Rightarrow> case_state \<Rightarrow> int \<Rightarrow> db \<Rightarrow> db" where
  "advance_case now cid expected to v d =
     d\<lparr>cases := update_where (\<lambda>r. case_id r = cid \<and> case_version r = expected)
                 (\<lambda>r. r\<lparr>case_state := to, case_version := v, updated_at := now\<rparr>) (cases d)\<rparr>"

definition transition_case ::
  "env \<Rightarrow> transition_args \<Rightarrow> db \<Rightarrow> (case_error svc_error + transition_result) \<times> db" where
  "transition_case e a d =
     (let corr = py_or (ta_correlation_id a) (env_ids e 0); cid = ta_case_id a in
      case lookup_by case_id (cases d) cid of
        None \<Rightarrow> (Inl (App (CaseNotFoundError cid)), d)
      | Some row \<Rightarrow>
          if case_version row \<noteq> ta_expected_version a
          then (Inl (App (OptimisticLockConflictError cid (ta_expected_version a) (case_version row))), d)
          else (case ALLOWED_TRANSITIONS (case_state row) of
              None \<Rightarrow> (Inl (App (InvalidTransitionError cid (case_state row))), d)
            | Some to \<Rightarrow>
                let v = case_version row + 1;
                    d1 = advance_case (env_now e) cid (ta_expected_version a) to v d in
                if row_count (\<lambda>r. case_id r = cid \<and> case_version r = ta_expected_version a) (cases d) \<noteq> 1
                then (Inl (App (OptimisticLockConflictError cid (ta_expected_version a) (case_version row))), d1)
                else
                  let d2 = d1\<lparr>transitions := transitions d1 @ [transition_record a corr (case_state row) to v]\<rparr> in
                  case publish_validated e 1 (state_changed_args a corr (case_state row) to v) d2 of
                    Inl err \<Rightarrow> (Inl err, d2)
                  | Inr d3 \<Rightarrow>
                      let d4 = insert_audit (transition_audit_row a corr (case_state row) to) d3 in
                      case publish_validated e 2 (audit_recorded_args a corr (case_state row) to v) d4 of
                        Inl err \<Rightarrow> (Inl err, d4)
                      | Inr d5 \<Rightarrow>
                          (Inr \<lparr>res_case_id = cid, res_from_state = case_state row, res_to_state = to,
                                res_new_version = v, res_correlation_id = corr\<rparr>, d5)))"

section \<open>The outcome of a call\<close>

lemma subject_state_changed: "subject_for_event_type ''case.state_changed'' = Inr ''investigation.case.state_changed''"
  and subject_audit_recorded: "subject_for_event_type ''audit.recorded'' = Inr ''audit.recorded''"
  by code_simp+

lemma advance_case_frame [frame_simps]:
  "transitions (advance_case now cid x to v d) = transitions d"
  "audits (advance_case now cid x to v d) = audits d"
  "outbox (advance_case now cid x to v d) = outbox d"
  by (simp_all add: advance_case_def)

text \<open>The database a successful transition leaves.\<close>

definition transition_db :: "env \<Rightarrow> transition_args \<Rightarrow> string \<Rightarrow> case_state \<Rightarrow> case_state \<Rightarrow> int \<Rightarrow> db \<Rightarrow> db" where
  "transition_db e a corr from to v d =
     (advance_case (env_now e) (ta_case_id a) (ta_expected_version a) to v d)
       \<lparr>transitions := transitions d @ [transition_record a corr from to v],
        audits := audits d @ [transition_audit_row a corr from to],
        outbox := outbox d @
          [event_row e 1 (state_changed_args a corr from to v) ''investigation.case.state_changed'',
           event_row e 2 (audit_recorded_args a corr from to v) ''audit.recorded'']\<rparr>"

lemma transition_case_ok:
  assumes "transition_case e a d = (Inr res, d')"
  shows "\<exists>row to. lookup_by case_id (cases d) (ta_case_id a) = Some row \<and>
     case_version row = ta_expected_version a \<and> ALLOWED_TRANSITIONS (case_state row) = Some to \<and>
     res = \<lparr>res_case_id = ta_case_id a, res_from_state = case_state row, res_to_state = to,
            res_new_version = case_version row + 1,
            res_correlation_id = py_or (ta_correlation_id a) (env_ids e 0)\<rparr> \<and>
     d' = transition_db e a (py_or (ta_correlation_id a) (env_ids e 0)) (case_state row) to (case_version row + 1) d"
proof -
  let ?corr = "py_or (ta_correlation_id a) (env_ids e 0)"
  from assms obtain row to d3 where
    row: "lookup_by case_id (cases d) (ta_case_id a) = Some row" "case_version row = ta_expected_version a"
      "ALLOWED_TRANSITIONS (case_state row) = Some to" and
    p1: "publish_validated e 1 (state_changed_args a ?corr (case_state row) to (case_version row + 1))
       ((advance_case (env_now e) (ta_case_id a) (ta_expected_version a) to (case_version row + 1) d)
         \<lparr>transitions := transitions d @ [transition_record a ?corr (case_state row) to (case_version row + 1)]\<rparr>)
       = (Inr d3 :: case_error svc_error + db)" and
    p2: "publish_validated e 2 (audit_recorded_args a ?corr (case_state row) to (case_version row + 1))
       (insert_audit (transition_audit_row a ?corr (case_state row) to) d3) = (Inr d' :: case_error svc_error + db)" and
    res: "res = \<lparr>res_case_id = ta_case_id a, res_from_state = case_state row, res_to_state = to,
            res_new_version = case_version row + 1, res_correlation_id = ?corr\<rparr>"
    by (auto simp: transition_case_def Let_def frame_simps split: option.splits if_splits sum.splits)
  from publish_validated_ok [OF p1] have d3: "d3 =
       (advance_case (env_now e) (ta_case_id a) (ta_expected_version a) to (case_version row + 1) d)
         \<lparr>transitions := transitions d @ [transition_record a ?corr (case_state row) to (case_version row + 1)],
          outbox := outbox d @ [event_row e 1 (state_changed_args a ?corr (case_state row) to (case_version row + 1))
             ''investigation.case.state_changed'']\<rparr>"
    by (auto simp: state_changed_args_def subject_state_changed frame_simps)
  from publish_validated_ok [OF p2] have
    "d' = transition_db e a ?corr (case_state row) to (case_version row + 1) d"
    by (auto simp: audit_recorded_args_def subject_audit_recorded d3 insert_audit_def transition_db_def frame_simps)
  with row res show ?thesis by blast
qed

lemma transition_case_app_error:
  assumes "distinct (map case_id (cases d))" and "transition_case e a d = (Inl (App err), d')"
  shows "d' = d"
proof -
  have one: "row_count (\<lambda>r. case_id r = ta_case_id a \<and> case_version r = ta_expected_version a) (cases d) = 1"
    if "lookup_by case_id (cases d) (ta_case_id a) = Some row" "case_version row = ta_expected_version a" for row
    using that assms(1) by (intro row_count_unique [where key = case_id]) (auto dest: lookup_by_key)
  have no_app: "publish_validated e n x y \<noteq> Inl (App z)" for e n x y and z :: case_error
    by (auto simp: publish_validated_def insert_outbox_def Let_def split: sum.splits if_splits)
  from assms(2) one no_app show ?thesis
    by (auto simp: transition_case_def Let_def split: option.splits if_splits sum.splits)
qed

section \<open>The transition log\<close>

text \<open>Replaying a log of transitions from a state and a version, checking every entry.\<close>

fun replay :: "case_state \<Rightarrow> int \<Rightarrow> (case_state \<times> case_state \<times> int) list \<Rightarrow> (case_state \<times> int) option" where
  "replay s v [] = Some (s, v)"
| "replay s v ((from, to, w) # entries) =
     (if from = s \<and> ALLOWED_TRANSITIONS s = Some to \<and> w = v + 1 then replay to w entries else None)"

definition history :: "db \<Rightarrow> string \<Rightarrow> (case_state \<times> case_state \<times> int) list" where
  "history d cid = map (\<lambda>t. (tr_from t, tr_to t, tr_new_version t)) (filter (\<lambda>t. tr_case_id t = cid) (transitions d))"

lemma replay_snoc:
  "replay s v entries = Some (s', v') \<Longrightarrow> ALLOWED_TRANSITIONS s' = Some to \<Longrightarrow>
   replay s v (entries @ [(s', to, v' + 1)]) = Some (to, v' + 1)"
  by (induction s v entries rule: replay.induct) (auto split: if_splits)

lemma replay_length:
  "replay s v entries = Some (s', v') \<Longrightarrow>
   v' = v + int (length entries) \<and> state_index s' = state_index s + length entries"
  by (induction s v entries rule: replay.induct) (auto split: if_splits dest: allowed_index)

definition case_inv :: "db \<Rightarrow> bool" where
  "case_inv d \<longleftrightarrow> distinct (map case_id (cases d)) \<and>
     (\<forall>t \<in> set (transitions d). tr_case_id t \<in> case_id ` set (cases d)) \<and>
     (\<forall>r \<in> set (cases d). replay CREATED 1 (history d (case_id r)) = Some (case_state r, case_version r))"

lemma history_append:
  "history (d\<lparr>transitions := ts @ [t]\<rparr>) cid =
     history (d\<lparr>transitions := ts\<rparr>) cid @ (if tr_case_id t = cid then [(tr_from t, tr_to t, tr_new_version t)] else [])"
  by (simp add: history_def)

lemma history_cong: "transitions d = transitions d' \<Longrightarrow> history d cid = history d' cid"
  by (simp add: history_def)

lemma distinct_lookup: "distinct (map key rows) \<Longrightarrow> r \<in> set rows \<Longrightarrow> lookup_by key rows (key r) = Some r"
  by (induction rows) auto

lemma history_transition_db:
  "history (transition_db e a corr from to v d) cid =
     history d cid @ (if ta_case_id a = cid then [(from, to, v)] else [])"
  by (simp add: history_def transition_db_def transition_record_def)

lemma cases_transition_db:
  "cases (transition_db e a corr from to v d) =
     update_where (\<lambda>r. case_id r = ta_case_id a \<and> case_version r = ta_expected_version a)
       (\<lambda>r. r\<lparr>case_state := to, case_version := v, updated_at := env_now e\<rparr>) (cases d)"
  by (simp add: transition_db_def advance_case_def)

lemma case_inv_transition_db:
  assumes inv: "case_inv d" and row: "lookup_by case_id (cases d) (ta_case_id a) = Some row"
    and ver: "case_version row = ta_expected_version a" and to: "ALLOWED_TRANSITIONS (case_state row) = Some to"
  shows "case_inv (transition_db e a corr (case_state row) to (case_version row + 1) d)" (is "case_inv ?d")
proof -
  have ids: "map case_id (cases ?d) = map case_id (cases d)"
    unfolding cases_transition_db by (rule keys_update) simp
  have "row \<in> set (cases d)" "case_id row = ta_case_id a" using lookup_by_key [OF row] by auto
  have "distinct (map case_id (cases ?d))" using inv ids by (simp add: case_inv_def)
  moreover have "\<forall>t \<in> set (transitions ?d). tr_case_id t \<in> case_id ` set (cases ?d)"
  proof -
    have "case_id ` set (cases ?d) = case_id ` set (cases d)" using ids by (metis list.set_map)
    moreover have "ta_case_id a \<in> case_id ` set (cases d)"
      using \<open>row \<in> set (cases d)\<close> \<open>case_id row = ta_case_id a\<close> by force
    ultimately show ?thesis using inv by (auto simp: transition_db_def transition_record_def case_inv_def)
  qed
  moreover have "replay CREATED 1 (history ?d (case_id r)) = Some (case_state r, case_version r)"
    if r: "r \<in> set (cases ?d)" for r
  proof -
    from r obtain q where q: "q \<in> set (cases d)" and
      rq: "r = (if case_id q = ta_case_id a \<and> case_version q = ta_expected_version a
                then q\<lparr>case_state := to, case_version := case_version row + 1, updated_at := env_now e\<rparr> else q)"
      by (auto simp: cases_transition_db set_update_where)
    have rep: "replay CREATED 1 (history d (case_id q)) = Some (case_state q, case_version q)"
      using inv q by (auto simp: case_inv_def)
    show ?thesis
    proof (cases "case_id q = ta_case_id a")
      case True
      then have "q = row" using distinct_lookup [of case_id "cases d" q] inv q row
        by (simp add: case_inv_def)
      with rq True rep ver to show ?thesis by (simp add: history_transition_db replay_snoc)
    next
      case False
      with rq rep show ?thesis by (simp add: history_transition_db)
    qed
  qed
  ultimately show ?thesis by (simp add: case_inv_def)
qed

section \<open>Reachable databases\<close>

text \<open>
  A step is a call of \<^verbatim>\<open>transition_case\<close> in a transaction, or the insertion of a
  new case with the defaults of the \<^verbatim>\<open>cases\<close> table.
\<close>

inductive case_step :: "db \<Rightarrow> db \<Rightarrow> bool" where
  transition: "run_tx (transition_case e a) d = (res, d') \<Longrightarrow> case_step d d'"
| open_case: "insert_case row d = (Inr d' :: case_error svc_error + db) \<Longrightarrow>
    case_state row = CREATED \<Longrightarrow> case_version row = 1 \<Longrightarrow> case_step d d'"

inductive_cases case_stepE: "case_step d d'"

lemma case_inv_insert:
  assumes "case_inv d" and "insert_case row d = Inr d'" and "case_state row = CREATED" and "case_version row = 1"
  shows "case_inv d'"
proof -
  from assms(2) have d': "d' = d\<lparr>cases := cases d @ [row]\<rparr>" and new: "case_id row \<notin> case_id ` set (cases d)"
    by (auto simp: insert_case_def split: if_splits)
  from assms(1) new have "\<forall>t \<in> set (transitions d). tr_case_id t \<noteq> case_id row"
    by (metis case_inv_def)
  then have "history d (case_id row) = []"
    by (simp add: history_def filter_empty_conv)
  with assms d' new show ?thesis by (auto simp: case_inv_def history_def)
qed

interpretation case_sys: step_system case_step case_inv
proof
  fix d d' assume "case_step d d'" and inv: "case_inv d"
  then show "case_inv d'"
  proof (cases rule: case_step.cases)
    case (transition e a res)
    show ?thesis
    proof (cases res)
      case (Inl err)
      with transition inv show ?thesis by (auto dest: run_tx_error)
    next
      case (Inr r)
      with transition have "transition_case e a d = (Inr r, d')" by (simp add: run_tx_ok)
      from transition_case_ok [OF this] inv show ?thesis by (auto intro: case_inv_transition_db)
    qed
  next
    case (open_case row)
    with inv show ?thesis by (auto intro: case_inv_insert)
  qed
qed

lemma case_inv_empty: "case_inv empty_db"
  by (simp add: case_inv_def empty_db_def)

section \<open>Optimistic locking\<close>

definition case_ver :: "db \<Rightarrow> string \<Rightarrow> int option" where
  "case_ver d cid = map_option case_version (lookup_by case_id (cases d) cid)"

definition case_exec ::
  "db \<Rightarrow> string \<Rightarrow> int \<Rightarrow> env \<times> transition_args \<Rightarrow> transition_result option \<times> db" where
  "case_exec d cid v x =
     (case run_tx (transition_case (fst x) ((snd x)\<lparr>ta_case_id := cid, ta_expected_version := v\<rparr>)) d of
        (Inl _, d') \<Rightarrow> (None, d') | (Inr r, d') \<Rightarrow> (Some r, d'))"

lemma case_exec_Some:
  "case_exec d cid v x = (Some r, d') \<longleftrightarrow>
   transition_case (fst x) ((snd x)\<lparr>ta_case_id := cid, ta_expected_version := v\<rparr>) d = (Inr r, d')"
  by (auto simp: case_exec_def run_tx_def split: prod.splits sum.splits)

lemma case_exec_None: "case_exec d cid v x = (None, d') \<Longrightarrow> d' = d"
  by (auto simp: case_exec_def split: prod.splits sum.splits dest: run_tx_error)

lemma case_ver_transition_db:
  "case_ver (transition_db e a corr from to v d) cid =
     map_option (\<lambda>r. if case_id r = ta_case_id a \<and> case_version r = ta_expected_version a then v
                     else case_version r) (lookup_by case_id (cases d) cid)"
  by (cases "lookup_by case_id (cases d) cid") (auto simp: case_ver_def cases_transition_db)

interpretation case_lock: optimistic_store case_ver case_exec
proof
  fix d cid v x r d' assume "case_exec d cid v x = (Some r, d')"
  then have "transition_case (fst x) ((snd x)\<lparr>ta_case_id := cid, ta_expected_version := v\<rparr>) d = (Inr r, d')"
    by (simp add: case_exec_Some)
  from transition_case_ok [OF this] show "case_ver d cid = Some v \<and> case_ver d' cid = Some (v + 1)"
    by (auto simp: case_ver_transition_db) (auto simp: case_ver_def dest: lookup_by_key)
next
  fix d cid v x d' assume "case_exec d cid v x = (None, d')"
  then show "d' = d" by (rule case_exec_None)
next
  fix d cid v x q d' k assume ex: "case_exec d cid v x = (q, d')" and k: "k \<noteq> cid"
  show "case_ver d' k = case_ver d k"
  proof (cases q)
    case None
    with ex show ?thesis by (auto dest: case_exec_None)
  next
    case (Some r)
    with ex have "transition_case (fst x) ((snd x)\<lparr>ta_case_id := cid, ta_expected_version := v\<rparr>) d = (Inr r, d')"
      by (simp add: case_exec_Some)
    from transition_case_ok [OF this] obtain e a corr s t w
      where "d' = transition_db e a corr s t w d" and "ta_case_id a = cid" by fastforce
    with k show ?thesis
      by (cases "lookup_by case_id (cases d) k")
        (auto simp: case_ver_transition_db, auto simp: case_ver_def dest: lookup_by_key)
  qed
qed

section \<open>Progress\<close>

text \<open>A transition returns when the version is current, the state is not terminal and the two events can be published.\<close>

lemma transition_case_progress:
  fixes e a row to
  defines "corr \<equiv> py_or (ta_correlation_id a) (env_ids e 0)"
  assumes ids: "distinct (map case_id (cases d))"
    and row: "lookup_by case_id (cases d) (ta_case_id a) = Some row" "case_version row = ta_expected_version a"
    and to: "ALLOWED_TRANSITIONS (case_state row) = Some to"
    and p1: "publishable e 1 (state_changed_args a corr (case_state row) to (case_version row + 1)) d"
    and p2: "publishable e 2 (audit_recorded_args a corr (case_state row) to (case_version row + 1)) d"
    and new: "env_ids e 1 \<noteq> env_ids e 2" "env_ids e 1 \<noteq> []" "env_ids e 2 \<noteq> []"
  shows "\<exists>res. transition_case e a d =
     (Inr res, transition_db e a corr (case_state row) to (case_version row + 1) d)"
proof -
  let ?v = "case_version row + 1"
  let ?d1 = "advance_case (env_now e) (ta_case_id a) (ta_expected_version a) to ?v d"
  let ?d2 = "?d1\<lparr>transitions := transitions d @ [transition_record a corr (case_state row) to ?v]\<rparr>"
  let ?r1 = "event_row e 1 (state_changed_args a corr (case_state row) to ?v) ''investigation.case.state_changed''"
  let ?d4 = "insert_audit (transition_audit_row a corr (case_state row) to) (?d2\<lparr>outbox := outbox d @ [?r1]\<rparr>)"
  have "row_count (\<lambda>r. case_id r = ta_case_id a \<and> case_version r = ta_expected_version a) (cases d) = 1"
    using ids row by (intro row_count_unique [where key = case_id]) (auto dest: lookup_by_key)
  moreover have "publish_validated e 1 (state_changed_args a corr (case_state row) to ?v) ?d2
      = (Inr (?d2\<lparr>outbox := outbox ?d2 @ [?r1]\<rparr>) :: case_error svc_error + db)"
    using p1 by (intro publish_chain)
      (simp_all add: publishable_def frame_simps state_changed_args_def subject_state_changed)
  moreover have "publish_validated e 2 (audit_recorded_args a corr (case_state row) to ?v) ?d4
      = (Inr (?d4\<lparr>outbox := outbox ?d4 @ [event_row e 2 (audit_recorded_args a corr (case_state row) to ?v)
            ''audit.recorded'']\<rparr>) :: case_error svc_error + db)"
    using p2 new by (intro publish_chain)
      (simp_all add: publishable_def insert_audit_def audit_recorded_args_def subject_audit_recorded
        event_row_def py_or_def state_changed_args_def)
  ultimately show ?thesis
    using row to
    by (simp add: transition_case_def Let_def corr_def frame_simps insert_audit_def transition_db_def)
qed

section \<open>Properties\<close>

definition sample_case :: case_row where
  "sample_case = \<lparr>case_id = ''C'', case_state = SANDBOX_ACTIVE, case_version = 5, severity = ''HIGH'',
                  owner = None, correlation_key = Some ''k'', updated_at = 0\<rparr>"

definition sample_db :: db where
  "sample_db = empty_db\<lparr>cases := [sample_case]\<rparr>"

definition sample_transition :: transition_args where
  "sample_transition = \<lparr>ta_case_id = ''C'', ta_expected_version = 5, ta_actor = ''a'',
     ta_actor_type = ''ANALYST'', ta_reason = ''r'', ta_correlation_id = Some ''x''\<rparr>"

definition sample_case_env :: env where
  "sample_case_env = sample_env [''case.state_changed'', ''audit.recorded'', ''fingerprint.gate_evaluated'']"

lemma sample_ids: "env_ids (sample_env t) n = CHR ''I'' # show_nat n"
  by (simp add: sample_env_def)

lemma sample_transition_ok:
  assumes "outbox d = []" and "cases d = [sample_case]"
  shows "\<exists>res. transition_case sample_case_env sample_transition d =
     (Inr res, transition_db sample_case_env sample_transition ''x'' SANDBOX_ACTIVE ENGAGING 6 d)"
proof -
  have args: "py_or (ta_correlation_id sample_transition) (env_ids sample_case_env 0) = ''x''"
    by (simp add: sample_transition_def py_or_def)
  have "length (canonical_json_bytes (\<lambda>_. ''0.5'') (be_payload (state_changed_args sample_transition ''x'' SANDBOX_ACTIVE ENGAGING 6))) \<le> 900"
    "length (canonical_json_bytes (\<lambda>_. ''0.5'') (be_payload (audit_recorded_args sample_transition ''x'' SANDBOX_ACTIVE ENGAGING 6))) \<le> 900"
    by code_simp+
  then have "publishable sample_case_env 1 (state_changed_args sample_transition ''x'' SANDBOX_ACTIVE ENGAGING 6) d"
    "publishable sample_case_env 2 (audit_recorded_args sample_transition ''x'' SANDBOX_ACTIVE ENGAGING 6) d"
    unfolding sample_case_env_def using assms
    by (auto intro!: sample_publishable)
      (auto simp: state_changed_args_def audit_recorded_args_def subject_state_changed subject_audit_recorded)
  moreover have "lookup_by case_id (cases d) (ta_case_id sample_transition) = Some sample_case"
    by (simp add: assms sample_case_def sample_transition_def)
  ultimately show ?thesis
    using transition_case_progress [of d sample_transition sample_case ENGAGING sample_case_env]
    by (simp add: args assms(2) sample_case_def sample_transition_def ALLOWED_TRANSITIONS_def
        sample_case_env_def sample_ids show_nat_inj py_or_def)
qed



text \<open>C4. Every refusal of \<^verbatim>\<open>transition_case\<close> (unknown case, stale version, no further transition)
  leaves the database as it was, and each is raised exactly in its situation.\<close>

theorem transition_case_refusals:
  assumes "case_inv d"
  shows "case lookup_by case_id (cases d) (ta_case_id a) of
     None \<Rightarrow> transition_case e a d = (Inl (App (CaseNotFoundError (ta_case_id a))), d)
   | Some row \<Rightarrow>
       if case_version row \<noteq> ta_expected_version a
       then transition_case e a d =
         (Inl (App (OptimisticLockConflictError (ta_case_id a) (ta_expected_version a) (case_version row))), d)
       else if case_state row = DESTROYED
       then transition_case e a d = (Inl (App (InvalidTransitionError (ta_case_id a) DESTROYED)), d)
       else \<forall>err. fst (transition_case e a d) \<noteq> Inl (App err)"
proof -
  have one: "row_count (\<lambda>r. case_id r = ta_case_id a \<and> case_version r = ta_expected_version a) (cases d) = 1"
    if "lookup_by case_id (cases d) (ta_case_id a) = Some row" "case_version row = ta_expected_version a" for row
    using that assms by (intro row_count_unique [where key = case_id]) (auto simp: case_inv_def dest: lookup_by_key)
  have no_app: "publish_validated e n x y \<noteq> Inl (App z)" for e n x y and z :: case_error
    by (auto simp: publish_validated_def insert_outbox_def Let_def split: sum.splits if_splits)
  show ?thesis
  proof (cases "lookup_by case_id (cases d) (ta_case_id a)")
    case None
    then show ?thesis by (simp add: transition_case_def Let_def)
  next
    case (Some row)
    show ?thesis
    proof (cases "case_version row = ta_expected_version a \<and> case_state row \<noteq> DESTROYED")
      case False
      with Some show ?thesis by (auto simp: transition_case_def Let_def ALLOWED_TRANSITIONS_def)
    next
      case True
      then obtain to where "ALLOWED_TRANSITIONS (case_state row) = Some to"
        using allowed_None by (auto simp: TERMINAL_STATE_def)
      with Some True one no_app show ?thesis
        by (auto simp: transition_case_def Let_def split: sum.splits)
    qed
  qed
qed

theorem transition_case_refusals_witness:
  "transition_case sample_case_env sample_transition empty_db = (Inl (App (CaseNotFoundError ''C'')), empty_db)"
  using transition_case_refusals [OF case_inv_empty, of sample_case_env sample_transition]
  by (simp add: empty_db_def sample_transition_def)

text \<open>C2. In every reachable database the transition log of a case replays to the case's current state
  and version; a case has passed through every state before its own, and a destroyed case has
  exactly nine transitions.\<close>

theorem case_history_replays:
  assumes "case_step\<^sup>*\<^sup>* empty_db d" and "r \<in> set (cases d)"
  shows "replay CREATED 1 (history d (case_id r)) = Some (case_state r, case_version r) \<and>
     case_version r = 1 + int (state_index (case_state r)) \<and>
     length (history d (case_id r)) = state_index (case_state r)"
proof -
  have "case_inv d" using case_sys.steps_inv [OF assms(1) case_inv_empty] .
  then have rep: "replay CREATED 1 (history d (case_id r)) = Some (case_state r, case_version r)"
    using assms(2) by (simp add: case_inv_def)
  from replay_length [OF this] show ?thesis using rep by simp
qed

theorem case_history_replays_witness:
  "\<exists>(d :: db) (r :: case_row). case_step\<^sup>*\<^sup>* empty_db d \<and> r \<in> set (cases d) \<and> length (history d (case_id r)) = 0"
proof -
  let ?r = "sample_case\<lparr>case_state := CREATED, case_version := 1\<rparr>"
  have "insert_case ?r empty_db = (Inr (empty_db\<lparr>cases := [?r]\<rparr>) :: case_error svc_error + db)"
    by (simp add: insert_case_def empty_db_def sample_case_def)
  then have step: "case_step\<^sup>*\<^sup>* empty_db (empty_db\<lparr>cases := [?r]\<rparr>)"
    by (intro r_into_rtranclp case_step.open_case) auto
  have mem: "?r \<in> set (cases (empty_db\<lparr>cases := [?r]\<rparr>))" by simp
  have "case_state ?r = CREATED" by simp
  with case_history_replays [OF step mem]
  have "length (history (empty_db\<lparr>cases := [?r]\<rparr>) (case_id ?r)) = 0"
    by (metis state_index.simps(1))
  with step mem show ?thesis by blast
qed

text \<open>C3. Of two requests to move a case from the same version at most one succeeds, whatever other
  transitions run in between: the later one is refused and changes nothing. This is the replay safety
  the module claims without an idempotency key.\<close>

theorem case_transition_one_winner:
  assumes "case_exec d cid v x = (Some r, d')"
  shows "case_exec (case_lock.exec_all d' requests) cid v y = (None, case_lock.exec_all d' requests)"
  using assms by (rule case_lock.at_most_one_winner)

theorem case_transition_one_winner_witness:
  "\<exists>r d'. case_exec sample_db ''C'' 5 (sample_case_env, sample_transition) = (Some r, d') \<and>
     case_exec d' ''C'' 5 (sample_case_env, sample_transition) = (None, d')"
proof -
  obtain res where "transition_case sample_case_env sample_transition sample_db =
     (Inr res, transition_db sample_case_env sample_transition ''x'' SANDBOX_ACTIVE ENGAGING 6 sample_db)"
    using sample_transition_ok [of sample_db] by (auto simp: sample_db_def empty_db_def)
  then have run: "case_exec sample_db ''C'' 5 (sample_case_env, sample_transition) =
    (Some res, transition_db sample_case_env sample_transition ''x'' SANDBOX_ACTIVE ENGAGING 6 sample_db)"
    by (simp add: case_exec_Some sample_transition_def)
  from case_transition_one_winner [OF run, of "[]"] run show ?thesis by auto
qed

end
