(* ===== verification/Mirage_Fingerprint.thy ===== *)
theory Mirage_Fingerprint
  imports Mirage_Cases
begin

text \<open>
  \<^verbatim>\<open>libs/mirage_common/fingerprint.py\<close> and \<^verbatim>\<open>fingerprint_gate.py\<close>: the
  comparators of the fingerprint checklist, the scoring rule (every MUST check,
  three quarters of the SHOULD checks) and the gate in front of the transition
  SANDBOX\_ACTIVE to ENGAGING.

  The evidence text of a check result is kept as the data it prints
  (\<open>evidence\<close>). Regular expressions are third-party to the model: \<open>fullmatch\<close>
  decides whether a compiled pattern matches a whole process name.
\<close>

section \<open>Python values\<close>

text \<open>\<^verbatim>\<open>set(x)\<close> of a JSON value, normalised so that equality is Python's.\<close>

definition py_set :: "json \<Rightarrow> contract_error + json set" where
  "py_set j = (case j of
      JArr xs \<Rightarrow> if list_all hashable xs then Inr (py_norm ` set xs) else Inl (TypeError ''unhashable type'')
    | JObj kvs \<Rightarrow> Inr ((JStr \<circ> fst) ` set kvs)
    | JStr s \<Rightarrow> Inr ((\<lambda>c. JStr [c]) ` set s)
    | _ \<Rightarrow> Inl (TypeError ''object is not iterable''))"

definition py_le :: "json \<Rightarrow> json \<Rightarrow> contract_error + bool" where
  "py_le a b = (case (py_num a, py_num b) of
      (Some x, Some y) \<Rightarrow> Inr (x \<le> y)
    | _ \<Rightarrow> (case (a, b) of (JStr s, JStr t) \<Rightarrow> Inr (s \<le> t) | _ \<Rightarrow> Inl (TypeError ''not comparable'')))"

definition str_list :: "json \<Rightarrow> contract_error + string list" where
  "str_list j = (case j of
      JArr xs \<Rightarrow> if list_all (\<lambda>x. case x of JStr _ \<Rightarrow> True | _ \<Rightarrow> False) xs
                then Inr (map (\<lambda>x. case x of JStr s \<Rightarrow> s | _ \<Rightarrow> []) xs) else Inl (TypeError ''expected a string'')
    | JStr s \<Rightarrow> Inr (map (\<lambda>c. [c]) s)
    | JObj kvs \<Rightarrow> Inr (map fst kvs)
    | _ \<Rightarrow> Inl (TypeError ''expected a list''))"

section \<open>Comparators (fingerprint.py)\<close>

datatype level = MUST | SHOULD

datatype evidence =
    MismatchedFields "(string \<times> json \<times> json) list"
  | ExactMatch
  | BaselineMismatch "(string \<times> json \<times> json) list"
  | MatchesBaseline
  | MissingRequired "string list"
  | RequiredPresent nat
  | FilesPredate nat json "json list"
  | NoFilesPredate json
  | ForbiddenVisible "string list"
  | NoForbidden nat
  | NoObservedValue
  | RangeValue json json json
  | NoObservation

type_synonym comparator = "json \<Rightarrow> json \<Rightarrow> contract_error + bool \<times> evidence"

fun dict_items :: "json \<Rightarrow> (string \<times> json) list" where
  "dict_items (JObj kvs) = kvs"
| "dict_items _ = []"

definition compare_exact :: comparator where
  "compare_exact expected observed =
     (let mism = filter (\<lambda>(k, v, ev). \<not> py_eq ev v) (map (\<lambda>(k, v). (k, v, py_get observed k)) (dict_items expected)) in
      if mism \<noteq> [] then Inr (False, MismatchedFields mism) else Inr (True, ExactMatch))"

fun baseline_mismatches :: "json \<Rightarrow> (string \<times> json) list \<Rightarrow> contract_error + (string \<times> json \<times> json) list" where
  "baseline_mismatches observed [] = Inr []"
| "baseline_mismatches observed ((k, v) # kvs) =
     (let ev = py_get observed k in
      case (case v of
              JArr xs \<Rightarrow>
                (case py_set v of Inl e \<Rightarrow> Inl e | Inr sv \<Rightarrow>
                  (case py_set (if py_falsy ev then JArr [] else ev) of Inl e \<Rightarrow> Inl e | Inr se \<Rightarrow> Inr (sv = se)))
            | _ \<Rightarrow> Inr (py_eq ev v)) of
        Inl e \<Rightarrow> Inl e
      | Inr ok \<Rightarrow>
          (case baseline_mismatches observed kvs of
             Inl e \<Rightarrow> Inl e
           | Inr rest \<Rightarrow> Inr (if ok then rest else (k, v, ev) # rest)))"

definition compare_baseline_match :: comparator where
  "compare_baseline_match expected observed =
     (case baseline_mismatches observed (dict_items expected) of
        Inl e \<Rightarrow> Inl e
      | Inr mism \<Rightarrow> if mism \<noteq> [] then Inr (False, BaselineMismatch mism) else Inr (True, MatchesBaseline))"

definition compare_required_subset :: comparator where
  "compare_required_subset expected observed =
     (case str_list (py_get_default expected ''required'' (JArr [])) of Inl e \<Rightarrow> Inl e | Inr required \<Rightarrow>
      case str_list (py_get_default observed ''installed'' (JArr [])) of Inl e \<Rightarrow> Inl e | Inr installed \<Rightarrow>
        let missing = filter (\<lambda>x. x \<notin> set installed) (remdups required) in
        if missing \<noteq> [] then Inr (False, MissingRequired (sort missing))
        else Inr (True, RequiredPresent (length (remdups required))))"

definition compare_no_file_predates_date :: comparator where
  "compare_no_file_predates_date expected observed =
     (let hire = py_get expected ''fictional_hire_date'';
          offenders = py_get_default observed ''files_predating_hire_date'' (JArr []) in
      if \<not> py_falsy offenders
      then (case offenders of
              JArr xs \<Rightarrow> Inr (False, FilesPredate (length xs) hire (take 5 xs))
            | JStr s \<Rightarrow> Inr (False, FilesPredate (length s) hire [JStr (take 5 s)])
            | _ \<Rightarrow> Inl (TypeError ''object has no len() or slice''))
      else Inr (True, NoFilesPredate hire))"

definition compare_allowed_set_forbidden_patterns :: "(string \<Rightarrow> string \<Rightarrow> bool) \<Rightarrow> comparator" where
  "compare_allowed_set_forbidden_patterns fullmatch expected observed =
     (case str_list (py_get_default expected ''forbidden_patterns'' (JArr [])) of Inl e \<Rightarrow> Inl e | Inr patterns \<Rightarrow>
      case str_list (py_get_default expected ''allowed'' (JArr [])) of Inl e \<Rightarrow> Inl e | Inr allowed \<Rightarrow>
      case str_list (py_get_default observed ''running'' (JArr [])) of Inl e \<Rightarrow> Inl e | Inr running \<Rightarrow>
        let regexes = map (str_replace1 (CHR ''*'') ''.*'') patterns;
            hits = filter (\<lambda>proc. proc \<notin> set allowed \<and> list_ex (\<lambda>rx. fullmatch rx proc) regexes) running in
        if hits \<noteq> [] then Inr (False, ForbiddenVisible hits) else Inr (True, NoForbidden (length running)))"

definition compare_range :: comparator where
  "compare_range expected observed =
     (let value = py_get observed ''value'';
          lo = (if jget expected ''min'' \<noteq> None then py_get expected ''min'' else py_get expected ''min_hours'');
          hi = (if jget expected ''max'' \<noteq> None then py_get expected ''max'' else py_get expected ''max_hours'') in
      if value = JNull then Inr (False, NoObservedValue)
      else case (if lo = JNull then Inr True else py_le lo value) of Inl e \<Rightarrow> Inl e | Inr lo_ok \<Rightarrow>
        if \<not> lo_ok then Inr (False, RangeValue value lo hi)
        else case (if hi = JNull then Inr True else py_le value hi) of Inl e \<Rightarrow> Inl e | Inr hi_ok \<Rightarrow>
          Inr (hi_ok, RangeValue value lo hi))"

definition COMPARATORS :: "(string \<Rightarrow> string \<Rightarrow> bool) \<Rightarrow> (string \<times> comparator) list" where
  "COMPARATORS fullmatch =
     [(''exact'', compare_exact), (''baseline_match'', compare_baseline_match),
      (''required_subset'', compare_required_subset),
      (''no_file_predates_date'', compare_no_file_predates_date),
      (''allowed_set_forbidden_patterns'', compare_allowed_set_forbidden_patterns fullmatch),
      (''range'', compare_range)]"

section \<open>Reports\<close>

record check_result =
  cr_check_name :: string
  cr_comparator :: string
  cr_level :: level
  cr_expected :: json
  cr_observed :: json
  cr_passed :: bool
  cr_evidence :: evidence

record fingerprint_report =
  rep_target_id :: string
  rep_baseline_version :: string
  rep_results :: "check_result list"

definition must_checks :: "fingerprint_report \<Rightarrow> check_result list" where
  "must_checks r = filter (\<lambda>c. cr_level c = MUST) (rep_results r)"

definition should_checks :: "fingerprint_report \<Rightarrow> check_result list" where
  "should_checks r = filter (\<lambda>c. cr_level c = SHOULD) (rep_results r)"

definition all_must_passed :: "fingerprint_report \<Rightarrow> bool" where
  "all_must_passed r = list_all cr_passed (must_checks r)"

definition should_pass_ratio :: "fingerprint_report \<Rightarrow> rat" where
  "should_pass_ratio r =
     (let should = should_checks r in
      if should = [] then 1 else of_nat (length (filter cr_passed should)) / of_nat (length should))"

definition SHOULD_PASS_THRESHOLD :: rat where
  "SHOULD_PASS_THRESHOLD = 3 / 4"

definition report_passed :: "fingerprint_report \<Rightarrow> bool" where
  "report_passed r = (all_must_passed r \<and> should_pass_ratio r \<ge> SHOULD_PASS_THRESHOLD)"

record check =
  ck_comparator :: string
  ck_expected :: json
  ck_level :: level

record baseline =
  bl_target_id :: string
  bl_version :: string
  bl_checks :: "(string \<times> check) list"

definition run_check :: "(string \<Rightarrow> string \<Rightarrow> bool) \<Rightarrow> json \<Rightarrow> string \<times> check \<Rightarrow> contract_error + check_result" where
  "run_check fullmatch observed nc =
     (let name = fst nc; c = snd nc; obs = py_get observed name;
          result = (\<lambda>o' p ev. \<lparr>cr_check_name = name, cr_comparator = ck_comparator c, cr_level = ck_level c,
                     cr_expected = ck_expected c, cr_observed = o', cr_passed = p, cr_evidence = ev\<rparr>) in
      if obs = JNull then Inr (result JNull False NoObservation)
      else case map_of (COMPARATORS fullmatch) (ck_comparator c) of
        None \<Rightarrow> Inl (KeyError (ck_comparator c))
      | Some f \<Rightarrow>
          if \<not> is_dict obs then Inl (TypeError ''observation is not a mapping'')
          else (case f (ck_expected c) obs of
                  Inl e \<Rightarrow> Inl e
                | Inr (passed, ev) \<Rightarrow> Inr (result obs passed ev)))"

fun run_checks :: "(string \<Rightarrow> string \<Rightarrow> bool) \<Rightarrow> json \<Rightarrow> (string \<times> check) list \<Rightarrow> contract_error + check_result list" where
  "run_checks fullmatch observed [] = Inr []"
| "run_checks fullmatch observed (c # cs) =
     (case run_check fullmatch observed c of
        Inl e \<Rightarrow> Inl e
      | Inr r \<Rightarrow> (case run_checks fullmatch observed cs of Inl e \<Rightarrow> Inl e | Inr rs \<Rightarrow> Inr (r # rs)))"

definition run_fingerprint_check ::
  "(string \<Rightarrow> string \<Rightarrow> bool) \<Rightarrow> baseline \<Rightarrow> json \<Rightarrow> contract_error + fingerprint_report" where
  "run_fingerprint_check fullmatch bl observed =
     (case run_checks fullmatch observed (bl_checks bl) of
        Inl e \<Rightarrow> Inl e
      | Inr rs \<Rightarrow> Inr \<lparr>rep_target_id = bl_target_id bl, rep_baseline_version = bl_version bl, rep_results = rs\<rparr>)"

section \<open>Lemmas on reports\<close>

lemma run_checks_ok:
  "run_checks fm obs cs = Inr rs \<Longrightarrow> list_all2 (\<lambda>c r. run_check fm obs c = Inr r) cs rs"
  by (induction cs arbitrary: rs) (auto split: sum.splits)

lemma run_check_fields:
  "run_check fm obs c = Inr r \<Longrightarrow> cr_check_name r = fst c \<and> cr_level r = ck_level (snd c)"
  by (auto simp: run_check_def Let_def split: if_splits option.splits sum.splits)

lemma three_quarters: "0 < b \<Longrightarrow> 3 / 4 \<le> a / b \<longleftrightarrow> 3 * b \<le> 4 * (a :: rat)"
  by (auto simp: pos_le_divide_eq)

lemma report_passed_count:
  "report_passed r \<longleftrightarrow>
     (\<forall>c \<in> set (rep_results r). cr_level c = MUST \<longrightarrow> cr_passed c) \<and>
     3 * length (should_checks r) \<le> 4 * length (filter cr_passed (should_checks r))"
proof -
  let ?p = "length (filter cr_passed (should_checks r))" and ?n = "length (should_checks r)"
  have "should_pass_ratio r \<ge> SHOULD_PASS_THRESHOLD \<longleftrightarrow> 3 * ?n \<le> 4 * ?p"
  proof (cases "should_checks r = []")
    case True
    then show ?thesis by (simp add: should_pass_ratio_def SHOULD_PASS_THRESHOLD_def)
  next
    case False
    then have pos: "0 < (of_nat ?n :: rat)"
      and ratio: "should_pass_ratio r = of_nat ?p / of_nat ?n"
      by (simp_all add: should_pass_ratio_def Let_def)
    have "should_pass_ratio r \<ge> SHOULD_PASS_THRESHOLD \<longleftrightarrow> 3 * (of_nat ?n :: rat) \<le> 4 * of_nat ?p"
      unfolding SHOULD_PASS_THRESHOLD_def ratio by (rule three_quarters [OF pos])
    also have "\<dots> \<longleftrightarrow> (of_nat (3 * ?n) :: rat) \<le> of_nat (4 * ?p)" by simp
    also have "\<dots> \<longleftrightarrow> 3 * ?n \<le> 4 * ?p" by (rule of_nat_le_iff)
    finally show ?thesis .
  qed
  then show ?thesis
    by (auto simp: report_passed_def all_must_passed_def must_checks_def list_all_iff)
qed

lemma missing_must_fails:
  assumes "run_fingerprint_check fm bl obs = Inr r" and "(name, c) \<in> set (bl_checks bl)"
    and "ck_level c = MUST" and "py_get obs name = JNull"
  shows "\<not> report_passed r"
proof -
  from assms(1) have "list_all2 (\<lambda>c r. run_check fm obs c = Inr r) (bl_checks bl) (rep_results r)"
    by (auto simp: run_fingerprint_check_def split: sum.splits dest: run_checks_ok)
  from list_all2_member [OF this assms(2)]
  obtain q where q: "q \<in> set (rep_results r)" "run_check fm obs (name, c) = Inr q" by blast
  then have "\<not> cr_passed q" "cr_level q = MUST"
    using assms(3,4) by (auto simp: run_check_def Let_def)
  with q show ?thesis by (auto simp: report_passed_count)
qed

section \<open>The gate (fingerprint\_gate.py)\<close>

definition GATED_TRANSITION :: "case_state \<times> case_state" where
  "GATED_TRANSITION = (SANDBOX_ACTIVE, ENGAGING)"

datatype gate_error = GateCase case_error | FingerprintGateBlockedError string fingerprint_report

record gate_evaluation =
  ge_passed :: bool
  ge_report :: fingerprint_report

definition lift_case_error :: "case_error svc_error \<Rightarrow> gate_error svc_error" where
  "lift_case_error e = (case e of Contract c \<Rightarrow> Contract c | Db b \<Rightarrow> Db b | App a \<Rightarrow> App (GateCase a))"

definition failed_must_checks :: "fingerprint_report \<Rightarrow> string list" where
  "failed_must_checks r = map cr_check_name (filter (\<lambda>c. \<not> cr_passed c) (must_checks r))"

definition gate_event_args :: "string \<Rightarrow> string \<Rightarrow> fingerprint_report \<Rightarrow> build_args" where
  "gate_event_args cid sid r =
     \<lparr>be_event_type = ''fingerprint.gate_evaluated'', be_schema_version = ''1.0'',
      be_payload = JObj
        [(''case_id'', JStr cid), (''sandbox_id'', JStr sid), (''baseline_version'', JStr (rep_baseline_version r)),
         (''passed'', JBool (report_passed r)), (''all_must_passed'', JBool (all_must_passed r)),
         (''should_pass_ratio'', JFloat (should_pass_ratio r)),
         (''failed_must_checks'', JArr (map JStr (failed_must_checks r))),
         (''blocked'', JBool (\<not> report_passed r))],
      be_source_id = ''mirage_common.fingerprint_gate'', be_sequence = 1, be_actor_type = ''SYSTEM'',
      be_classification = ''EVIDENCE'', be_case_id = Some cid, be_session_id = None,
      be_event_id = None, be_event_time = None\<rparr>"

definition gate_audit_row :: "string \<Rightarrow> string \<Rightarrow> fingerprint_report \<Rightarrow> audit_row" where
  "gate_audit_row cid corr r =
     \<lparr>au_actor = ''mirage_common.fingerprint_gate'', au_actor_type = ''SYSTEM'',
      au_action = (if report_passed r then ''fingerprint_gate.passed'' else ''fingerprint_gate.blocked''),
      au_target = cid, au_outcome = (if report_passed r then ''SUCCESS'' else ''FAILURE''),
      au_correlation_id = corr,
      au_detail = (if report_passed r then ''MUST=100%, SHOULD>=75%''
                   else ''failed MUST checks: '' @ py_repr_list (failed_must_checks r))\<rparr>"

definition observed_snapshot :: "db \<Rightarrow> string \<Rightarrow> json" where
  "observed_snapshot d sid = (case map_of (snapshots d) sid of None \<Rightarrow> JObj [] | Some j \<Rightarrow> j)"

definition evaluate_and_record ::
  "(string \<Rightarrow> string \<Rightarrow> bool) \<Rightarrow> env \<Rightarrow> string \<Rightarrow> string \<Rightarrow> baseline \<Rightarrow> string \<Rightarrow> db \<Rightarrow>
   (gate_error svc_error + gate_evaluation) \<times> db" where
  "evaluate_and_record fm e cid sid bl corr d =
     (case run_fingerprint_check fm bl (observed_snapshot d sid) of
        Inl err \<Rightarrow> (Inl (Contract err), d)
      | Inr r \<Rightarrow>
          (case publish_validated e 0 (gate_event_args cid sid r) d of
             Inl err \<Rightarrow> (Inl err, d)
           | Inr d1 \<Rightarrow> (Inr \<lparr>ge_passed = report_passed r, ge_report = r\<rparr>,
                        insert_audit (gate_audit_row cid corr r) d1)))"

definition gate_reason :: "bool \<Rightarrow> string" where
  "gate_reason gated =
     (if gated then ''fingerprint gate passed ('' @ [CHR 0xC2, CHR 0xA7] @ ''6.5: MUST=100%, SHOULD>=75%)''
      else ''advance (fingerprint gate not applicable to this transition)'')"

record gate_args =
  ga_case_id :: string
  ga_sandbox_id :: string
  ga_baseline :: baseline
  ga_expected_version :: int
  ga_actor :: string
  ga_actor_type :: string
  ga_correlation_id :: "string option"

definition gate_transition_args :: "gate_args \<Rightarrow> string \<Rightarrow> bool \<Rightarrow> transition_args" where
  "gate_transition_args g corr gated =
     \<lparr>ta_case_id = ga_case_id g, ta_expected_version = ga_expected_version g, ta_actor = ga_actor g,
      ta_actor_type = ga_actor_type g, ta_reason = gate_reason gated, ta_correlation_id = Some corr\<rparr>"

definition call_transition ::
  "env \<Rightarrow> transition_args \<Rightarrow> conn \<Rightarrow> (gate_error svc_error + transition_result) \<times> conn" where
  "call_transition e a c =
     (case transition_case e a (working c) of
        (Inl err, d) \<Rightarrow> (Inl (lift_case_error err), c\<lparr>working := d\<rparr>)
      | (Inr r, d) \<Rightarrow> (Inr r, c\<lparr>working := d\<rparr>))"

definition enforce_fingerprint_gate_before_engaging ::
  "(string \<Rightarrow> string \<Rightarrow> bool) \<Rightarrow> env \<Rightarrow> gate_args \<Rightarrow> conn \<Rightarrow>
   (gate_error svc_error + transition_result) \<times> conn" where
  "enforce_fingerprint_gate_before_engaging fm e g c =
     (let corr = py_or (ga_correlation_id g) (env_ids e 0); cid = ga_case_id g in
      case lookup_by case_id (cases (working c)) cid of
        None \<Rightarrow> (Inl (App (GateCase (CaseNotFoundError cid))), c)
      | Some row \<Rightarrow>
          if case_state row \<noteq> fst GATED_TRANSITION
          then call_transition (shift_ids 1 e) (gate_transition_args g corr False) c
          else if case_version row \<noteq> ga_expected_version g
          then (Inl (App (GateCase (OptimisticLockConflictError cid (ga_expected_version g) (case_version row)))), c)
          else
            (case evaluate_and_record fm (shift_ids 1 e) cid (ga_sandbox_id g) (ga_baseline g) corr (working c) of
               (Inl err, d) \<Rightarrow> (Inl err, c\<lparr>working := d\<rparr>)
             | (Inr ev, d) \<Rightarrow>
                 let c1 = c\<lparr>working := d\<rparr> in
                 if \<not> ge_passed ev
                 then (Inl (App (FingerprintGateBlockedError cid (ge_report ev))), conn_commit c1)
                 else call_transition (shift_ids 2 e) (gate_transition_args g corr True) c1))"

section \<open>Outcomes of the gate\<close>

lemma subject_gate_evaluated:
  "subject_for_event_type ''fingerprint.gate_evaluated'' = Inr ''investigation.fingerprint_gate_evaluated''"
  by code_simp

text \<open>What an evaluation adds to the database.\<close>

definition gate_db :: "env \<Rightarrow> string \<Rightarrow> string \<Rightarrow> string \<Rightarrow> fingerprint_report \<Rightarrow> db \<Rightarrow> db" where
  "gate_db e cid sid corr r d =
     d\<lparr>outbox := outbox d @ [event_row e 0 (gate_event_args cid sid r) ''investigation.fingerprint_gate_evaluated''],
       audits := audits d @ [gate_audit_row cid corr r]\<rparr>"

lemma evaluate_and_record_ok:
  assumes "evaluate_and_record fm e cid sid bl corr d = (Inr ev, d')"
  shows "\<exists>r. run_fingerprint_check fm bl (observed_snapshot d sid) = Inr r \<and>
    ev = \<lparr>ge_passed = report_passed r, ge_report = r\<rparr> \<and> d' = gate_db e cid sid corr r d"
  using assms
  by (auto simp: evaluate_and_record_def insert_audit_def gate_event_args_def subject_gate_evaluated gate_db_def
      split: sum.splits dest!: publish_validated_ok)

lemma evaluate_and_record_no_app: "evaluate_and_record fm e cid sid bl corr d \<noteq> (Inl (App x), d')"
  by (auto simp: evaluate_and_record_def publish_validated_def insert_outbox_def Let_def
      split: sum.splits if_splits)

lemma call_transition_ok:
  "call_transition e a c = (Inr r, c') \<Longrightarrow>
   committed c' = committed c \<and> transition_case e a (working c) = (Inr r, working c')"
  by (auto simp: call_transition_def split: prod.splits sum.splits)

lemma call_transition_not_blocked:
  "call_transition e a c \<noteq> (Inl (App (FingerprintGateBlockedError x r)), c')"
  by (auto simp: call_transition_def lift_case_error_def split: prod.splits sum.splits svc_error.splits)

lemma transition_from:
  "transition_case e a d = (Inr r, d') \<Longrightarrow> lookup_by case_id (cases d) (ta_case_id a) = Some row \<Longrightarrow>
   res_from_state r = case_state row \<and> ALLOWED_TRANSITIONS (case_state row) = Some (res_to_state r)"
  by (drule transition_case_ok) auto

lemma engaging_predecessor: "ALLOWED_TRANSITIONS s = Some ENGAGING \<longleftrightarrow> s = SANDBOX_ACTIVE"
  by (cases s) (simp_all add: ALLOWED_TRANSITIONS_def)

section \<open>Properties\<close>

definition sample_baseline :: baseline where
  "sample_baseline = \<lparr>bl_target_id = ''t'', bl_version = ''1'',
     bl_checks = [(''host'', \<lparr>ck_comparator = ''exact'', ck_expected = JObj [(''name'', JStr ''pc'')], ck_level = MUST\<rparr>)]\<rparr>"

definition sample_gate_db :: "json \<Rightarrow> db" where
  "sample_gate_db snap = sample_db\<lparr>snapshots := [(''S'', snap)]\<rparr>"

definition sample_gate_args :: gate_args where
  "sample_gate_args = \<lparr>ga_case_id = ''C'', ga_sandbox_id = ''S'', ga_baseline = sample_baseline,
     ga_expected_version = 5, ga_actor = ''a'', ga_actor_type = ''ANALYST'', ga_correlation_id = Some ''x''\<rparr>"

definition good_snapshot :: json where
  "good_snapshot = JObj [(''host'', JObj [(''name'', JStr ''pc'')])]"

definition sample_report :: "bool \<Rightarrow> fingerprint_report" where
  "sample_report ok = \<lparr>rep_target_id = ''t'', rep_baseline_version = ''1'',
     rep_results = [\<lparr>cr_check_name = ''host'', cr_comparator = ''exact'', cr_level = MUST,
       cr_expected = JObj [(''name'', JStr ''pc'')],
       cr_observed = (if ok then JObj [(''name'', JStr ''pc'')] else JNull), cr_passed = ok,
       cr_evidence = (if ok then ExactMatch else NoObservation)\<rparr>]\<rparr>"

text \<open>The score: a report passes exactly when every MUST check passed and at least three quarters of the
  SHOULD checks did (none failing when there are fewer than four); with no SHOULD check only the MUST checks count.\<close>

theorem report_passed_iff:
  "report_passed r \<longleftrightarrow>
     (\<forall>c \<in> set (rep_results r). cr_level c = MUST \<longrightarrow> cr_passed c) \<and>
     3 * length (filter (\<lambda>c. cr_level c = SHOULD) (rep_results r)) \<le>
       4 * length (filter cr_passed (filter (\<lambda>c. cr_level c = SHOULD) (rep_results r)))"
  by (simp only: report_passed_count should_checks_def)

theorem report_passed_iff_witness:
  "report_passed (sample_report True) \<and> \<not> report_passed (sample_report False)"
  unfolding report_passed_iff by (simp add: sample_report_def)

text \<open>A MUST check with no observation in the sandbox's snapshot (also when the sandbox has no snapshot at
  all) fails the whole report, whatever its comparator and expectation are.\<close>

theorem missing_must_observation_fails:
  assumes "run_fingerprint_check fm bl obs = Inr r" and "(name, c) \<in> set (bl_checks bl)"
    and "ck_level c = MUST" and "py_get obs name = JNull"
  shows "\<not> report_passed r"
  using assms by (rule missing_must_fails)

lemma sample_fingerprint:
  "run_fingerprint_check fm sample_baseline (JObj []) = Inr (sample_report False)"
  "run_fingerprint_check fm sample_baseline good_snapshot = Inr (sample_report True)"
  by (simp_all add: run_fingerprint_check_def sample_baseline_def run_check_def py_get_def sample_report_def
      good_snapshot_def COMPARATORS_def is_dict_def compare_exact_def py_eq_def Let_def)

theorem missing_must_observation_fails_witness: "\<not> report_passed (sample_report False)"
  by (rule missing_must_observation_fails [OF sample_fingerprint(1) [of "\<lambda>_ _. False"], of "''host''"
        "snd (hd (bl_checks sample_baseline))"])
    (simp_all add: sample_baseline_def py_get_def)

lemma sample_report_passed: "report_passed (sample_report ok) = ok"
  by (simp add: sample_report_def report_passed_count should_checks_def)

text \<open>C5. No case gets to ENGAGING through the gate unless the fingerprint report of its sandbox's stored
  snapshot passed; the passing audit row is written before the transition's, in one transaction that the gate
  does not commit.\<close>

theorem gate_guards_engaging:
  assumes "enforce_fingerprint_gate_before_engaging fm e g c = (Inr res, c')" and "res_to_state res = ENGAGING"
  shows "\<exists>r corr t. run_fingerprint_check fm (ga_baseline g) (observed_snapshot (working c) (ga_sandbox_id g)) = Inr r \<and>
     report_passed r \<and> committed c' = committed c \<and>
     audits (working c') = audits (working c) @ [gate_audit_row (ga_case_id g) corr r, t] \<and>
     au_action t = ''case.transition.SANDBOX_ACTIVE_to_ENGAGING''"
proof -
  let ?corr = "py_or (ga_correlation_id g) (env_ids e 0)"
  from assms(1) obtain row where row: "lookup_by case_id (cases (working c)) (ga_case_id g) = Some row"
    by (auto simp: enforce_fingerprint_gate_before_engaging_def Let_def split: option.splits)
  have state: "case_state row = SANDBOX_ACTIVE"
  proof (rule ccontr)
    assume no: "case_state row \<noteq> SANDBOX_ACTIVE"
    with assms(1) row have "call_transition (shift_ids 1 e) (gate_transition_args g ?corr False) c = (Inr res, c')"
      by (simp add: enforce_fingerprint_gate_before_engaging_def GATED_TRANSITION_def Let_def)
    from call_transition_ok [OF this] have
      "transition_case (shift_ids 1 e) (gate_transition_args g ?corr False) (working c) = (Inr res, working c')" by simp
    from transition_from [OF this] row assms(2) no show False
      by (simp add: gate_transition_args_def engaging_predecessor)
  qed
  from assms(1) row state obtain ev d where
    ev: "evaluate_and_record fm (shift_ids 1 e) (ga_case_id g) (ga_sandbox_id g) (ga_baseline g) ?corr (working c)
           = (Inr ev, d)" "ge_passed ev" and
    call: "call_transition (shift_ids 2 e) (gate_transition_args g ?corr True) (c\<lparr>working := d\<rparr>) = (Inr res, c')"
    by (auto simp: enforce_fingerprint_gate_before_engaging_def GATED_TRANSITION_def Let_def
        split: if_splits prod.splits sum.splits)
  from evaluate_and_record_ok [OF ev(1)] obtain r where
    r: "run_fingerprint_check fm (ga_baseline g) (observed_snapshot (working c) (ga_sandbox_id g)) = Inr r"
       "ev = \<lparr>ge_passed = report_passed r, ge_report = r\<rparr>"
       "d = gate_db (shift_ids 1 e) (ga_case_id g) (ga_sandbox_id g) ?corr r (working c)" by blast
  from call_transition_ok [OF call] have c': "committed c' = committed c" and
    t: "transition_case (shift_ids 2 e) (gate_transition_args g ?corr True) d = (Inr res, working c')" by simp_all
  from transition_case_ok [OF t] row state r(3) obtain corr where
    "audits (working c') = audits d @ [transition_audit_row (gate_transition_args g ?corr True) corr SANDBOX_ACTIVE ENGAGING]"
    by (auto simp: gate_db_def gate_transition_args_def transition_db_def ALLOWED_TRANSITIONS_def)
  then have "audits (working c') = audits (working c) @ [gate_audit_row (ga_case_id g) ?corr r,
      transition_audit_row (gate_transition_args g ?corr True) corr SANDBOX_ACTIVE ENGAGING]"
    by (simp add: r(3) gate_db_def)
  moreover have "au_action (transition_audit_row (gate_transition_args g ?corr True) corr SANDBOX_ACTIVE ENGAGING) =
      ''case.transition.SANDBOX_ACTIVE_to_ENGAGING''"
    by (simp add: transition_audit_row_def transition_audit_action_def state_name_def)
  ultimately show ?thesis using r ev(2) c' by (metis gate_evaluation.select_convs(1))
qed

text \<open>A failing report is kept although the call raises: with the case in SANDBOX\_ACTIVE at the expected version,
  a report that does not pass makes the gate raise \<^verbatim>\<open>FingerprintGateBlockedError\<close> after committing the
  \<^verbatim>\<open>fingerprint_gate.blocked\<close> audit row and the gate event; a rollback by the caller does not lose them, and
  the case row is untouched.\<close>

theorem gate_block_survives_rollback:
  assumes "lookup_by case_id (cases (working c)) (ga_case_id g) = Some row"
    and "case_state row = SANDBOX_ACTIVE" and "case_version row = ga_expected_version g"
    and "run_fingerprint_check fm (ga_baseline g) (observed_snapshot (working c) (ga_sandbox_id g)) = Inr r"
    and "\<not> report_passed r"
    and "publishable (shift_ids 1 e) 0 (gate_event_args (ga_case_id g) (ga_sandbox_id g) r) (working c)"
  shows "\<exists>c' corr. enforce_fingerprint_gate_before_engaging fm e g c =
       (Inl (App (FingerprintGateBlockedError (ga_case_id g) r)), c') \<and>
     conn_rollback c' = c' \<and> cases (committed c') = cases (working c) \<and>
     transitions (committed c') = transitions (working c) \<and>
     audits (committed c') = audits (working c) @ [gate_audit_row (ga_case_id g) corr r] \<and>
     au_action (gate_audit_row (ga_case_id g) corr r) = ''fingerprint_gate.blocked'' \<and>
     map ob_topic (outbox (committed c')) = map ob_topic (outbox (working c)) @ [''investigation.fingerprint_gate_evaluated'']"
proof -
  let ?corr = "py_or (ga_correlation_id g) (env_ids e 0)"
  let ?d = "gate_db (shift_ids 1 e) (ga_case_id g) (ga_sandbox_id g) ?corr r (working c)"
  have "subject_for_event_type (be_event_type (gate_event_args (ga_case_id g) (ga_sandbox_id g) r)) =
      Inr ''investigation.fingerprint_gate_evaluated''"
    by (simp add: gate_event_args_def subject_gate_evaluated)
  from publish_chain [OF assms(6) this, where 'a = gate_error]
  have "evaluate_and_record fm (shift_ids 1 e) (ga_case_id g) (ga_sandbox_id g) (ga_baseline g) ?corr (working c) =
      (Inr \<lparr>ge_passed = False, ge_report = r\<rparr>, ?d)"
    using assms(4,5) by (simp add: evaluate_and_record_def insert_audit_def gate_db_def)
  with assms(1-3) have "enforce_fingerprint_gate_before_engaging fm e g c =
      (Inl (App (FingerprintGateBlockedError (ga_case_id g) r)), conn_commit (c\<lparr>working := ?d\<rparr>))"
    by (simp add: enforce_fingerprint_gate_before_engaging_def GATED_TRANSITION_def Let_def)
  moreover have "au_action (gate_audit_row (ga_case_id g) ?corr r) = ''fingerprint_gate.blocked''"
    using assms(5) by (simp add: gate_audit_row_def)
  ultimately show ?thesis
    by (intro exI [of _ "conn_commit (c\<lparr>working := ?d\<rparr>)"] exI [of _ ?corr])
      (simp add: conn_commit_def conn_rollback_def gate_db_def event_row_def)
qed

lemma sample_gate_facts:
  "lookup_by case_id (cases (working \<lparr>committed = empty_db, working = sample_gate_db s\<rparr>)) (ga_case_id sample_gate_args) = Some sample_case"
  "case_state sample_case = SANDBOX_ACTIVE" "case_version sample_case = ga_expected_version sample_gate_args"
  "observed_snapshot (sample_gate_db s) ''S'' = s"
  "ga_baseline sample_gate_args = sample_baseline" "outbox (sample_gate_db s) = []"
  "ga_case_id sample_gate_args = ''C''" "ga_sandbox_id sample_gate_args = ''S''"
  "lookup_by case_id (cases (sample_gate_db s)) ''C'' = Some sample_case"
  by (simp_all add: sample_gate_db_def sample_db_def empty_db_def sample_gate_args_def sample_case_def
      observed_snapshot_def)

lemma sample_gate_publishable:
  assumes "outbox d = []"
  shows "publishable sample_case_env k (gate_event_args ''C'' ''S'' (sample_report ok)) d"
proof -
  have "length (canonical_json_bytes (\<lambda>_. ''0.5'') (be_payload (gate_event_args ''C'' ''S'' (sample_report ok)))) \<le> 900"
    by (cases ok) (simp_all, code_simp, code_simp)
  with assms show ?thesis
    unfolding sample_case_env_def
    by (intro sample_publishable) (simp_all add: gate_event_args_def subject_gate_evaluated)
qed

theorem gate_block_survives_rollback_witness:
  "\<exists>c'. enforce_fingerprint_gate_before_engaging (\<lambda>_ _. False) sample_case_env sample_gate_args
       \<lparr>committed = empty_db, working = sample_gate_db (JObj [])\<rparr> =
       (Inl (App (FingerprintGateBlockedError ''C'' (sample_report False))), c') \<and>
     map au_action (audits (committed (conn_rollback c'))) = [''fingerprint_gate.blocked'']"
proof -
  let ?c = "\<lparr>committed = empty_db, working = sample_gate_db (JObj [])\<rparr>"
  have "publishable (shift_ids 1 sample_case_env) 0
     (gate_event_args (ga_case_id sample_gate_args) (ga_sandbox_id sample_gate_args) (sample_report False)) (working ?c)"
    using sample_gate_publishable [of "working ?c"] by (simp add: sample_gate_facts)
  from gate_block_survives_rollback [OF sample_gate_facts(1-3) _ _ this, of "\<lambda>_ _. False"]
  obtain c' corr where "enforce_fingerprint_gate_before_engaging (\<lambda>_ _. False) sample_case_env sample_gate_args ?c =
       (Inl (App (FingerprintGateBlockedError ''C'' (sample_report False))), c')" "conn_rollback c' = c'"
    "audits (committed c') = audits (working ?c) @ [gate_audit_row ''C'' corr (sample_report False)]"
    "au_action (gate_audit_row ''C'' corr (sample_report False)) = ''fingerprint_gate.blocked''"
    unfolding sample_gate_facts
    using sample_fingerprint(1) [of "\<lambda>_ _. False"] sample_report_passed [of False] sample_gate_facts(4) [of "JObj []"]
    by (auto simp: sample_gate_facts)
  then show ?thesis by (intro exI [of _ c']) (simp add: sample_gate_db_def sample_db_def empty_db_def)
qed

lemma sample_gate_passes:
  "\<exists>res c'. enforce_fingerprint_gate_before_engaging (\<lambda>_ _. False) sample_case_env sample_gate_args
       \<lparr>committed = empty_db, working = sample_gate_db good_snapshot\<rparr> = (Inr res, c') \<and> res_to_state res = ENGAGING"
proof -
  let ?a = "gate_transition_args sample_gate_args ''x'' True"
  let ?e = "shift_ids 2 sample_case_env"
  let ?d = "gate_db (shift_ids 1 sample_case_env) ''C'' ''S'' ''x'' (sample_report True) (sample_gate_db good_snapshot)"
  have corr: "py_or (ga_correlation_id sample_gate_args) i = ''x''" "py_or (ta_correlation_id ?a) i = ''x''" for i
    by (simp_all add: sample_gate_args_def py_or_def gate_transition_args_def)
  have "publishable (shift_ids 1 sample_case_env) 0 (gate_event_args ''C'' ''S'' (sample_report True)) (sample_gate_db good_snapshot)"
    by (simp add: sample_gate_publishable sample_gate_facts)
  from publish_chain [OF this, where 'a = gate_error] have ev:
    "evaluate_and_record (\<lambda>_ _. False) (shift_ids 1 sample_case_env) ''C'' ''S'' sample_baseline ''x'' (sample_gate_db good_snapshot)
       = (Inr \<lparr>ge_passed = True, ge_report = sample_report True\<rparr>, ?d)"
    using sample_gate_facts(4) [of good_snapshot] sample_fingerprint(2) [of "\<lambda>_ _. False"]
    by (simp add: evaluate_and_record_def insert_audit_def gate_db_def gate_event_args_def subject_gate_evaluated
        sample_report_passed sample_gate_facts)
  have len: "length (canonical_json_bytes (\<lambda>_. ''0.5'') (be_payload (state_changed_args ?a ''x'' SANDBOX_ACTIVE ENGAGING 6))) \<le> 900"
    "length (canonical_json_bytes (\<lambda>_. ''0.5'') (be_payload (audit_recorded_args ?a ''x'' SANDBOX_ACTIVE ENGAGING 6))) \<le> 900"
    by code_simp+
  have ob: "ob_event_id ` set (outbox ?d) = {CHR ''I'' # show_nat 1}" "cases ?d = [sample_case]"
    by (simp_all add: gate_db_def sample_gate_db_def sample_db_def empty_db_def event_row_def gate_event_args_def
        py_or_def sample_case_env_def sample_ids)
  have pub: "publishable ?e 1 (state_changed_args ?a ''x'' SANDBOX_ACTIVE ENGAGING 6) ?d"
    "publishable ?e 2 (audit_recorded_args ?a ''x'' SANDBOX_ACTIVE ENGAGING 6) ?d"
    unfolding publishable_shift sample_case_env_def
    by (rule sample_publishable; use len ob in \<open>simp add: state_changed_args_def audit_recorded_args_def
        subject_state_changed subject_audit_recorded show_nat_inj sample_case_env_def\<close>)+
  have row: "lookup_by case_id (cases ?d) (ta_case_id ?a) = Some sample_case" "case_version sample_case = ta_expected_version ?a"
    "ALLOWED_TRANSITIONS (case_state sample_case) = Some ENGAGING" "case_version sample_case + 1 = 6"
    "case_state sample_case = SANDBOX_ACTIVE" "distinct (map case_id (cases ?d))"
    unfolding ob(2) by (simp_all add: gate_transition_args_def sample_gate_args_def sample_case_def ALLOWED_TRANSITIONS_def)
  have ids: "env_ids ?e 1 \<noteq> env_ids ?e 2" "env_ids ?e 1 \<noteq> []" "env_ids ?e 2 \<noteq> []"
    by (simp_all add: sample_case_env_def sample_ids show_nat_inj)
  obtain res D where run: "transition_case ?e ?a ?d = (Inr res, D)"
    using transition_case_progress [OF row(6) row(1-3), of ?e] pub ids by (auto simp: corr row(4,5))
  have "res_to_state res = ENGAGING" using transition_from [OF run row(1)] row(3) by simp
  moreover have "enforce_fingerprint_gate_before_engaging (\<lambda>_ _. False) sample_case_env sample_gate_args
       \<lparr>committed = empty_db, working = sample_gate_db good_snapshot\<rparr> = (Inr res, \<lparr>committed = empty_db, working = D\<rparr>)"
    using run ev
    by (simp add: sample_gate_facts enforce_fingerprint_gate_before_engaging_def GATED_TRANSITION_def Let_def corr call_transition_def)
  ultimately show ?thesis by blast
qed

theorem gate_guards_engaging_witness:
  "\<exists>r. run_fingerprint_check (\<lambda>_ _. False) sample_baseline good_snapshot = Inr r \<and> report_passed r"
proof -
  obtain res c' where "enforce_fingerprint_gate_before_engaging (\<lambda>_ _. False) sample_case_env sample_gate_args
       \<lparr>committed = empty_db, working = sample_gate_db good_snapshot\<rparr> = (Inr res, c')" "res_to_state res = ENGAGING"
    using sample_gate_passes by blast
  from gate_guards_engaging [OF this] show ?thesis by (auto simp: sample_gate_facts)
qed

end
