(* ===== verification/Mirage_Routing.thy ===== *)
theory Mirage_Routing
  imports Mirage_Cases
begin

text \<open>
  \<^verbatim>\<open>libs/mirage_common/routing.py\<close> and the two handlers of
  \<^verbatim>\<open>services/mirage-api/mirage_api/app.py\<close> that use it (\<^verbatim>\<open>steer_case\<close>, \<^verbatim>\<open>route\<close>):
  which backend a broker connects a session to. Decisions are rows with a
  validity interval; migration 0005 forbids two overlapping intervals for one
  match key, and everything the read side relies on follows from that.
\<close>

section \<open>Match keys\<close>

definition DEFAULT_TARGET :: string where
  "DEFAULT_TARGET = ''ENDPOINT''"

definition ROUTE_CACHE_TTL_SECONDS :: rat where
  "ROUTE_CACHE_TTL_SECONDS = 1"

definition build_match_key :: "string \<Rightarrow> string \<Rightarrow> string \<Rightarrow> string \<Rightarrow> string" where
  "build_match_key protocol listener_id source_ip who =
     protocol @ ''|'' @ listener_id @ ''|'' @ source_ip @ ''|'' @ who"

section \<open>The constraints of routing\_decisions (migration 0005)\<close>

definition before_end :: "timestamp \<Rightarrow> timestamp option \<Rightarrow> bool" where
  "before_end t u = (case u of None \<Rightarrow> True | Some v \<Rightarrow> t < v)"

definition ranges_overlap :: "routing_row \<Rightarrow> routing_row \<Rightarrow> bool" where
  "ranges_overlap a b =
     (before_end (ro_valid_from a) (ro_valid_until b) \<and> before_end (ro_valid_from b) (ro_valid_until a))"

definition insert_routing :: "routing_row \<Rightarrow> db \<Rightarrow> 'e svc_error + db" where
  "insert_routing r d =
     (if ro_target r \<noteq> ''ENDPOINT'' \<and> ro_target r \<noteq> ''SANDBOX'' then Inl (Db (CheckViolation ''target''))
      else if \<not> before_end (ro_valid_from r) (ro_valid_until r)
        then Inl (Db (CheckViolation ''routing_decisions_validity_order''))
      else if list_ex (\<lambda>q. ro_match_key q = ro_match_key r \<and> ranges_overlap q r) (routings d)
        then Inl (Db (ExclusionViolation ''routing_decisions''))
      else if ro_case_id r \<notin> case_id ` set (cases d) then Inl (Db (ForeignKeyViolation ''cases''))
      else Inr (d\<lparr>routings := routings d @ [r]\<rparr>))"

section \<open>Writing a decision\<close>

record routing_decision =
  rd_decision_id :: string
  rd_case_id :: string
  rd_match_key :: string
  rd_target :: string
  rd_version :: int
  rd_valid_from :: timestamp
  rd_valid_until :: "timestamp option"

record decision_args =
  da_case_id :: string
  da_match_key :: string
  da_protocol :: json
  da_target :: string
  da_created_by :: string
  da_valid_from :: "timestamp option"
  da_valid_until :: "timestamp option"

definition next_version :: "db \<Rightarrow> string \<Rightarrow> int" where
  "next_version d mk = fold max (map ro_version (filter (\<lambda>r. ro_match_key r = mk) (routings d))) 0 + 1"

definition decision_row :: "env \<Rightarrow> decision_args \<Rightarrow> int \<Rightarrow> routing_row" where
  "decision_row e a v =
     \<lparr>ro_case_id = da_case_id a, ro_match_key = da_match_key a, ro_target = da_target a,
      ro_valid_from = (case da_valid_from a of None \<Rightarrow> env_now e | Some t \<Rightarrow> t),
      ro_valid_until = da_valid_until a, ro_version = v, ro_created_by = da_created_by a\<rparr>"

definition decision_audit_row :: "string \<Rightarrow> decision_args \<Rightarrow> audit_row" where
  "decision_audit_row did a =
     \<lparr>au_actor = da_created_by a, au_actor_type = ''ANALYST'', au_action = ''routing.decision_approved'',
      au_target = da_case_id a, au_outcome = ''SUCCESS'', au_correlation_id = did,
      au_detail = ''match_key='' @ da_match_key a @ '' target='' @ da_target a\<rparr>"

definition decision_event_args ::
  "string \<Rightarrow> string \<Rightarrow> json \<Rightarrow> string \<Rightarrow> string \<Rightarrow> int \<Rightarrow> string \<Rightarrow> string \<Rightarrow> string option \<Rightarrow> build_args" where
  "decision_event_args did cid protocol mk target v action actor_type env_case =
     \<lparr>be_event_type = ''steering.decision_recorded'', be_schema_version = ''1.0'',
      be_payload = JObj
        [(''decision_id'', JStr did), (''case_id'', JStr cid), (''protocol'', protocol),
         (''match_key'', JStr mk), (''target'', JStr target), (''decision_version'', JInt v),
         (''action'', JStr action)],
      be_source_id = ''mirage-api'', be_sequence = v, be_actor_type = actor_type,
      be_classification = ''INTERNAL'', be_case_id = env_case, be_session_id = None,
      be_event_id = None, be_event_time = None\<rparr>"

definition write_routing_decision ::
  "env \<Rightarrow> decision_args \<Rightarrow> db \<Rightarrow> ('e svc_error + routing_decision) \<times> db" where
  "write_routing_decision e a d =
     (let did = env_ids e 0; v = next_version d (da_match_key a); r = decision_row e a v in
      case insert_routing r d of
        Inl err \<Rightarrow> (Inl err, d)
      | Inr d1 \<Rightarrow>
          let d2 = insert_audit (decision_audit_row did a) d1 in
          case publish_validated e 1
                 (decision_event_args did (da_case_id a) (da_protocol a) (da_match_key a) (da_target a) v
                    ''CREATED'' ''ANALYST'' (Some (da_case_id a))) d2 of
            Inl err \<Rightarrow> (Inl err, d2)
          | Inr d3 \<Rightarrow>
              (Inr \<lparr>rd_decision_id = did, rd_case_id = da_case_id a, rd_match_key = da_match_key a,
                    rd_target = da_target a, rd_version = v, rd_valid_from = ro_valid_from r,
                    rd_valid_until = ro_valid_until r\<rparr>, d3))"

section \<open>Resolving a route\<close>

definition active_for :: "string \<Rightarrow> timestamp \<Rightarrow> routing_row \<Rightarrow> bool" where
  "active_for mk now r = (ro_match_key r = mk \<and> ro_valid_from r \<le> now \<and> before_end now (ro_valid_until r))"

definition newest :: "routing_row list \<Rightarrow> routing_row option" where
  "newest rows = (case rows of [] \<Rightarrow> None
     | r # rs \<Rightarrow> Some (foldl (\<lambda>b x. if ro_valid_from x > ro_valid_from b then x else b) r rs))"

definition resolve_route :: "env \<Rightarrow> string \<Rightarrow> string \<Rightarrow> db \<Rightarrow> ('e svc_error + string) \<times> db" where
  "resolve_route e mk protocol d =
     (let row = newest (filter (active_for mk (env_now e)) (routings d));
          (target, action, cid, version) =
            (case row of None \<Rightarrow> (DEFAULT_TARGET, ''FAILSAFE_DEFAULT'', None, 0)
                       | Some r \<Rightarrow> (ro_target r, ''SELECTED'', Some (ro_case_id r), ro_version r));
          fallback = (case cid of None \<Rightarrow> True | Some c \<Rightarrow> c = []) in
      case publish_validated e (if fallback then 2 else 1)
             (decision_event_args (env_ids e 0) (py_or cid (env_ids e 1)) (JStr protocol) mk target
                (max version 1) action ''SYSTEM'' cid) d of
        Inl err \<Rightarrow> (Inl err, d)
      | Inr d' \<Rightarrow> (Inr target, d'))"

section \<open>The route cache\<close>

type_synonym route_cache = "(string \<times> string \<times> rat) list"

definition cache_get :: "rat \<Rightarrow> rat \<Rightarrow> string \<Rightarrow> route_cache \<Rightarrow> string option \<times> route_cache" where
  "cache_get ttl now mk c =
     (case map_of c mk of
        None \<Rightarrow> (None, c)
      | Some (target, cached_at) \<Rightarrow>
          if now - cached_at > ttl then (None, AList.delete mk c) else (Some target, c))"

definition cache_set :: "rat \<Rightarrow> string \<Rightarrow> string \<Rightarrow> route_cache \<Rightarrow> route_cache" where
  "cache_set now mk target c = AList.update mk (target, now) c"

section \<open>The handlers (mirage\_api/app.py)\<close>

definition body_str :: "json \<Rightarrow> string \<Rightarrow> api_error + string" where
  "body_str body k = (case jget body k of
      Some (JStr s) \<Rightarrow> Inr s
    | _ \<Rightarrow> Inl (Unhandled (Db (DatabaseError k))))"

definition steer_body :: "env \<Rightarrow> string \<Rightarrow> string \<Rightarrow> json \<Rightarrow> db \<Rightarrow> (api_error + routing_decision) \<times> db" where
  "steer_body e cid username body d =
     (case find (\<lambda>f. jget body f = None) [''match_key'', ''protocol'', ''target''] of
        Some f \<Rightarrow> (Inl (HTTPException 400 (''missing required field: '' @ f)), d)
      | None \<Rightarrow>
          if jget body ''target'' \<noteq> Some (JStr ''ENDPOINT'') \<and> jget body ''target'' \<noteq> Some (JStr ''SANDBOX'')
          then (Inl (HTTPException 400 ''target must be ENDPOINT or SANDBOX''), d)
          else if lookup_by case_id (cases d) cid = None then (Inl (HTTPException 404 ''unknown case''), d)
          else
            (case body_str body ''match_key'' of Inl err \<Rightarrow> (Inl err, d) | Inr mk \<Rightarrow>
             case body_str body ''target'' of Inl err \<Rightarrow> (Inl err, d) | Inr target \<Rightarrow>
             case jget body ''protocol'' of None \<Rightarrow> (Inl (HTTPException 400 []), d) | Some protocol \<Rightarrow>
               (case write_routing_decision e
                       \<lparr>da_case_id = cid, da_match_key = mk, da_protocol = protocol, da_target = target,
                        da_created_by = username, da_valid_from = None, da_valid_until = None\<rparr> d of
                  (Inl (Db (ExclusionViolation _)), d') \<Rightarrow>
                    (Inl (HTTPException 409 ''an active decision already covers this match_key''), d')
                | (Inl err, d') \<Rightarrow> (Inl (Unhandled err), d')
                | (Inr dec, d') \<Rightarrow> (Inr dec, d'))))"

definition steer_case :: "env \<Rightarrow> string \<Rightarrow> string \<Rightarrow> json \<Rightarrow> db \<Rightarrow> (api_error + routing_decision) \<times> db" where
  "steer_case e cid username body = run_tx (steer_body e cid username body)"

record route_state =
  rs_db :: db
  rs_cache :: route_cache

definition broker_allowed :: "agent_row list \<Rightarrow> string \<Rightarrow> bool" where
  "broker_allowed agents serial =
     (case lookup_by ag_certificate_serial agents serial of
        None \<Rightarrow> False
      | Some a \<Rightarrow> ag_status a = ''ACTIVE'' \<and> ag_role a \<in> {''BROKER_CLIENT'', ''INTERNAL_CONTROL''})"

text \<open>\<open>t0\<close> and \<open>t1\<close> are the two readings of the monotonic clock, before and after the query.\<close>

definition route ::
  "env \<Rightarrow> rat \<Rightarrow> rat \<Rightarrow> agent_row list \<Rightarrow> string \<Rightarrow> string \<Rightarrow> string \<Rightarrow> route_state \<Rightarrow>
   (api_error + string \<times> bool) \<times> route_state" where
  "route e t0 t1 agents serial mk protocol s =
     (let (cached, c1) = cache_get ROUTE_CACHE_TTL_SECONDS t0 mk (rs_cache s); s1 = s\<lparr>rs_cache := c1\<rparr> in
      case cached of
        Some target \<Rightarrow> (Inr (target, True), s1)
      | None \<Rightarrow>
          if \<not> broker_allowed agents serial
          then (Inl (HTTPException 403 ''caller is not an active broker/internal-control agent''), s1)
          else (case resolve_route e mk protocol (rs_db s1) of
                  (Inl err, _) \<Rightarrow> (Inl (Unhandled err), s1)
                | (Inr target, d) \<Rightarrow>
                    (Inr (target, False), s1\<lparr>rs_db := d, rs_cache := cache_set t1 mk target c1\<rparr>)))"

section \<open>The decision table\<close>

text \<open>No two decisions of one match key overlap, and their versions count up from one.\<close>

definition routing_inv :: "db \<Rightarrow> bool" where
  "routing_inv d \<longleftrightarrow>
     sorted_wrt (\<lambda>a b. ro_match_key a = ro_match_key b \<longrightarrow> \<not> ranges_overlap a b) (routings d) \<and>
     (\<forall>mk. map ro_version (filter (\<lambda>r. ro_match_key r = mk) (routings d)) =
        map int [1..<Suc (length (filter (\<lambda>r. ro_match_key r = mk) (routings d)))]) \<and>
     (\<forall>r \<in> set (routings d). ro_target r \<in> {''ENDPOINT'', ''SANDBOX''})"

lemma insert_routing_ok:
  "insert_routing r d = Inr d' \<Longrightarrow>
   d' = d\<lparr>routings := routings d @ [r]\<rparr> \<and> ro_target r \<in> {''ENDPOINT'', ''SANDBOX''} \<and>
   (\<forall>q \<in> set (routings d). ro_match_key q = ro_match_key r \<longrightarrow> \<not> ranges_overlap q r)"
  by (auto simp: insert_routing_def list_ex_iff split: if_splits)

lemma fold_max_upt: "fold max (map int [1..<Suc n]) 0 = int n"
  by (induction n) (auto simp: max_def)

lemma next_version_count:
  "routing_inv d \<Longrightarrow> next_version d mk = int (Suc (length (filter (\<lambda>r. ro_match_key r = mk) (routings d))))"
  unfolding routing_inv_def next_version_def by (simp only: fold_max_upt)

lemma write_routing_decision_ok:
  assumes "(write_routing_decision e a d :: ('e svc_error + routing_decision) \<times> db) = (Inr dec, d')"
  shows "routings d' = routings d @ [decision_row e a (next_version d (da_match_key a))] \<and>
    audits d' = audits d @ [decision_audit_row (env_ids e 0) a] \<and> cases d' = cases d \<and>
    rd_version dec = next_version d (da_match_key a) \<and>
    (\<exists>d1. insert_routing (decision_row e a (next_version d (da_match_key a))) d = (Inr d1 :: 'e svc_error + db))"
proof -
  let ?r = "decision_row e a (next_version d (da_match_key a))"
  from assms obtain d1 where ins: "insert_routing ?r d = (Inr d1 :: 'e svc_error + db)"
    by (auto simp: write_routing_decision_def Let_def split: sum.splits)
  from insert_routing_ok [OF ins] have "d1 = d\<lparr>routings := routings d @ [?r]\<rparr>" by simp
  with ins assms show ?thesis
    by (auto simp: write_routing_decision_def Let_def insert_audit_def split: sum.splits dest!: publish_validated_ok)
qed

lemma routing_inv_append:
  assumes "routing_inv d" and "insert_routing r d = Inr d1" and "ro_version r = next_version d (ro_match_key r)"
    and "routings d' = routings d @ [r]"
  shows "routing_inv d'"
proof -
  have "map ro_version (filter (\<lambda>r. ro_match_key r = mk) (routings d @ [r])) =
      map int [1..<Suc (length (filter (\<lambda>r. ro_match_key r = mk) (routings d @ [r])))]" for mk
    using assms(1,3) next_version_count [OF assms(1)] by (simp add: routing_inv_def)
  with assms(1,4) insert_routing_ok [OF assms(2)] show ?thesis
    by (simp add: routing_inv_def sorted_wrt_append)
qed

lemma resolve_route_routings:
  "resolve_route e mk p d = (q, d') \<Longrightarrow> routings d' = routings d"
  by (auto simp: resolve_route_def Let_def split: sum.splits prod.splits option.splits dest!: publish_validated_ok)

inductive routing_step :: "db \<Rightarrow> db \<Rightarrow> bool" where
  decide: "run_tx (write_routing_decision e a) d = (q :: unit svc_error + routing_decision, d') \<Longrightarrow> routing_step d d'"
| resolve: "run_tx (resolve_route e mk p) d = (q' :: unit svc_error + string, d') \<Longrightarrow> routing_step d d'"
| other: "routings d' = routings d \<Longrightarrow> routing_step d d'"

inductive_cases routing_stepE: "routing_step d d'"

interpretation routing_sys: step_system routing_step routing_inv
proof
  fix d d' assume "routing_step d d'" and inv: "routing_inv d"
  then show "routing_inv d'"
  proof (cases rule: routing_step.cases)
    case (decide e a q)
    show ?thesis
    proof (cases q)
      case (Inl err)
      with decide inv show ?thesis by (auto dest: run_tx_error)
    next
      case (Inr dec)
      with decide have "write_routing_decision e a d = (Inr dec :: unit svc_error + routing_decision, d')"
        by (simp add: run_tx_ok)
      from write_routing_decision_ok [OF this] inv show ?thesis
        by (auto intro: routing_inv_append simp: decision_row_def)
    qed
  next
    case (resolve e mk p q')
    then have "routings d' = routings d"
      by (cases q') (auto dest: run_tx_error simp: run_tx_ok dest!: resolve_route_routings)
    with inv show ?thesis by (simp add: routing_inv_def)
  next
    case other
    with inv show ?thesis by (simp add: routing_inv_def)
  qed
qed

lemma active_overlap: "active_for mk t a \<Longrightarrow> active_for mk t b \<Longrightarrow> ranges_overlap a b"
  by (auto simp: active_for_def ranges_overlap_def before_end_def split: option.splits)

lemma one_active:
  assumes "routing_inv d"
  shows "filter (active_for mk t) (routings d) = [] \<or> (\<exists>r. filter (active_for mk t) (routings d) = [r])"
proof -
  let ?rows = "filter (active_for mk t) (routings d)"
  have sep: "sorted_wrt (\<lambda>a b. ro_match_key a = ro_match_key b \<longrightarrow> \<not> ranges_overlap a b) ?rows"
    using assms by (auto simp: routing_inv_def intro: sorted_wrt_filter)
  show ?thesis
  proof (cases ?rows)
    case (Cons a rest)
    show ?thesis
    proof (cases rest)
      case Nil
      with Cons show ?thesis by blast
    next
      case (Cons b bs)
      with \<open>?rows = a # rest\<close> have "?rows = a # b # bs" by simp
      moreover from this have "{a, b} \<subseteq> set ?rows" by simp
      then have "active_for mk t a" "active_for mk t b" by simp_all
      moreover from this have "ranges_overlap a b" "ro_match_key a = ro_match_key b"
        using active_overlap by (auto simp: active_for_def)
      ultimately show ?thesis using sep by simp
    qed
  qed blast
qed

section \<open>The cache under a sequence of calls\<close>

datatype cache_op = CacheSet rat string string | CacheGet rat string

primrec op_time :: "cache_op \<Rightarrow> rat" where
  "op_time (CacheSet t k v) = t"
| "op_time (CacheGet t k) = t"

fun cache_step :: "rat \<Rightarrow> cache_op \<Rightarrow> route_cache \<Rightarrow> route_cache" where
  "cache_step ttl (CacheSet t k v) c = cache_set t k v c"
| "cache_step ttl (CacheGet t k) c = snd (cache_get ttl t k c)"

fun note_set :: "cache_op \<Rightarrow> (string \<rightharpoonup> string \<times> rat) \<Rightarrow> (string \<rightharpoonup> string \<times> rat)" where
  "note_set (CacheSet t k v) f = f(k \<mapsto> (v, t))"
| "note_set (CacheGet t k) f = f"

definition last_set :: "cache_op list \<Rightarrow> string \<Rightarrow> (string \<times> rat) option" where
  "last_set ops = fold note_set ops (\<lambda>_. None)"

definition cache_run :: "rat \<Rightarrow> cache_op list \<Rightarrow> route_cache" where
  "cache_run ttl ops = fold (cache_step ttl) ops []"

lemma cache_run_entries:
  "(case map_of (cache_run ttl ops) k of
      Some x \<Rightarrow> last_set ops k = Some x
    | None \<Rightarrow> (\<forall>v ts. last_set ops k = Some (v, ts) \<longrightarrow> (\<exists>p \<in> set ops. op_time p - ts > ttl)))"
proof (induction ops rule: rev_induct)
  case Nil
  then show ?case by (simp add: cache_run_def last_set_def)
next
  case (snoc p ops)
  show ?case
  proof (cases p)
    case (CacheSet t k' v)
    with snoc show ?thesis
      by (auto simp: cache_run_def last_set_def cache_set_def split: option.splits)
  next
    case (CacheGet t k')
    with snoc show ?thesis
      by (auto simp: cache_run_def last_set_def cache_get_def AList.delete_conv'
          split: option.splits if_splits prod.splits)
  qed
qed

section \<open>Properties\<close>

text \<open>The match key is an injective encoding as long as protocol, listener and source address contain no
  separator; the principal may contain any character.\<close>

theorem build_match_key_inj:
  assumes "build_match_key p l s u = build_match_key p' l' s' u'"
    and "CHR ''|'' \<notin> set p \<union> set l \<union> set s \<union> set p' \<union> set l' \<union> set s'"
  shows "p = p' \<and> l = l' \<and> s = s' \<and> u = u'"
proof -
  have split: "split_on (CHR ''|'') (build_match_key p l s u) = p # l # s # split_on (CHR ''|'') u"
    if "CHR ''|'' \<notin> set p \<union> set l \<union> set s" for p l s u
    using that by (simp add: build_match_key_def split_on_append)
  from assms have "split_on (CHR ''|'') u = split_on (CHR ''|'') u'" "p = p'" "l = l'" "s = s'"
    using split [of p l s u] split [of p' l' s' u'] by auto
  then show ?thesis by (metis join_split_on)
qed

theorem build_match_key_inj_witness:
  "build_match_key ''ssh'' ''l1'' ''10.0.0.1'' ''a|b'' \<noteq> build_match_key ''ssh'' ''l1'' ''10.0.0.2'' ''a|b''"
  using build_match_key_inj [of "''ssh''" "''l1''" "''10.0.0.1''" "''a|b''" "''ssh''" "''l1''" "''10.0.0.2''" "''a|b''"]
  by auto

text \<open>C13. In every reachable database a route is a function of the decisions: if a decision of the match key is
  active now it is the only one and its target is returned, otherwise the answer is the fail-safe ENDPOINT; either
  way the decision table is left alone and the answer is ENDPOINT or SANDBOX.\<close>

theorem resolve_route_unique:
  assumes "routings d0 = []" and "routing_step\<^sup>*\<^sup>* d0 d" and "resolve_route e mk p d = (Inr t, d')"
  shows "routings d' = routings d \<and> t \<in> {''ENDPOINT'', ''SANDBOX''} \<and>
    ((\<exists>r \<in> set (routings d). active_for mk (env_now e) r \<and> t = ro_target r \<and>
        (\<forall>r' \<in> set (routings d). active_for mk (env_now e) r' \<longrightarrow> r' = r)) \<or>
     ((\<forall>r \<in> set (routings d). \<not> active_for mk (env_now e) r) \<and> t = ''ENDPOINT''))"
proof -
  have "routing_inv d0" using assms(1) by (simp add: routing_inv_def)
  then have inv: "routing_inv d" by (rule routing_sys.steps_inv [OF assms(2)])
  have t: "t = (case newest (filter (active_for mk (env_now e)) (routings d)) of
      None \<Rightarrow> ''ENDPOINT'' | Some r \<Rightarrow> ro_target r)"
    using assms(3) by (auto simp: resolve_route_def Let_def DEFAULT_TARGET_def split: sum.splits option.splits)
  consider "filter (active_for mk (env_now e)) (routings d) = []"
    | r where "filter (active_for mk (env_now e)) (routings d) = [r]"
    using one_active [OF inv] by blast
  then show ?thesis
  proof cases
    case 1
    with t resolve_route_routings [OF assms(3)] show ?thesis by (auto simp: newest_def filter_empty_conv)
  next
    case 2
    have sing: "{r' \<in> set (routings d). active_for mk (env_now e) r'} = {r}"
      by (metis 2 list.set(1) list.set(2) set_filter)
    then have mem: "r \<in> set (routings d)" "active_for mk (env_now e) r" by blast+
    from sing have uniq: "\<And>r'. r' \<in> set (routings d) \<Longrightarrow> active_for mk (env_now e) r' \<Longrightarrow> r' = r" by blast
    have "t = ro_target r" using t 2 by (simp add: newest_def)
    moreover have "ro_target r \<in> {''ENDPOINT'', ''SANDBOX''}" using inv mem(1) by (simp add: routing_inv_def)
    ultimately show ?thesis using mem uniq resolve_route_routings [OF assms(3)] by blast
  qed
qed

definition sample_route_env :: env where
  "sample_route_env = sample_env [''steering.decision_recorded'']"

lemma subject_decision: "subject_for_event_type ''steering.decision_recorded'' = Inr ''steering.decision_recorded''"
  by code_simp

lemma sample_resolve:
  "\<exists>d'. resolve_route sample_route_env ''k'' ''ssh'' empty_db = (Inr ''ENDPOINT'' :: unit svc_error + string, d')"
proof -
  let ?a = "decision_event_args (env_ids sample_route_env 0) (env_ids sample_route_env 1) (JStr ''ssh'') ''k'' ''ENDPOINT'' 1 ''FAILSAFE_DEFAULT'' ''SYSTEM'' None"
  have "length (canonical_json_bytes (\<lambda>_. ''0.5'') (be_payload ?a)) \<le> 900" by code_simp
  then have "publishable sample_route_env 2 ?a empty_db"
    unfolding sample_route_env_def
    by (intro sample_publishable) (simp_all add: decision_event_args_def subject_decision empty_db_def)
  from publishable_ok [OF this, where 'a = unit] show ?thesis
    by (auto simp: resolve_route_def empty_db_def newest_def DEFAULT_TARGET_def py_or_def)
qed

theorem resolve_route_unique_witness:
  "\<exists>d' :: db. resolve_route sample_route_env ''k'' ''ssh'' empty_db = (Inr ''ENDPOINT'' :: unit svc_error + string, d') \<and>
     routings d' = []"
proof -
  obtain d' where run: "resolve_route sample_route_env ''k'' ''ssh'' empty_db = (Inr ''ENDPOINT'' :: unit svc_error + string, d')"
    using sample_resolve by blast
  have "routings empty_db = []" by (simp add: empty_db_def)
  from resolve_route_unique [OF this rtranclp.rtrancl_refl run] have "routings d' = []"
    by (simp add: empty_db_def)
  with run show ?thesis by (intro exI [of _ d']) simp
qed

text \<open>Steering a match key that a decision still covers (one with no end, or an end in the future) is refused
  with 409 and changes nothing, for every known case and every well-formed request.\<close>

theorem steer_conflict:
  assumes "jget body ''match_key'' = Some (JStr mk)" and "jget body ''protocol'' = Some p"
    and "jget body ''target'' = Some (JStr t)" and "t \<in> {''ENDPOINT'', ''SANDBOX''}"
    and "lookup_by case_id (cases d) cid \<noteq> None"
    and "r \<in> set (routings d)" and "ro_match_key r = mk" and "before_end (env_now e) (ro_valid_until r)"
  shows "steer_case e cid user body d =
     (Inl (HTTPException 409 ''an active decision already covers this match_key''), d)"
proof -
  have "list_ex (\<lambda>q. ro_match_key q = mk \<and>
      ranges_overlap q (decision_row e \<lparr>da_case_id = cid, da_match_key = mk, da_protocol = p, da_target = t,
        da_created_by = user, da_valid_from = None, da_valid_until = None\<rparr> v)) (routings d)" for v
    using assms(6-8) by (auto simp: list_ex_iff ranges_overlap_def decision_row_def before_end_def)
  then have "write_routing_decision e \<lparr>da_case_id = cid, da_match_key = mk, da_protocol = p, da_target = t,
        da_created_by = user, da_valid_from = None, da_valid_until = None\<rparr> d =
      (Inl (Db (ExclusionViolation ''routing_decisions'')) :: unit svc_error + routing_decision, d)"
    using assms(4) by (auto simp: write_routing_decision_def insert_routing_def Let_def decision_row_def before_end_def)
  with assms(1-5) show ?thesis
    by (auto simp: steer_case_def run_tx_def steer_body_def body_str_def)
qed

definition sample_routing_row :: routing_row where
  "sample_routing_row = \<lparr>ro_case_id = ''C'', ro_match_key = ''k'', ro_target = ''SANDBOX'', ro_valid_from = 0,
     ro_valid_until = None, ro_version = 1, ro_created_by = ''a''\<rparr>"

theorem steer_conflict_witness:
  "fst (steer_case sample_route_env ''C'' ''a''
     (JObj [(''match_key'', JStr ''k''), (''protocol'', JStr ''ssh''), (''target'', JStr ''ENDPOINT'')])
     (sample_db\<lparr>routings := [sample_routing_row]\<rparr>)) =
   Inl (HTTPException 409 ''an active decision already covers this match_key'')"
  using steer_conflict [of "JObj [(''match_key'', JStr ''k''), (''protocol'', JStr ''ssh''), (''target'', JStr ''ENDPOINT'')]"
      "''k''" "JStr ''ssh''" "''ENDPOINT''" "sample_db\<lparr>routings := [sample_routing_row]\<rparr>" "''C''" sample_routing_row
      sample_route_env "''a''"]
  by (simp add: sample_db_def sample_case_def sample_routing_row_def before_end_def)

text \<open>C30. Bounded staleness of the route cache: after any sequence of reads and writes on a clock that does not run
  backwards, a read returns exactly the value last written under its key if that write is at most the
  time-to-live old, and nothing otherwise.\<close>

theorem cache_bounded_staleness:
  assumes "\<And>p. p \<in> set ops \<Longrightarrow> op_time p \<le> now"
  shows "fst (cache_get ttl now k (cache_run ttl ops)) =
    (case last_set ops k of
       None \<Rightarrow> None
     | Some (v, written) \<Rightarrow> if now - written \<le> ttl then Some v else None)"
proof -
  have entry: "case map_of (cache_run ttl ops) k of
      Some x \<Rightarrow> last_set ops k = Some x
    | None \<Rightarrow> (\<forall>v ts. last_set ops k = Some (v, ts) \<longrightarrow> (\<exists>p \<in> set ops. op_time p - ts > ttl))"
    by (rule cache_run_entries)
  show ?thesis
proof (cases "map_of (cache_run ttl ops) k")
  case None
  show ?thesis
  proof (cases "last_set ops k")
    case (Some x)
    obtain v w where x: "x = (v, w)" by (cases x)
    with None Some entry obtain p where "p \<in> set ops" "op_time p - w > ttl" by auto
    with assms [of p] have "\<not> now - w \<le> ttl" by linarith
    with None Some x show ?thesis by (simp add: cache_get_def)
  qed (simp add: None cache_get_def)
next
  case (Some x)
  with entry show ?thesis by (cases x) (simp add: cache_get_def not_less)
qed
qed

theorem cache_bounded_staleness_witness:
  "fst (cache_get 1 3 ''k'' (cache_run 1 [CacheSet 0 ''k'' ''ENDPOINT'', CacheSet 2 ''k'' ''SANDBOX''])) = Some ''SANDBOX''"
  by (subst cache_bounded_staleness) (auto simp: last_set_def)

text \<open>A cache hit is answered before the caller is looked up: any caller gets it, registered or not.\<close>

theorem cached_route_skips_agent_check:
  assumes "map_of (rs_cache s) mk = Some (t, written)" and "t0 - written \<le> ROUTE_CACHE_TTL_SECONDS"
  shows "route e t0 t1 [] serial mk p s = (Inr (t, True), s) \<and> \<not> broker_allowed [] serial"
  using assms by (simp add: route_def cache_get_def broker_allowed_def)

end
