(* ===== verification/Mirage_Detection.thy ===== *)
theory Mirage_Detection
  imports Mirage_Cases
begin

text \<open>
  How detections become cases: \<^verbatim>\<open>libs/mirage_common/detection_correlation.py\<close>
  (one transaction per detection, deduplicated by its event id and grouped by
  its correlation key), \<^verbatim>\<open>telemetry_correlation.py\<close> (which collector owns an
  observation), the message handler of
  \<^verbatim>\<open>services/mirage-worker/mirage_worker/detection_adapter.py\<close> and the
  retry and dead-letter rule of \<^verbatim>\<open>libs/mirage_common/nats_client.py\<close> it runs
  under.
\<close>

section \<open>correlate\_detection\<close>

definition DETECTION_ADAPTER_CONSUMER_NAME :: string where
  "DETECTION_ADAPTER_CONSUMER_NAME = ''mirage-detection-adapter''"

record correlation_result =
  crr_case_id :: string
  crr_created :: bool
  crr_already_processed :: bool

datatype py_number = PInt int | PFloat rat

definition number_text :: "runtime \<Rightarrow> py_number \<Rightarrow> string" where
  "number_text rt n = (case n of PInt i \<Rightarrow> show_int i | PFloat q \<Rightarrow> rt_float rt q)"

record detection_args =
  de_detector :: string
  de_signature_id :: string
  de_severity :: string
  de_confidence :: py_number
  de_correlation_key :: string
  de_source_ref :: string

definition already_processed :: "db \<Rightarrow> string \<Rightarrow> bool" where
  "already_processed d eid =
     list_ex (\<lambda>p. pr_consumer p = DETECTION_ADAPTER_CONSUMER_NAME \<and> pr_event_id p = eid) (processed d)"

definition case_created_args :: "string \<Rightarrow> string \<Rightarrow> detection_args \<Rightarrow> build_args" where
  "case_created_args cid eid a =
     \<lparr>be_event_type = ''case.created'', be_schema_version = ''1.0'',
      be_payload = JObj
        [(''case_id'', JStr cid), (''severity'', JStr (de_severity a)),
         (''correlation_key'', JStr (de_correlation_key a)),
         (''source_detection_ids'', JArr [JStr eid]), (''initial_state'', JStr ''CREATED'')],
      be_source_id = DETECTION_ADAPTER_CONSUMER_NAME, be_sequence = 1, be_actor_type = ''SYSTEM'',
      be_classification = ''INTERNAL'', be_case_id = Some cid, be_session_id = None,
      be_event_id = None, be_event_time = None\<rparr>"

definition detection_audit :: "string \<Rightarrow> string \<Rightarrow> string \<Rightarrow> string \<Rightarrow> audit_row" where
  "detection_audit action cid eid detail =
     \<lparr>au_actor = DETECTION_ADAPTER_CONSUMER_NAME, au_actor_type = ''SYSTEM'', au_action = action,
      au_target = cid, au_outcome = ''SUCCESS'', au_correlation_id = eid, au_detail = detail\<rparr>"

definition correlate_audit :: "string \<Rightarrow> string \<Rightarrow> detection_args \<Rightarrow> audit_row" where
  "correlate_audit cid eid a =
     detection_audit ''detection.correlated_to_existing_case'' cid eid
       (de_detector a @ '':'' @ de_signature_id a @ '' ('' @ de_source_ref a @ '')'')"

definition created_audit :: "runtime \<Rightarrow> string \<Rightarrow> string \<Rightarrow> detection_args \<Rightarrow> audit_row" where
  "created_audit rt cid eid a =
     detection_audit ''case.created'' cid eid
       (de_detector a @ '':'' @ de_signature_id a @ '' confidence='' @ number_text rt (de_confidence a) @
        '' ('' @ de_source_ref a @ '')'')"

definition new_case :: "env \<Rightarrow> string \<Rightarrow> detection_args \<Rightarrow> case_row" where
  "new_case e cid a = \<lparr>case_id = cid, case_state = CREATED, case_version = 1, severity = de_severity a,
     owner = None, correlation_key = Some (de_correlation_key a), updated_at = env_now e\<rparr>"

definition correlate_detection ::
  "env \<Rightarrow> string \<Rightarrow> detection_args \<Rightarrow> db \<Rightarrow> ('e svc_error + correlation_result) \<times> db" where
  "correlate_detection e eid a d =
     (let existing = lookup_by correlation_key (cases d) (Some (de_correlation_key a)) in
      if already_processed d eid
      then (Inr \<lparr>crr_case_id = (case existing of None \<Rightarrow> [] | Some r \<Rightarrow> case_id r),
                 crr_created = False, crr_already_processed = True\<rparr>, d)
      else
        let mark = (\<lambda>cid created d'.
              case insert_processed \<lparr>pr_consumer = DETECTION_ADAPTER_CONSUMER_NAME, pr_event_id = eid,
                                      pr_result_hash = cid\<rparr> d' of
                Inl err \<Rightarrow> (Inl err, d')
              | Inr d'' \<Rightarrow> (Inr \<lparr>crr_case_id = cid, crr_created = created, crr_already_processed = False\<rparr>, d'')) in
        case existing of
          Some r \<Rightarrow> mark (case_id r) False (insert_audit (correlate_audit (case_id r) eid a) d)
        | None \<Rightarrow>
            let cid = env_ids e 0 in
            case insert_case (new_case e cid a) d of
              Inl err \<Rightarrow> (Inl err, d)
            | Inr d1 \<Rightarrow>
                (case publish_validated e 1 (case_created_args cid eid a) d1 of
                   Inl err \<Rightarrow> (Inl err, d1)
                 | Inr d2 \<Rightarrow> mark cid True (insert_audit (created_audit (env_rt e) cid eid a) d2)))"

section \<open>The message handler (detection\_adapter.py)\<close>

definition jnum :: "json \<Rightarrow> contract_error + py_number" where
  "jnum j = (case j of JInt i \<Rightarrow> Inr (PInt i) | JFloat q \<Rightarrow> Inr (PFloat q) | _ \<Rightarrow> Inl (TypeError ''number''))"

definition first_ref :: "json \<Rightarrow> contract_error + string" where
  "first_ref j = (case j of
      JArr [] \<Rightarrow> Inr [] | JArr (JStr s # _) \<Rightarrow> Inr s | _ \<Rightarrow> Inl (TypeError ''source_refs''))"

text \<open>The payload fields have the types that \<^verbatim>\<open>detection.raised\<close> fixes; any other type is a \<open>TypeError\<close> here.\<close>

definition read_detection :: "json \<Rightarrow> contract_error + string \<times> detection_args" where
  "read_detection envelope =
     sbind (py_item envelope ''payload'') (\<lambda>payload.
     sbind (py_str_item envelope ''event_id'') (\<lambda>eid.
     sbind (py_str_item payload ''detector'') (\<lambda>detector.
     sbind (py_str_item payload ''signature_id'') (\<lambda>signature_id.
     sbind (py_str_item payload ''severity'') (\<lambda>sev.
     sbind (sbind (py_item payload ''confidence'') jnum) (\<lambda>confidence.
     sbind (py_str_item payload ''correlation_key'') (\<lambda>ckey.
     sbind (sbind (py_item payload ''source_refs'') first_ref) (\<lambda>ref.
       Inr (eid, \<lparr>de_detector = detector, de_signature_id = signature_id, de_severity = sev,
                  de_confidence = confidence, de_correlation_key = ckey, de_source_ref = ref\<rparr>)))))))))"

definition handle_message :: "env \<Rightarrow> json \<Rightarrow> db \<Rightarrow> (unit svc_error + correlation_result) \<times> db" where
  "handle_message e envelope d =
     (case read_detection envelope of
        Inl err \<Rightarrow> (Inl (Contract err), d)
      | Inr (eid, a) \<Rightarrow> run_tx (correlate_detection e eid a) d)"

section \<open>Which collector owns an observation (telemetry\_correlation.py)\<close>

definition OBSERVATION_TYPES_OWNED_BY_ELASTIC_AGENT :: "string list" where
  "OBSERVATION_TYPES_OWNED_BY_ELASTIC_AGENT =
     [''PROCESS_START'', ''PROCESS_STOP'', ''FILE_CREATE'', ''FILE_MODIFY'', ''FILE_DELETE'',
      ''NETWORK_CONNECTION'', ''REGISTRY_MODIFY'']"

definition MIRAGE_SPECIFIC_OBSERVATION_TYPES :: "string list" where
  "MIRAGE_SPECIFIC_OBSERVATION_TYPES =
     [''ARTIFACT_INTERACTION'', ''DECOY_INTERACTION'', ''CONTROLLER_ACTION_OBSERVED'',
      ''ANALYST_INTERACTION_OBSERVED'', ''AI_INTERACTION_OBSERVED'', ''USER_INTERACTION_INDICATOR'']"

definition is_owned_by_elastic_agent :: "string \<Rightarrow> bool" where
  "is_owned_by_elastic_agent t = (t \<in> set OBSERVATION_TYPES_OWNED_BY_ELASTIC_AGENT)"

record elastic_agent_event =
  ea_host_id :: string
  ea_process_guid :: "string option"
  ea_event_type :: string
  ea_timestamp :: string

definition truthy_str :: "json option \<Rightarrow> string option" where
  "truthy_str v = (case v of Some (JStr s) \<Rightarrow> if s = [] then None else Some s | _ \<Rightarrow> None)"

text \<open>\<^verbatim>\<open>host_id\<close> and \<^verbatim>\<open>process_guid\<close> of an observation are strings or null; \<^verbatim>\<open>detail\<close> an object or null.\<close>

definition is_duplicate_of_elastic_agent_event :: "json \<Rightarrow> elastic_agent_event \<Rightarrow> bool" where
  "is_duplicate_of_elastic_agent_event obs ev =
     (let detail = (case jget obs ''detail'' of Some (JObj kvs) \<Rightarrow> JObj kvs | _ \<Rightarrow> JObj []) in
      case (truthy_str (jget detail ''host_id''), truthy_str (jget detail ''process_guid''), ea_process_guid ev) of
        (Some host, Some guid, Some eguid) \<Rightarrow> eguid \<noteq> [] \<and> host = ea_host_id ev \<and> guid = eguid
      | _ \<Rightarrow> False)"

section \<open>Retries and dead letters (nats\_client.py)\<close>

record nats_msg =
  nm_subject :: string
  nm_msg_id :: "string option"
  nm_num_delivered :: int

datatype disposition = Ack | Nak rat

record dead_letter_info =
  dl_original_event_id :: "string option"
  dl_consumer_name :: string
  dl_error_type :: string
  dl_error_message :: string
  dl_attempt_count :: int
  dl_first_failure_at :: string
  dl_last_failure_at :: string
  dl_original_subject :: string

record consumer =
  co_durable_name :: string
  co_max_deliver :: int
  co_backoff_seconds :: "rat list"
  co_first_failure_seen :: "(string \<times> string) list"

text \<open>What a call sends: messages on failed subjects, the answers to deliveries, the alerts raised.\<close>

record nats_out =
  no_published :: "(string \<times> dead_letter_info) list"
  no_dispositions :: "disposition list"
  no_alerts :: "dead_letter_info list"

definition py_index :: "'a list \<Rightarrow> int \<Rightarrow> 'a option" where
  "py_index xs i =
     (let n = int (length xs); j = (if i < 0 then i + n else i) in
      if 0 \<le> j \<and> j < n then Some (xs ! nat j) else None)"

definition truthy :: "string option \<Rightarrow> bool" where
  "truthy s = (case s of None \<Rightarrow> False | Some t \<Rightarrow> t \<noteq> [])"

datatype outcome = Processed | Retried | DeadLettered

datatype consumer_error = PublishFailed | IndexError

definition pop_seen :: "string option \<Rightarrow> consumer \<Rightarrow> consumer" where
  "pop_seen eid c = (case eid of
      Some k \<Rightarrow> if k = [] then c else c\<lparr>co_first_failure_seen := AList.delete k (co_first_failure_seen c)\<rparr>
    | None \<Rightarrow> c)"

definition dead_letter_of :: "consumer \<Rightarrow> nats_msg \<Rightarrow> string \<times> string \<Rightarrow> string \<Rightarrow> dead_letter_info" where
  "dead_letter_of c m exc now =
     \<lparr>dl_original_event_id = nm_msg_id m, dl_consumer_name = co_durable_name c,
      dl_error_type = fst exc, dl_error_message = take 1000 (snd exc),
      dl_attempt_count = nm_num_delivered m,
      dl_first_failure_at = (case map_of (co_first_failure_seen c) (py_or (nm_msg_id m) []) of
                               None \<Rightarrow> now | Some t \<Rightarrow> t),
      dl_last_failure_at = now, dl_original_subject = nm_subject m\<rparr>"

definition note_delivery :: "string \<Rightarrow> nats_msg \<Rightarrow> consumer \<Rightarrow> consumer" where
  "note_delivery now m c =
     (case nm_msg_id m of
        Some k \<Rightarrow> if k \<noteq> [] \<and> map_of (co_first_failure_seen c) k = None
                 then c\<lparr>co_first_failure_seen := AList.update k now (co_first_failure_seen c)\<rparr> else c
      | None \<Rightarrow> c)"

text \<open>
  \<open>failure\<close> is what the handler raised (its class and text), \<open>publish_ok\<close> whether the broker
  accepted the dead letter. A failed publish leaves the message unanswered.
\<close>

definition process ::
  "string \<Rightarrow> bool \<Rightarrow> nats_msg \<Rightarrow> (string \<times> string) option \<Rightarrow> consumer \<Rightarrow> nats_out \<Rightarrow>
   (consumer_error + outcome) \<times> consumer \<times> nats_out" where
  "process now publish_ok m failure c out =
     (let c1 = note_delivery now m c in
      case failure of
        None \<Rightarrow> (Inr Processed, pop_seen (nm_msg_id m) c1, out\<lparr>no_dispositions := no_dispositions out @ [Ack]\<rparr>)
      | Some exc \<Rightarrow>
          if nm_num_delivered m \<ge> co_max_deliver c1
          then (let info = dead_letter_of c1 m exc now in
                if \<not> publish_ok then (Inl PublishFailed, c1, out)
                else (Inr DeadLettered, pop_seen (nm_msg_id m) c1,
                      out\<lparr>no_published := no_published out @ [(failed_subject_for (nm_subject m), info)],
                          no_alerts := no_alerts out @ [info],
                          no_dispositions := no_dispositions out @ [Ack]\<rparr>))
          else (case py_index (co_backoff_seconds c1)
                       (min (nm_num_delivered m - 1) (int (length (co_backoff_seconds c1)) - 1)) of
                  None \<Rightarrow> (Inl IndexError, c1, out)
                | Some delay \<Rightarrow> (Inr Retried, c1, out\<lparr>no_dispositions := no_dispositions out @ [Nak delay]\<rparr>)))"

section \<open>Lemmas on correlation\<close>

lemma subject_case_created: "subject_for_event_type ''case.created'' = Inr ''investigation.case.created''"
  by code_simp

definition processed_mark :: "string \<Rightarrow> string \<Rightarrow> processed_row" where
  "processed_mark eid cid = \<lparr>pr_consumer = DETECTION_ADAPTER_CONSUMER_NAME, pr_event_id = eid, pr_result_hash = cid\<rparr>"

text \<open>The three ways a call returns.\<close>

lemma correlate_cases:
  assumes "correlate_detection e eid a d = (Inr r, d')"
  obtains
    (duplicate) "already_processed d eid" "d' = d" "crr_already_processed r" "\<not> crr_created r"
      "crr_case_id r = (case lookup_by correlation_key (cases d) (Some (de_correlation_key a)) of
          None \<Rightarrow> [] | Some row \<Rightarrow> case_id row)"
  | (existing) row where "\<not> already_processed d eid"
      "lookup_by correlation_key (cases d) (Some (de_correlation_key a)) = Some row"
      "r = \<lparr>crr_case_id = case_id row, crr_created = False, crr_already_processed = False\<rparr>"
      "d' = d\<lparr>audits := audits d @ [correlate_audit (case_id row) eid a],
              processed := processed d @ [processed_mark eid (case_id row)]\<rparr>"
  | (created) "\<not> already_processed d eid"
      "lookup_by correlation_key (cases d) (Some (de_correlation_key a)) = None"
      "r = \<lparr>crr_case_id = env_ids e 0, crr_created = True, crr_already_processed = False\<rparr>"
      "env_ids e 0 \<notin> case_id ` set (cases d)"
      "d' = d\<lparr>cases := cases d @ [new_case e (env_ids e 0) a],
              outbox := outbox d @ [event_row e 1 (case_created_args (env_ids e 0) eid a) ''investigation.case.created''],
              audits := audits d @ [created_audit (env_rt e) (env_ids e 0) eid a],
              processed := processed d @ [processed_mark eid (env_ids e 0)]\<rparr>"
proof (cases "already_processed d eid")
  case True
  with assms show ?thesis by (intro duplicate) (auto simp: correlate_detection_def Let_def)
next
  case False
  show ?thesis
  proof (cases "lookup_by correlation_key (cases d) (Some (de_correlation_key a))")
    case (Some row)
    with False assms show ?thesis
      by (intro existing [of row]) (auto simp: correlate_detection_def Let_def insert_processed_def insert_audit_def
          processed_mark_def split: if_splits)
  next
    case None
    with False assms obtain d1 d2 where
      ins: "insert_case (new_case e (env_ids e 0) a) d = (Inr d1 :: 'a svc_error + db)" and
      pub: "publish_validated e 1 (case_created_args (env_ids e 0) eid a) d1 = (Inr d2 :: 'a svc_error + db)" and
      pr: "insert_processed (processed_mark eid (env_ids e 0)) (insert_audit (created_audit (env_rt e) (env_ids e 0) eid a) d2)
           = (Inr d' :: 'a svc_error + db)" and
      r: "r = \<lparr>crr_case_id = env_ids e 0, crr_created = True, crr_already_processed = False\<rparr>"
      by (auto simp: correlate_detection_def Let_def processed_mark_def split: sum.splits)
    from ins have d1: "d1 = d\<lparr>cases := cases d @ [new_case e (env_ids e 0) a]\<rparr>" and new: "env_ids e 0 \<notin> case_id ` set (cases d)"
      by (auto simp: insert_case_def new_case_def split: if_splits)
    from publish_validated_ok [OF pub] have
      d2: "d2 = d1\<lparr>outbox := outbox d1 @ [event_row e 1 (case_created_args (env_ids e 0) eid a) ''investigation.case.created'']\<rparr>"
      by (auto simp: case_created_args_def subject_case_created)
    from pr have "d' = d2\<lparr>audits := audits d2 @ [created_audit (env_rt e) (env_ids e 0) eid a],
        processed := processed d2 @ [processed_mark eid (env_ids e 0)]\<rparr>"
      by (auto simp: insert_processed_def insert_audit_def split: if_splits)
    with False None r new d1 d2 show ?thesis by (intro created) simp_all
  qed
qed

section \<open>Exactly-once effects\<close>

definition correlate_tx ::
  "db \<Rightarrow> string \<Rightarrow> detection_args \<Rightarrow> env \<Rightarrow> (unit svc_error + correlation_result) \<times> db" where
  "correlate_tx d eid a e = run_tx (correlate_detection e eid a) d"

definition recorded_case :: "db \<Rightarrow> string \<Rightarrow> detection_args \<Rightarrow> string" where
  "recorded_case d eid a = (case lookup_by correlation_key (cases d) (Some (de_correlation_key a)) of
      None \<Rightarrow> [] | Some row \<Rightarrow> case_id row)"

lemma already_processed_append:
  "processed d' = processed d @ [processed_mark eid cid] \<Longrightarrow>
   already_processed d' k \<longleftrightarrow> already_processed d k \<or> k = eid"
  by (auto simp: already_processed_def processed_mark_def)

interpretation detections: idempotent_store already_processed correlate_tx crr_case_id recorded_case
proof
  fix d k a e r d' assume "correlate_tx d k a e = (Inr r, d')"
  then have "correlate_detection e k a d = (Inr r :: unit svc_error + correlation_result, d')" by (simp add: correlate_tx_def run_tx_ok)
  then show "already_processed d' k \<and> recorded_case d' k a = crr_case_id r"
    by (cases rule: correlate_cases)
      (auto simp: recorded_case_def new_case_def already_processed_def processed_mark_def)
next
  fix d k a e q d' assume "already_processed d k" "correlate_tx d k a e = (q, d')"
  then show "d' = d" by (auto simp: correlate_tx_def run_tx_def correlate_detection_def Let_def)
next
  fix d k a e q d' k' assume run: "correlate_tx d k a e = (q, d')" and seen: "already_processed d k'"
  show "already_processed d' k'"
  proof (cases q)
    case (Inl err)
    with run seen show ?thesis by (auto simp: correlate_tx_def dest: run_tx_error)
  next
    case (Inr r)
    with run have "correlate_detection e k a d = (Inr r :: unit svc_error + correlation_result, d')"
      by (simp add: correlate_tx_def run_tx_ok)
    then show ?thesis using seen by (cases rule: correlate_cases) (auto simp: already_processed_def)
  qed
qed

lemma case_lookup_mono:
  assumes "lookup_by correlation_key (cases d) (Some k) = Some row"
  shows "lookup_by correlation_key (cases (detections.handle_all d reqs)) (Some k) = Some row"
  using assms
proof (induction reqs arbitrary: d)
  case Nil
  then show ?case by simp
next
  case (Cons q reqs)
  obtain eid a e where q: "q = (eid, a, e)" by (cases q) auto
  have "lookup_by correlation_key (cases (snd (correlate_tx d eid a e))) (Some k) = Some row"
  proof (cases "correlate_tx d eid a e")
    case (Pair res d')
    show ?thesis
    proof (cases res)
      case (Inl err)
      with Pair Cons.prems show ?thesis by (auto simp: correlate_tx_def dest: run_tx_error)
    next
      case (Inr r)
      with Pair have "correlate_detection e eid a d = (Inr r :: unit svc_error + correlation_result, d')"
        by (simp add: correlate_tx_def run_tx_ok)
      then show ?thesis using Cons.prems Pair by (cases rule: correlate_cases) auto
    qed
  qed
  from Cons.IH [OF this] q show ?case by simp
qed

section \<open>Redelivery of a failing message\<close>

lemma note_delivery_note [simp]: "note_delivery t' m (note_delivery t m c) = note_delivery t m c"
  by (auto simp: note_delivery_def split: option.splits)

lemma note_delivery_fields [simp]:
  "co_max_deliver (note_delivery t m c) = co_max_deliver c"
  "co_backoff_seconds (note_delivery t m c) = co_backoff_seconds c"
  "note_delivery t (m\<lparr>nm_num_delivered := n\<rparr>) c = note_delivery t m c"
  by (auto simp: note_delivery_def split: option.splits)

text \<open>
  The broker delivers a message until it is acknowledged, counting deliveries;
  \<open>fails n\<close> is what the handler raises on the n-th one.
\<close>

fun redeliver ::
  "nat \<Rightarrow> nat \<Rightarrow> (nat \<Rightarrow> string) \<Rightarrow> (nat \<Rightarrow> (string \<times> string) option) \<Rightarrow> nats_msg \<Rightarrow> consumer \<Rightarrow> nats_out \<Rightarrow>
   (consumer_error + outcome) \<times> consumer \<times> nats_out" where
  "redeliver 0 n now fails m c out = (Inr Retried, c, out)"
| "redeliver (Suc fuel) n now fails m c out =
     (case process (now n) True (m\<lparr>nm_num_delivered := int n\<rparr>) (fails n) c out of
        (Inr Retried, c', out') \<Rightarrow> redeliver fuel (Suc n) now fails m c' out'
      | other \<Rightarrow> other)"

definition backoff_at :: "rat list \<Rightarrow> nat \<Rightarrow> rat" where
  "backoff_at bs n = bs ! min (n - 1) (length bs - 1)"

lemma process_retry:
  assumes "int n < co_max_deliver c" and "1 \<le> n" and "co_backoff_seconds c \<noteq> []"
  shows "process t True (m\<lparr>nm_num_delivered := int n\<rparr>) (Some exc) c out =
    (Inr Retried, note_delivery t m c,
     out\<lparr>no_dispositions := no_dispositions out @ [Nak (backoff_at (co_backoff_seconds c) n)]\<rparr>)"
proof -
  let ?len = "length (co_backoff_seconds c)"
  have "min (int n - 1) (int ?len - 1) = int (min (n - 1) (?len - 1))"
    using assms(2,3) by (simp add: of_nat_min of_nat_diff Suc_le_eq)
  moreover have "min (n - 1) (?len - 1) < ?len" using assms(3) by (simp add: min_less_iff_disj)
  ultimately have "py_index (co_backoff_seconds c) (min (int n - 1) (int ?len - 1)) =
      Some (backoff_at (co_backoff_seconds c) n)"
    by (simp add: py_index_def backoff_at_def Let_def)
  with assms(1) show ?thesis by (simp add: process_def Let_def)
qed

lemma redeliver_poison:
  assumes "co_max_deliver c = int (n + k)" and "1 \<le> n" and "co_backoff_seconds c \<noteq> []"
    and "\<And>i. fails i = Some (exc i)"
  shows "redeliver (Suc k) n now fails m c out =
    (let c1 = note_delivery (now n) m c;
         info = dead_letter_of c1 (m\<lparr>nm_num_delivered := int (n + k)\<rparr>) (exc (n + k)) (now (n + k)) in
     (Inr DeadLettered, pop_seen (nm_msg_id m) c1,
      out\<lparr>no_published := no_published out @ [(failed_subject_for (nm_subject m), info)],
          no_alerts := no_alerts out @ [info],
          no_dispositions := no_dispositions out @
            map (\<lambda>i. Nak (backoff_at (co_backoff_seconds c) i)) [n..<n + k] @ [Ack]\<rparr>))"
  using assms(1-3)
proof (induction k arbitrary: n c out)
  case 0
  then show ?case by (simp add: process_def Let_def assms(4))
next
  case (Suc k)
  have "process (now n) True (m\<lparr>nm_num_delivered := int n\<rparr>) (fails n) c out =
    (Inr Retried, note_delivery (now n) m c,
     out\<lparr>no_dispositions := no_dispositions out @ [Nak (backoff_at (co_backoff_seconds c) n)]\<rparr>)"
    using Suc.prems by (simp only: assms(4)) (rule process_retry; simp)
  with Suc.IH [of "note_delivery (now n) m c" "Suc n"] Suc.prems show ?case
    by (simp add: Let_def upt_rec [of n])
qed

section \<open>Properties\<close>

definition sample_detection :: detection_args where
  "sample_detection = \<lparr>de_detector = ''d'', de_signature_id = ''s'', de_severity = ''HIGH'',
     de_confidence = PFloat (1/2), de_correlation_key = ''k2'', de_source_ref = ''r''\<rparr>"

definition sample_detection_env :: env where
  "sample_detection_env = sample_env [''case.created'']"

lemma sample_correlate:
  "\<exists>d'. correlate_tx empty_db ''E'' sample_detection sample_detection_env =
     (Inr \<lparr>crr_case_id = ''I0'', crr_created = True, crr_already_processed = False\<rparr>, d')"
proof -
  let ?d1 = "empty_db\<lparr>cases := [new_case sample_detection_env ''I0'' sample_detection]\<rparr>"
  have id0: "env_ids sample_detection_env 0 = ''I0''"
    by (simp add: sample_detection_env_def sample_ids show_nat.simps digit_char_table)
  have "length (canonical_json_bytes (\<lambda>_. ''0.5'') (be_payload (case_created_args ''I0'' ''E'' sample_detection))) \<le> 900"
    by code_simp
  then have "publishable sample_detection_env 1 (case_created_args ''I0'' ''E'' sample_detection) ?d1"
    unfolding sample_detection_env_def
    by (intro sample_publishable) (simp_all add: case_created_args_def subject_case_created empty_db_def)
  from publishable_ok [OF this, where 'a = unit] show ?thesis
    by (auto simp: correlate_tx_def run_tx_def correlate_detection_def Let_def id0 empty_db_def already_processed_def
        insert_case_def insert_processed_def insert_audit_def new_case_def sample_detection_def)
qed

text \<open>C14. At-least-once delivery, once-effective: after a detection was handled, a later message with the same event
  id changes nothing, however many other detections were handled in between, and whatever it says besides its id.\<close>

theorem detection_duplicate_no_effect:
  assumes "correlate_tx d eid a e = (Inr r, d')"
  shows "snd (correlate_tx (detections.handle_all d' others) eid b e') = detections.handle_all d' others"
  using assms by (rule detections.duplicate_no_effect)

theorem detection_duplicate_no_effect_witness:
  "\<exists>d'. snd (correlate_tx d' ''E'' sample_detection sample_detection_env) = d' \<and> d' \<noteq> empty_db"
proof -
  obtain d' where run: "correlate_tx empty_db ''E'' sample_detection sample_detection_env =
     (Inr \<lparr>crr_case_id = ''I0'', crr_created = True, crr_already_processed = False\<rparr>, d')"
    using sample_correlate by blast
  have "snd (correlate_tx d' ''E'' sample_detection sample_detection_env) = d'"
    using detection_duplicate_no_effect [OF run, of "[]"] by simp
  moreover have "d' \<noteq> empty_db"
    using run detections.handle_fresh [OF run] by (auto simp: already_processed_def empty_db_def)
  ultimately show ?thesis by blast
qed

text \<open>One case per correlation key: once a detection was correlated, every later one with the same correlation
  key is attached to the same case and creates none, whatever was handled in between.\<close>

theorem same_key_same_case:
  assumes "correlate_tx d eid a e = (Inr r, d')" and "\<not> crr_already_processed r"
    and "correlate_tx (detections.handle_all d' others) eid' b e' = (Inr r', d'')"
    and "de_correlation_key b = de_correlation_key a"
  shows "crr_case_id r' = crr_case_id r \<and> \<not> crr_created r'"
proof -
  from assms(1) have "correlate_detection e eid a d = (Inr r :: unit svc_error + correlation_result, d')"
    by (simp add: correlate_tx_def run_tx_ok)
  then obtain row where "lookup_by correlation_key (cases d') (Some (de_correlation_key a)) = Some row"
    "case_id row = crr_case_id r"
    using assms(2) by (cases rule: correlate_cases) (auto simp: new_case_def)
  with case_lookup_mono have row:
    "lookup_by correlation_key (cases (detections.handle_all d' others)) (Some (de_correlation_key b)) = Some row"
    "case_id row = crr_case_id r"
    using assms(4) by auto
  from assms(3) have "correlate_detection e' eid' b (detections.handle_all d' others) =
      (Inr r' :: unit svc_error + correlation_result, d'')"
    by (simp add: correlate_tx_def run_tx_ok)
  then show ?thesis using row by (cases rule: correlate_cases) auto
qed

theorem same_key_same_case_witness:
  "\<exists>d'. fst (correlate_tx d' ''F'' sample_detection sample_detection_env) =
     Inr \<lparr>crr_case_id = ''I0'', crr_created = False, crr_already_processed = False\<rparr>"
proof -
  obtain d' where run: "correlate_tx empty_db ''E'' sample_detection sample_detection_env =
     (Inr \<lparr>crr_case_id = ''I0'', crr_created = True, crr_already_processed = False\<rparr>, d')"
    using sample_correlate by blast
  then have "correlate_detection sample_detection_env ''E'' sample_detection empty_db =
     (Inr \<lparr>crr_case_id = ''I0'', crr_created = True, crr_already_processed = False\<rparr> :: unit svc_error + correlation_result, d')"
    by (simp add: correlate_tx_def run_tx_ok)
  then have "already_processed d' ''F'' = False" "lookup_by correlation_key (cases d') (Some ''k2'') \<noteq> None"
    by (cases rule: correlate_cases; simp add: already_processed_def empty_db_def processed_mark_def new_case_def sample_detection_def)+
  then obtain r' d'' where run': "correlate_tx (detections.handle_all d' []) ''F'' sample_detection sample_detection_env = (Inr r', d'')"
    and np: "\<not> crr_already_processed r'"
    by (auto simp: correlate_tx_def run_tx_def correlate_detection_def Let_def insert_processed_def
        already_processed_def insert_audit_def sample_detection_def)
  from same_key_same_case [OF run _ run'] have "crr_case_id r' = ''I0''" "\<not> crr_created r'" by simp_all
  with np have "r' = \<lparr>crr_case_id = ''I0'', crr_created = False, crr_already_processed = False\<rparr>" by simp
  with run' show ?thesis by (intro exI [of _ d']) simp
qed

text \<open>C31. A message whose handler always fails is delivered exactly \<^verbatim>\<open>max_deliver\<close> times: every delivery but the
  last is returned with the back-off of its attempt (the last back-off once they run out), the last one is published
  once to the failed subject and acknowledged. The dead letter carries the number of attempts and the time of the
  first delivery, and the consumer forgets the message.\<close>

theorem poison_message_dead_lettered:
  assumes "co_max_deliver c = int (Suc k)" and "co_backoff_seconds c \<noteq> []" and "\<And>i. fails i = Some (exc i)"
    and "nm_msg_id m = Some mid" and "mid \<noteq> []" and "map_of (co_first_failure_seen c) mid = None"
  shows "\<exists>c' out' info. redeliver (Suc k) 1 now fails m c out = (Inr DeadLettered, c', out') \<and>
    no_dispositions out' = no_dispositions out @
      map (\<lambda>i. Nak (backoff_at (co_backoff_seconds c) i)) [1..<Suc k] @ [Ack] \<and>
    no_published out' = no_published out @ [(failed_subject_for (nm_subject m), info)] \<and>
    dl_attempt_count info = int (Suc k) \<and> dl_first_failure_at info = now 1 \<and>
    dl_last_failure_at info = now (Suc k) \<and> dl_original_event_id info = Some mid \<and>
    map_of (co_first_failure_seen c') mid = None"
proof -
  let ?c1 = "note_delivery (now 1) m c"
  let ?info = "dead_letter_of ?c1 (m\<lparr>nm_num_delivered := int (Suc k)\<rparr>) (exc (Suc k)) (now (Suc k))"
  have run: "redeliver (Suc k) 1 now fails m c out =
    (Inr DeadLettered, pop_seen (nm_msg_id m) ?c1,
     out\<lparr>no_published := no_published out @ [(failed_subject_for (nm_subject m), ?info)],
         no_alerts := no_alerts out @ [?info],
         no_dispositions := no_dispositions out @
           map (\<lambda>i. Nak (backoff_at (co_backoff_seconds c) i)) [1..<Suc k] @ [Ack]\<rparr>)"
    using redeliver_poison [where n = 1 and k = k and c = c and fails = fails and exc = exc] assms(1-3)
    by (simp add: Let_def)
  have "dl_first_failure_at ?info = now 1" "map_of (co_first_failure_seen (pop_seen (nm_msg_id m) ?c1)) mid = None"
    using assms(4-6) by (auto simp: dead_letter_of_def note_delivery_def py_or_def pop_seen_def AList.delete_conv')
  then show ?thesis
    unfolding run using assms(4)
    by (intro exI [of _ "pop_seen (nm_msg_id m) ?c1"] exI [of _ "out\<lparr>no_published := no_published out @ [(failed_subject_for (nm_subject m), ?info)],
         no_alerts := no_alerts out @ [?info],
         no_dispositions := no_dispositions out @
           map (\<lambda>i. Nak (backoff_at (co_backoff_seconds c) i)) [1..<Suc k] @ [Ack]\<rparr>"] exI [of _ ?info])
      (simp add: dead_letter_of_def)
qed

theorem poison_message_dead_lettered_witness:
  "\<exists>c' out'. redeliver 5 1 (\<lambda>n. show_nat n) (\<lambda>_. Some (''ValueError'', ''x''))
      \<lparr>nm_subject = ''audit.recorded'', nm_msg_id = Some ''e'', nm_num_delivered = 1\<rparr>
      \<lparr>co_durable_name = ''w'', co_max_deliver = 5, co_backoff_seconds = [1, 2, 4, 8], co_first_failure_seen = []\<rparr>
      \<lparr>no_published = [], no_dispositions = [], no_alerts = []\<rparr> = (Inr DeadLettered, c', out') \<and>
    no_dispositions out' = [Nak 1, Nak 2, Nak 4, Nak 8, Ack]"
proof -
  let ?c = "\<lparr>co_durable_name = ''w'', co_max_deliver = 5, co_backoff_seconds = [1, 2, 4, 8], co_first_failure_seen = []\<rparr>"
  have five: "(5 :: nat) = Suc 4" by simp
  have upt: "[1..<Suc 4] = [1, 2, 3, 4 :: nat]" by (simp add: upt_rec)
  show ?thesis
    unfolding five
    using poison_message_dead_lettered [where k = 4 and c = ?c and mid = "''e''" and fails = "\<lambda>_. Some (''ValueError'', ''x'')"
        and exc = "\<lambda>_. (''ValueError'', ''x'')" and now = show_nat
        and m = "\<lparr>nm_subject = ''audit.recorded'', nm_msg_id = Some ''e'', nm_num_delivered = 1\<rparr>"
        and out = "\<lparr>no_published = [], no_dispositions = [], no_alerts = []\<rparr>"]
    unfolding upt by (fastforce simp: backoff_at_def)
qed

text \<open>Two reports count as the same event only with an equal, non-empty host id and an equal, non-empty process
  id on both sides; without one on either side no duplicate is claimed. No observation type is claimed by both
  collectors.\<close>

theorem duplicate_needs_process_guid:
  "(is_duplicate_of_elastic_agent_event obs ev \<longleftrightarrow>
     (\<exists>kvs host guid. jget obs ''detail'' = Some (JObj kvs) \<and> map_of kvs ''host_id'' = Some (JStr host) \<and>
        map_of kvs ''process_guid'' = Some (JStr guid) \<and> host = ea_host_id ev \<and> host \<noteq> [] \<and>
        ea_process_guid ev = Some guid \<and> guid \<noteq> [])) \<and>
   (\<forall>t. is_owned_by_elastic_agent t \<longrightarrow> t \<notin> set MIRAGE_SPECIFIC_OBSERVATION_TYPES)"
proof -
  have "\<forall>t \<in> set OBSERVATION_TYPES_OWNED_BY_ELASTIC_AGENT. t \<notin> set MIRAGE_SPECIFIC_OBSERVATION_TYPES"
    by code_simp
  then show ?thesis
    by (auto simp: is_duplicate_of_elastic_agent_event_def truthy_str_def is_owned_by_elastic_agent_def Let_def
        split: option.splits json.splits if_splits)
qed

theorem duplicate_needs_process_guid_witness:
  "\<not> is_duplicate_of_elastic_agent_event (JObj [(''detail'', JNull)])
     \<lparr>ea_host_id = ''h'', ea_process_guid = Some ''g'', ea_event_type = ''t'', ea_timestamp = ''0''\<rparr>"
  using duplicate_needs_process_guid [of "JObj [(''detail'', JNull)]"] by simp

end
