(* ===== verification/Mirage_Agent.thy ===== *)
theory Mirage_Agent
  imports Mirage_Contracts "HOL-Library.Sublist"
begin

text \<open>
  The agent side of telemetry delivery: the encrypted local queue
  (\<^verbatim>\<open>libs/mirage_common/agent_queue.py\<close>), the acknowledgement check of
  \<^verbatim>\<open>agent_http_client.py\<close> and the flush loops of MirageEndpoint and
  MirageSpider (\<^verbatim>\<open>agents/mirage-endpoint\<close>, \<^verbatim>\<open>agents/mirage-spider\<close>,
  \<^verbatim>\<open>service_logic.py\<close>).

  The cipher is a parameter: \<open>seal\<close> is Fernet encryption of the printed event,
  \<open>unseal\<close> decryption and parsing. The transport is a parameter too: a function
  from an event and the state of the world to a response and a new state.
\<close>

section \<open>The queue (agent\_queue.py)\<close>

datatype queue_status = STATUS_PENDING | STATUS_ACKNOWLEDGED | STATUS_DEAD_LETTER

record cipher =
  seal :: "json \<Rightarrow> string"
  unseal :: "string \<Rightarrow> json option"

record queue_row =
  qr_id :: int
  qr_enqueued_at :: string
  qr_blob :: string
  qr_status :: queue_status
  qr_attempts :: int
  qr_last_error :: "string option"

record queue =
  q_rows :: "queue_row list"
  q_autoinc :: int
  q_sequence :: int
  q_max_queue_size :: int

definition DEFAULT_MAX_QUEUE_SIZE :: int where
  "DEFAULT_MAX_QUEUE_SIZE = 100000"

definition empty_queue :: queue where
  "empty_queue = \<lparr>q_rows = [], q_autoinc = 0, q_sequence = 0, q_max_queue_size = DEFAULT_MAX_QUEUE_SIZE\<rparr>"

datatype queue_error = QueueCapacityExceeded int | InvalidToken | NoSuchRow int

definition is_pending :: "queue_row \<Rightarrow> bool" where
  "is_pending r = (qr_status r = STATUS_PENDING)"

definition pending_rows :: "queue \<Rightarrow> queue_row list" where
  "pending_rows q = sort_key qr_id (filter is_pending (q_rows q))"

definition pending_count :: "queue \<Rightarrow> int" where
  "pending_count q = int (length (filter is_pending (q_rows q)))"

definition dead_letter_count :: "queue \<Rightarrow> int" where
  "dead_letter_count q = int (length (filter (\<lambda>r. qr_status r = STATUS_DEAD_LETTER) (q_rows q)))"

definition enqueue :: "cipher \<Rightarrow> json \<Rightarrow> string \<Rightarrow> queue \<Rightarrow> (queue_error + int) \<times> queue" where
  "enqueue cy event enqueued_at q =
     (if pending_count q \<ge> q_max_queue_size q then (Inl (QueueCapacityExceeded (q_max_queue_size q)), q)
      else let i = q_autoinc q + 1 in
        (Inr i, q\<lparr>q_autoinc := i,
                  q_rows := q_rows q @ [\<lparr>qr_id = i, qr_enqueued_at = enqueued_at, qr_blob = seal cy event,
                    qr_status = STATUS_PENDING, qr_attempts = 0, qr_last_error = None\<rparr>]\<rparr>))"

definition sql_limit :: "int \<Rightarrow> 'a list \<Rightarrow> 'a list" where
  "sql_limit n xs = (if n < 0 then xs else take (nat n) xs)"

definition open_row :: "cipher \<Rightarrow> queue_row \<Rightarrow> (int \<times> json) option" where
  "open_row cy r = map_option (\<lambda>j. (qr_id r, j)) (unseal cy (qr_blob r))"

definition peek_batch :: "cipher \<Rightarrow> int \<Rightarrow> queue \<Rightarrow> queue_error + (int \<times> json) list" where
  "peek_batch cy limit q =
     (case those (map (open_row cy) (sql_limit limit (pending_rows q))) of
        None \<Rightarrow> Inl InvalidToken
      | Some batch \<Rightarrow> Inr batch)"

definition update_rows :: "(queue_row \<Rightarrow> bool) \<Rightarrow> (queue_row \<Rightarrow> queue_row) \<Rightarrow> queue \<Rightarrow> queue" where
  "update_rows P f q = q\<lparr>q_rows := update_where P f (q_rows q)\<rparr>"

definition ack :: "int list \<Rightarrow> queue \<Rightarrow> queue" where
  "ack ids q =
     (if ids = [] then q
      else update_rows (\<lambda>r. qr_id r \<in> set ids) (\<lambda>r. r\<lparr>qr_status := STATUS_ACKNOWLEDGED\<rparr>) q)"

definition record_attempt_failure :: "int \<Rightarrow> string \<Rightarrow> queue \<Rightarrow> (queue_error + int) \<times> queue" where
  "record_attempt_failure row_id err q =
     (let q' = update_rows (\<lambda>r. qr_id r = row_id)
                 (\<lambda>r. r\<lparr>qr_attempts := qr_attempts r + 1, qr_last_error := Some err\<rparr>) q in
      case lookup_by qr_id (q_rows q') row_id of
        None \<Rightarrow> (Inl (NoSuchRow row_id), q')
      | Some r \<Rightarrow> (Inr (qr_attempts r), q'))"

definition dead_letter :: "int list \<Rightarrow> string option \<Rightarrow> queue \<Rightarrow> queue" where
  "dead_letter ids err q =
     (if ids = [] then q
      else case err of
        Some msg \<Rightarrow> update_rows (\<lambda>r. qr_id r \<in> set ids)
                      (\<lambda>r. r\<lparr>qr_status := STATUS_DEAD_LETTER, qr_last_error := Some msg\<rparr>) q
      | None \<Rightarrow> update_rows (\<lambda>r. qr_id r \<in> set ids) (\<lambda>r. r\<lparr>qr_status := STATUS_DEAD_LETTER\<rparr>) q)"

definition vacuum_acked :: "queue \<Rightarrow> queue" where
  "vacuum_acked q = q\<lparr>q_rows := filter (\<lambda>r. qr_status r \<noteq> STATUS_ACKNOWLEDGED) (q_rows q)\<rparr>"

definition next_sequence :: "queue \<Rightarrow> int \<times> queue" where
  "next_sequence q = (q_sequence q + 1, q\<lparr>q_sequence := q_sequence q + 1\<rparr>)"

definition current_sequence :: "queue \<Rightarrow> int" where
  "current_sequence q = q_sequence q"

section \<open>The acknowledgement check (agent\_http\_client.py)\<close>

datatype submit_result =
    Delivered json
  | TelemetrySubmitFailed nat string
  | TelemetryAckMismatch string
  | TransportError string

record response =
  rp_status :: nat
  rp_text :: string
  rp_body :: json

definition check_acknowledgement :: "(rat \<Rightarrow> string) \<Rightarrow> json \<Rightarrow> response \<Rightarrow> submit_result" where
  "check_acknowledgement fl event resp =
     (if rp_status resp \<noteq> 202 then TelemetrySubmitFailed (rp_status resp) (rp_text resp)
      else if \<not> py_eq (py_get (rp_body resp) ''event_id'') (py_get event ''event_id'')
        then TelemetryAckMismatch (''acknowledgement named event_id '' @ py_repr_json fl (py_get (rp_body resp) ''event_id'') @
               '', expected '' @ py_repr_json fl (py_get event ''event_id''))
      else Delivered (rp_body resp))"

text \<open>\<open>post\<close> is the HTTP request: a response, or a transport failure.\<close>

definition submit_telemetry_client ::
  "(rat \<Rightarrow> string) \<Rightarrow> (json \<Rightarrow> 'w \<Rightarrow> (string + response) \<times> 'w) \<Rightarrow> json \<Rightarrow> 'w \<Rightarrow> submit_result \<times> 'w" where
  "submit_telemetry_client fl post event w =
     (case post event w of
        (Inl err, w') \<Rightarrow> (TransportError err, w')
      | (Inr resp, w') \<Rightarrow> (check_acknowledgement fl event resp, w'))"

definition submit_failed_text :: "nat \<Rightarrow> string \<Rightarrow> string" where
  "submit_failed_text st text = ''telemetry submit failed ('' @ show_nat st @ ''): '' @ text"

section \<open>Flushing (service\_logic.py)\<close>

definition PERMANENT_REJECTION_STATUS_CODES :: "nat set" where
  "PERMANENT_REJECTION_STATUS_CODES = {400}"

record batch_state =
  bs_sent :: nat
  bs_progressed :: bool
  bs_queue :: queue

text \<open>
  One pass of MirageSpider over a batch. A transport exception is not caught by
  the loop and leaves it at once (\<open>Some\<close> its text in the first component).
\<close>

fun spider_batch ::
  "(json \<Rightarrow> 'w \<Rightarrow> submit_result \<times> 'w) \<Rightarrow> (int \<times> json) list \<Rightarrow> batch_state \<Rightarrow> 'w \<Rightarrow>
   string option \<times> batch_state \<times> 'w" where
  "spider_batch send [] b w = (None, b, w)"
| "spider_batch send ((row_id, event) # rest) b w =
     (case send event w of
        (Delivered _, w') \<Rightarrow>
          spider_batch send rest
            (b\<lparr>bs_sent := bs_sent b + 1, bs_progressed := True, bs_queue := ack [row_id] (bs_queue b)\<rparr>) w'
      | (TelemetrySubmitFailed st text, w') \<Rightarrow>
          let msg = submit_failed_text st text in
          if st \<in> PERMANENT_REJECTION_STATUS_CODES
          then spider_batch send rest
                 (b\<lparr>bs_progressed := True, bs_queue := dead_letter [row_id] (Some msg) (bs_queue b)\<rparr>) w'
          else (None, b\<lparr>bs_queue := snd (record_attempt_failure row_id msg (bs_queue b))\<rparr>, w')
      | (TelemetryAckMismatch msg, w') \<Rightarrow>
          (None, b\<lparr>bs_queue := snd (record_attempt_failure row_id msg (bs_queue b))\<rparr>, w')
      | (TransportError err, w') \<Rightarrow> (Some err, b, w'))"

text \<open>One pass of MirageEndpoint: \<open>send\<close> says whether the event was durably acknowledged.\<close>

fun endpoint_batch ::
  "(json \<Rightarrow> 'w \<Rightarrow> bool \<times> 'w) \<Rightarrow> (int \<times> json) list \<Rightarrow> batch_state \<Rightarrow> 'w \<Rightarrow> batch_state \<times> 'w" where
  "endpoint_batch send [] b w = (b, w)"
| "endpoint_batch send ((row_id, event) # rest) b w =
     (case send event w of
        (False, w') \<Rightarrow> (b, w')
      | (True, w') \<Rightarrow>
          endpoint_batch send rest
            (b\<lparr>bs_sent := bs_sent b + 1, bs_progressed := True, bs_queue := ack [row_id] (bs_queue b)\<rparr>) w')"

section \<open>Lemmas on the queue\<close>

definition queue_inv :: "queue \<Rightarrow> bool" where
  "queue_inv q \<longleftrightarrow> sorted_wrt (<) (map qr_id (q_rows q)) \<and> (\<forall>r \<in> set (q_rows q). qr_id r \<le> q_autoinc q)"

definition keeps_ids :: "(queue_row \<Rightarrow> queue_row) \<Rightarrow> bool" where
  "keeps_ids f \<longleftrightarrow> (\<forall>r. qr_id (f r) = qr_id r)"

lemma map_id_update: "keeps_ids f \<Longrightarrow> map qr_id (update_where P f rows) = map qr_id rows"
  by (rule keys_update) (simp add: keeps_ids_def)

lemma queue_inv_update: "keeps_ids f \<Longrightarrow> queue_inv q \<Longrightarrow> queue_inv (update_rows P f q)"
  by (auto simp: queue_inv_def update_rows_def map_id_update set_update_where keeps_ids_def)

lemma queue_inv_ack [intro]: "queue_inv q \<Longrightarrow> queue_inv (ack ids q)"
  by (auto simp: ack_def keeps_ids_def intro: queue_inv_update)

lemma queue_inv_dead_letter [intro]: "queue_inv q \<Longrightarrow> queue_inv (dead_letter ids err q)"
  by (auto simp: dead_letter_def keeps_ids_def intro: queue_inv_update split: option.splits)

lemma queue_inv_record [intro]: "queue_inv q \<Longrightarrow> queue_inv (snd (record_attempt_failure i err q))"
  by (auto simp: record_attempt_failure_def Let_def keeps_ids_def intro: queue_inv_update split: option.splits)

lemma queue_inv_enqueue: "queue_inv q \<Longrightarrow> enqueue cy ev t q = (res, q') \<Longrightarrow> queue_inv q'"
  by (fastforce simp: enqueue_def queue_inv_def Let_def sorted_wrt_append split: if_splits)

lemma queue_inv_vacuum: "queue_inv q \<Longrightarrow> queue_inv (vacuum_acked q)"
  unfolding queue_inv_def vacuum_acked_def
  by (simp add: sorted_wrt_map) (metis (no_types, lifting) sorted_wrt_filter)

lemma queue_inv_sequence: "queue_inv q \<Longrightarrow> queue_inv (snd (next_sequence q))"
  by (simp add: queue_inv_def next_sequence_def)

lemma sorted_pending: "queue_inv q \<Longrightarrow> pending_rows q = filter is_pending (q_rows q)"
proof -
  assume "queue_inv q"
  then have "sorted_wrt (<) (map qr_id (filter is_pending (q_rows q)))"
    by (auto simp: queue_inv_def sorted_wrt_map intro: sorted_wrt_filter)
  then have "sorted (map qr_id (filter is_pending (q_rows q)))"
    by (rule strict_sorted_imp_sorted)
  then show ?thesis unfolding pending_rows_def by (rule sort_key_id_if_sorted)
qed

section \<open>The flush loops\<close>

lemma pending_count_update:
  assumes "\<And>r. \<not> is_pending r \<Longrightarrow> \<not> is_pending (f r)"
  shows "length (filter is_pending (update_where P f rows)) \<le> length (filter is_pending rows)"
  using assms by (induction rows) (auto simp: update_where_def)

lemma pending_count_update_less:
  assumes "\<And>r. \<not> is_pending (f r)" and "r \<in> set rows" and "is_pending r" and "P r"
  shows "length (filter is_pending (update_where P f rows)) < length (filter is_pending rows)"
  using assms(2-4)
proof (induction rows)
  case (Cons x rows)
  have "length (filter is_pending (update_where P f rows)) \<le> length (filter is_pending rows)"
    by (rule pending_count_update) (simp add: assms(1))
  then show ?case using Cons assms(1) by (auto simp: update_where_def less_Suc_eq_le)
qed simp

abbreviation pcount :: "queue \<Rightarrow> nat" where
  "pcount q \<equiv> length (filter is_pending (q_rows q))"

lemma pcount_le:
  "pcount (ack ids q) \<le> pcount q" "pcount (dead_letter ids err q) \<le> pcount q"
  "pcount (snd (record_attempt_failure i msg q)) \<le> pcount q"
  by (auto simp: ack_def dead_letter_def record_attempt_failure_def update_rows_def is_pending_def Let_def
      intro!: pending_count_update split: option.splits)

lemma pcount_less:
  assumes "r \<in> set (q_rows q)" and "is_pending r"
  shows "pcount (ack [qr_id r] q) < pcount q" "pcount (dead_letter [qr_id r] err q) < pcount q"
  using assms by (auto simp: ack_def dead_letter_def update_rows_def is_pending_def
      intro!: pending_count_update_less split: option.splits)

lemma spider_batch_pcount: "spider_batch send batch b w = (exc, b', w') \<Longrightarrow> pcount (bs_queue b') \<le> pcount (bs_queue b)"
proof (induction batch arbitrary: b w)
  case Nil
  then show ?case by simp
next
  case (Cons x batch)
  obtain i ev r w1 where x: "x = (i, ev)" and s: "send ev w = (r, w1)" by (cases x; cases "send (snd x) w") auto
  from Cons.prems x s consider
      b1 where "spider_batch send batch b1 w1 = (exc, b', w')" "pcount (bs_queue b1) \<le> pcount (bs_queue b)"
    | msg where "bs_queue b' = snd (record_attempt_failure i msg (bs_queue b))" | "b' = b"
    by (auto simp: Let_def pcount_le split: submit_result.splits if_splits)
  then show ?case
  proof cases
    case 1
    then show ?thesis using Cons.IH [OF 1(1)] by simp
  next
    case (2 msg)
    then show ?thesis by (simp add: pcount_le)
  qed simp
qed

lemma spider_batch_progress:
  assumes "spider_batch send ((i, ev) # rest) b w = (exc, b', w')" and "\<not> bs_progressed b" and "bs_progressed b'"
    and "r \<in> set (q_rows (bs_queue b))" and "is_pending r" and "qr_id r = i"
  shows "pcount (bs_queue b') < pcount (bs_queue b)"
proof -
  obtain b1 w1 where "spider_batch send rest b1 w1 = (exc, b', w')" "pcount (bs_queue b1) < pcount (bs_queue b)"
    using assms pcount_less [OF assms(4,5)]
    by (auto simp: Let_def split: submit_result.splits if_splits prod.splits)
  then show ?thesis using spider_batch_pcount by fastforce
qed

lemma those_Cons: "those (x # xs) = Some (y # ys) \<Longrightarrow> x = Some y"
  by (auto split: option.splits)

lemma peek_batch_head:
  assumes "peek_batch cy limit q = Inr ((i, ev) # rest)"
  obtains r where "r \<in> set (q_rows q)" "is_pending r" "qr_id r = i"
proof -
  from assms have "those (map (open_row cy) (sql_limit limit (pending_rows q))) = Some ((i, ev) # rest)"
    by (auto simp: peek_batch_def split: option.splits)
  then obtain r rs where "sql_limit limit (pending_rows q) = r # rs" "open_row cy r = Some (i, ev)"
    by (cases "sql_limit limit (pending_rows q)") (auto split: option.splits)
  moreover from this have "r \<in> set (pending_rows q)"
    by (metis in_set_takeD list.set_intros(1) sql_limit_def)
  ultimately show ?thesis by (intro that [of r]) (auto simp: pending_rows_def open_row_def)
qed

datatype flush_error = FlushQueue queue_error | FlushTransport string

lemma spider_flush_decreases:
  assumes "peek_batch cy limit q = Inr batch" and "batch \<noteq> []"
    and "spider_batch send batch \<lparr>bs_sent = sent0, bs_progressed = False, bs_queue = q\<rparr> w = (None, b, w')"
    and "bs_progressed b"
  shows "pcount (bs_queue b) < pcount q"
proof -
  obtain i ev rest where batch: "batch = (i, ev) # rest" using assms(2) by (cases batch) auto
  from peek_batch_head [OF assms(1) [unfolded batch]]
  obtain r where "r \<in> set (q_rows q)" "is_pending r" "qr_id r = i" by blast
  with spider_batch_progress [OF assms(3) [unfolded batch]] assms(4) show ?thesis by simp
qed

function spider_flush ::
  "cipher \<Rightarrow> (json \<Rightarrow> 'w \<Rightarrow> submit_result \<times> 'w) \<Rightarrow> int \<Rightarrow> nat \<Rightarrow> queue \<Rightarrow> 'w \<Rightarrow>
   (flush_error + nat) \<times> queue \<times> 'w" where
  "spider_flush cy send limit sent0 q w =
     (case peek_batch cy limit q of
        Inl err \<Rightarrow> (Inl (FlushQueue err), q, w)
      | Inr batch \<Rightarrow>
          if batch = [] then (Inr sent0, q, w)
          else (case spider_batch send batch \<lparr>bs_sent = sent0, bs_progressed = False, bs_queue = q\<rparr> w of
                  (Some err, b, w') \<Rightarrow> (Inl (FlushTransport err), bs_queue b, w')
                | (None, b, w') \<Rightarrow>
                    if bs_progressed b then spider_flush cy send limit (bs_sent b) (bs_queue b) w'
                    else (Inr (bs_sent b), bs_queue b, w')))"
  by pat_completeness auto
termination
  by (relation "measure (\<lambda>(cy, send, limit, sent0, q, w). pcount q)")
    (simp, auto dest: spider_flush_decreases [OF _ _ sym])

definition flush_queue_spider ::
  "cipher \<Rightarrow> (json \<Rightarrow> 'w \<Rightarrow> submit_result \<times> 'w) \<Rightarrow> int \<Rightarrow> queue \<Rightarrow> 'w \<Rightarrow> (flush_error + nat) \<times> queue \<times> 'w" where
  "flush_queue_spider cy send batch_size q w = spider_flush cy send batch_size 0 q w"

lemma endpoint_batch_pcount: "endpoint_batch send batch b w = (b', w') \<Longrightarrow> pcount (bs_queue b') \<le> pcount (bs_queue b)"
proof (induction batch arbitrary: b w)
  case (Cons x batch)
  then show ?case using pcount_le(1) [of "[fst x]" "bs_queue b"]
    by (cases x) (fastforce split: prod.splits bool.splits)
qed simp

lemma endpoint_batch_progress:
  assumes "endpoint_batch send ((i, ev) # rest) b w = (b', w')" and "\<not> bs_progressed b" and "bs_progressed b'"
    and "r \<in> set (q_rows (bs_queue b))" and "is_pending r" and "qr_id r = i"
  shows "pcount (bs_queue b') < pcount (bs_queue b)"
proof -
  obtain b1 w1 where "endpoint_batch send rest b1 w1 = (b', w')" "pcount (bs_queue b1) < pcount (bs_queue b)"
    using assms pcount_less(1) [OF assms(4,5)] by (auto split: prod.splits bool.splits)
  then show ?thesis using endpoint_batch_pcount by fastforce
qed

lemma endpoint_flush_decreases:
  assumes "peek_batch cy limit q = Inr batch" and "batch \<noteq> []"
    and "endpoint_batch send batch \<lparr>bs_sent = sent0, bs_progressed = False, bs_queue = q\<rparr> w = (b, w')"
    and "bs_progressed b"
  shows "pcount (bs_queue b) < pcount q"
proof -
  obtain i ev rest where batch: "batch = (i, ev) # rest" using assms(2) by (cases batch) auto
  from peek_batch_head [OF assms(1) [unfolded batch]]
  obtain r where "r \<in> set (q_rows q)" "is_pending r" "qr_id r = i" by blast
  with endpoint_batch_progress [OF assms(3) [unfolded batch]] assms(4) show ?thesis by simp
qed

function endpoint_flush ::
  "cipher \<Rightarrow> (json \<Rightarrow> 'w \<Rightarrow> bool \<times> 'w) \<Rightarrow> int \<Rightarrow> nat \<Rightarrow> queue \<Rightarrow> 'w \<Rightarrow> (queue_error + nat) \<times> queue \<times> 'w" where
  "endpoint_flush cy send limit sent0 q w =
     (case peek_batch cy limit q of
        Inl err \<Rightarrow> (Inl err, q, w)
      | Inr batch \<Rightarrow>
          if batch = [] then (Inr sent0, q, w)
          else (case endpoint_batch send batch \<lparr>bs_sent = sent0, bs_progressed = False, bs_queue = q\<rparr> w of
                  (b, w') \<Rightarrow>
                    if bs_progressed b then endpoint_flush cy send limit (bs_sent b) (bs_queue b) w'
                    else (Inr (bs_sent b), bs_queue b, w')))"
  by pat_completeness auto
termination
  by (relation "measure (\<lambda>(cy, send, limit, sent0, q, w). pcount q)")
    (simp, auto dest: endpoint_flush_decreases [OF _ _ sym])

definition flush_queue_endpoint ::
  "cipher \<Rightarrow> (json \<Rightarrow> 'w \<Rightarrow> bool \<times> 'w) \<Rightarrow> int \<Rightarrow> queue \<Rightarrow> 'w \<Rightarrow> (queue_error + nat) \<times> queue \<times> 'w" where
  "flush_queue_endpoint cy send batch_size q w = endpoint_flush cy send batch_size 0 q w"

declare spider_flush.simps [simp del]
declare endpoint_flush.simps [simp del]

section \<open>Recording (mirage\_spider/service\_logic.py)\<close>

record spider =
  sp_rt :: runtime
  sp_cipher :: cipher
  sp_agent_id :: string
  sp_host_fingerprint :: string
  sp_build_hash :: string
  sp_certificate_serial :: string

definition setdefault :: "string \<Rightarrow> json \<Rightarrow> (string \<times> json) list \<Rightarrow> (string \<times> json) list" where
  "setdefault k v kvs = (if map_of kvs k = None then AList.update k v kvs else kvs)"

definition set_if :: "string \<Rightarrow> string option \<Rightarrow> (string \<times> json) list \<Rightarrow> (string \<times> json) list" where
  "set_if k v kvs = (case v of None \<Rightarrow> kvs | Some x \<Rightarrow> AList.update k (JStr x) kvs)"

definition spider_event_args ::
  "spider \<Rightarrow> string \<Rightarrow> json \<Rightarrow> int \<Rightarrow> string option \<Rightarrow> string option \<Rightarrow> build_args" where
  "spider_event_args sp ty payload sequence cid sid =
     \<lparr>be_event_type = ty, be_schema_version = ''1.0'', be_payload = payload, be_source_id = sp_agent_id sp,
      be_sequence = sequence, be_actor_type = ''SPIDER_AGENT'', be_classification = ''EVIDENCE'',
      be_case_id = cid, be_session_id = sid, be_event_id = None, be_event_time = None\<rparr>"

record observation =
  ob_type :: string
  ob_subject :: string
  ob_detail :: "(string \<times> json) list"
  ob_case_id :: "string option"
  ob_session_id :: "string option"
  ob_process_guid :: "string option"
  ob_correlation_id :: "string option"

definition merged_detail :: "spider \<Rightarrow> observation \<Rightarrow> (string \<times> json) list" where
  "merged_detail sp ob =
     set_if ''correlation_id'' (ob_correlation_id ob)
       (set_if ''process_guid'' (ob_process_guid ob)
         (setdefault ''host_id'' (JStr (sp_host_fingerprint sp)) (ob_detail ob)))"

text \<open>\<open>now\<close> is the clock's text, \<open>fresh\<close> the generated event id.\<close>

definition record_observation ::
  "spider \<Rightarrow> string \<Rightarrow> string \<Rightarrow> observation \<Rightarrow> queue \<Rightarrow> (queue_error + int) \<times> queue" where
  "record_observation sp now fresh ob q =
     (let (sequence, q1) = next_sequence q;
          payload = JObj [(''observation_type'', JStr (ob_type ob)), (''subject'', JStr (ob_subject ob)),
                          (''observed_at'', JStr now), (''detail'', JObj (merged_detail sp ob))];
          event = build_event (sp_rt sp) now fresh
                    (spider_event_args sp ''spider.observation'' payload sequence (ob_case_id ob) (ob_session_id ob)) in
      case enqueue (sp_cipher sp) event now q1 of
        (Inl err, q2) \<Rightarrow> (Inl err, q2)
      | (Inr _, q2) \<Rightarrow> (Inr sequence, q2))"

text \<open>Immediate delivery with the queue as fall-back; \<open>payload\<close> is built by the two callers below.\<close>

definition send_or_enqueue ::
  "spider \<Rightarrow> (json \<Rightarrow> 'w \<Rightarrow> submit_result \<times> 'w) \<Rightarrow> string \<Rightarrow> string \<Rightarrow> string \<Rightarrow> json \<Rightarrow> queue \<Rightarrow> 'w \<Rightarrow>
   (queue_error + bool) \<times> queue \<times> 'w" where
  "send_or_enqueue sp send now fresh ty payload q w =
     (let (sequence, q1) = next_sequence q;
          event = build_event (sp_rt sp) now fresh (spider_event_args sp ty payload sequence None None) in
      case send event w of
        (Delivered _, w') \<Rightarrow> (Inr True, q1, w')
      | (_, w') \<Rightarrow>
          (case enqueue (sp_cipher sp) event now q1 of
             (Inl err, q2) \<Rightarrow> (Inl err, q2, w')
           | (Inr _, q2) \<Rightarrow> (Inr False, q2, w')))"

definition record_tamper ::
  "spider \<Rightarrow> (json \<Rightarrow> 'w \<Rightarrow> submit_result \<times> 'w) \<Rightarrow> string \<Rightarrow> string \<Rightarrow> string \<Rightarrow> string \<Rightarrow> queue \<Rightarrow> 'w \<Rightarrow>
   (queue_error + bool) \<times> queue \<times> 'w" where
  "record_tamper sp send now fresh tamper_type detail =
     send_or_enqueue sp send now fresh ''spider.tamper''
       (JObj [(''tamper_type'', JStr tamper_type), (''detail'', JStr detail), (''observed_at'', JStr now)])"

definition submit_fingerprint_snapshot ::
  "spider \<Rightarrow> (json \<Rightarrow> 'w \<Rightarrow> submit_result \<times> 'w) \<Rightarrow> string \<Rightarrow> string \<Rightarrow> string \<Rightarrow> json \<Rightarrow> queue \<Rightarrow> 'w \<Rightarrow>
   (queue_error + bool) \<times> queue \<times> 'w" where
  "submit_fingerprint_snapshot sp send now fresh sandbox_id checks =
     send_or_enqueue sp send now fresh ''spider.fingerprint_snapshot''
       (JObj [(''sandbox_id'', JStr sandbox_id), (''checks'', checks), (''observed_at'', JStr now)])"

definition build_heartbeat_payload :: "spider \<Rightarrow> string \<Rightarrow> queue \<Rightarrow> int \<Rightarrow> string \<Rightarrow> json" where
  "build_heartbeat_payload sp role q uptime_seconds health_state =
     JObj [(''agent_id'', JStr (sp_agent_id sp)), (''role'', JStr role), (''build_hash'', JStr (sp_build_hash sp)),
           (''version'', JStr ''0.1.0''), (''certificate_serial'', JStr (sp_certificate_serial sp)),
           (''uptime_seconds'', JInt uptime_seconds), (''health_state'', JStr health_state),
           (''queue_depth'', JInt (pending_count q))]"

section \<open>Interface: a queue drained from the front\<close>

text \<open>
  What the flush loops need of the queue: its pending entries in order, each
  with its own id, and operations that settle one entry.
\<close>

locale drained_queue =
  fixes pend :: "'q \<Rightarrow> ('i \<times> 'b) list"
    and inv :: "'q \<Rightarrow> bool"
    and settle :: "'i \<Rightarrow> 'q \<Rightarrow> 'q"
  assumes pend_distinct: "inv q \<Longrightarrow> distinct (map fst (pend q))"
    and inv_settle: "inv q \<Longrightarrow> inv (settle i q)"
    and pend_settle: "inv q \<Longrightarrow> pend (settle i q) = filter (\<lambda>x. fst x \<noteq> i) (pend q)"
begin

lemma settle_head:
  assumes "inv q" and "pend q = (i, b) # rest"
  shows "pend (settle i q) = rest"
proof -
  from pend_distinct [OF assms(1)] assms(2) have "i \<notin> fst ` set rest" by simp
  then have "filter (\<lambda>x. fst x \<noteq> i) rest = rest" by (intro filter_True) auto
  with assms pend_settle [OF assms(1), of i] show ?thesis by simp
qed

lemma settle_prefix:
  "inv q \<Longrightarrow> n \<le> length (pend q) \<Longrightarrow> pend (fold settle (map fst (take n (pend q))) q) = drop n (pend q)"
proof (induction n arbitrary: q)
  case (Suc n)
  then obtain i b rest where p: "pend q = (i, b) # rest" by (cases "pend q") auto
  from settle_head [OF Suc.prems(1) p] have "pend (settle i q) = rest" .
  with Suc.IH [of "settle i q"] Suc.prems p show ?case by (simp add: inv_settle)
qed simp

end

definition pend :: "queue \<Rightarrow> (int \<times> string) list" where
  "pend q = map (\<lambda>r. (qr_id r, qr_blob r)) (filter is_pending (q_rows q))"

lemma pend_update_out:
  assumes "\<And>r. \<not> is_pending (f r)"
  shows "map (\<lambda>r. (qr_id r, qr_blob r)) (filter is_pending (update_where (\<lambda>r. qr_id r \<in> A) f rows)) =
     filter (\<lambda>x. fst x \<notin> A) (map (\<lambda>r. (qr_id r, qr_blob r)) (filter is_pending rows))"
  using assms by (induction rows) (auto simp: update_where_def)

lemma pend_ack: "pend (ack ids q) = filter (\<lambda>x. fst x \<notin> set ids) (pend q)"
  unfolding pend_def ack_def update_rows_def by (simp add: pend_update_out is_pending_def)

lemma pend_dead_letter: "pend (dead_letter ids err q) = filter (\<lambda>x. fst x \<notin> set ids) (pend q)"
  unfolding pend_def dead_letter_def update_rows_def
  by (simp add: pend_update_out is_pending_def split: option.splits)

lemma pend_record: "pend (snd (record_attempt_failure i msg q)) = pend q"
proof -
  have "map (\<lambda>r. (qr_id r, qr_blob r)) (filter is_pending (update_where P (\<lambda>r. r\<lparr>qr_attempts := qr_attempts r + 1, qr_last_error := e\<rparr>) rows))
      = map (\<lambda>r. (qr_id r, qr_blob r)) (filter is_pending rows)" for P e rows
    by (induction rows) (auto simp: update_where_def is_pending_def)
  then show ?thesis
    by (simp add: record_attempt_failure_def Let_def pend_def update_rows_def split: option.splits)
qed

lemma pend_enqueue:
  "enqueue cy ev t q = (Inr i, q') \<Longrightarrow> pend q' = pend q @ [(i, seal cy ev)]"
  by (auto simp: enqueue_def pend_def Let_def is_pending_def split: if_splits)

lemma queue_ids_distinct: "queue_inv q \<Longrightarrow> distinct (map fst (pend q))"
proof -
  assume "queue_inv q"
  then have "distinct (map qr_id (q_rows q))"
    by (auto simp: queue_inv_def strict_sorted_iff)
  then show ?thesis by (simp add: pend_def comp_def distinct_map_filter)
qed

interpretation acked: drained_queue pend queue_inv "\<lambda>i. ack [i]"
  by unfold_locales (auto simp: queue_ids_distinct pend_ack)

interpretation dead: drained_queue pend queue_inv "\<lambda>i. dead_letter [i] err" for err
  by unfold_locales (auto simp: queue_ids_distinct pend_dead_letter)

lemma peek_batch_pend:
  assumes "queue_inv q"
  shows "peek_batch cy limit q =
    (case those (map (\<lambda>(i, b). map_option (Pair i) (unseal cy b)) (sql_limit limit (pend q))) of
       None \<Rightarrow> Inl InvalidToken | Some batch \<Rightarrow> Inr batch)"
proof -
  have "map (open_row cy) (sql_limit limit (pending_rows q)) =
      map (\<lambda>(i, b). map_option (Pair i) (unseal cy b)) (sql_limit limit (pend q))"
    by (simp add: sorted_pending [OF assms] pend_def sql_limit_def take_map comp_def open_row_def)
  then show ?thesis by (simp add: peek_batch_def)
qed

section \<open>What a flush does\<close>

text \<open>A transport that keeps a log of the events it was given and of its answers.\<close>

definition logged ::
  "(json \<Rightarrow> 'w \<Rightarrow> 'r \<times> 'w) \<Rightarrow> json \<Rightarrow> (json \<times> 'r) list \<times> 'w \<Rightarrow> 'r \<times> (json \<times> 'r) list \<times> 'w" where
  "logged send ev lw = (let (r, w') = send ev (snd lw) in (r, (fst lw @ [(ev, r)], w')))"

text \<open>The answers after which an entry leaves the queue: delivered, or rejected for good.\<close>

definition settled :: "submit_result \<Rightarrow> bool" where
  "settled r = (case r of Delivered _ \<Rightarrow> True | TelemetrySubmitFailed st _ \<Rightarrow> st \<in> PERMANENT_REJECTION_STATUS_CODES
                        | _ \<Rightarrow> False)"

definition opens :: "cipher \<Rightarrow> (int \<times> json) list \<Rightarrow> (int \<times> string) list \<Rightarrow> bool" where
  "opens cy batch entries \<longleftrightarrow>
     list_all2 (\<lambda>x y. fst x = fst y \<and> unseal cy (snd y) = Some (snd x)) batch (take (length batch) entries)"

lemma opens_Cons:
  assumes "opens cy ((i, ev) # rest) entries"
  obtains b es where "entries = (i, b) # es" "unseal cy b = Some ev" "opens cy rest es"
  using assms by (cases entries) (auto simp: opens_def)

lemma spider_batch_flush:
  assumes "spider_batch (logged send) batch b (l, w) = (exc, b', (l', w'))"
    and "queue_inv (bs_queue b)" and "opens cy batch (pend (bs_queue b))"
  shows "\<exists>n new. n \<le> length batch \<and> l' = l @ new \<and> pend (bs_queue b') = drop n (pend (bs_queue b)) \<and>
     map fst (filter (settled \<circ> snd) new) = map snd (take n batch) \<and>
     (bs_progressed b' \<longleftrightarrow> bs_progressed b \<or> 0 < n) \<and> queue_inv (bs_queue b') \<and>
     (list_all (settled \<circ> snd) new \<longrightarrow> exc = None \<and> n = length batch)"
  using assms
proof (induction batch arbitrary: b l w)
  case Nil
  then show ?case by auto
next
  case (Cons x batch)
  obtain i ev where x: "x = (i, ev)" by (cases x)
  obtain r w1 where s: "send ev w = (r, w1)" by (cases "send ev w")
  have ls: "logged send ev (l, w) = (r, (l @ [(ev, r)], w1))" by (simp add: logged_def s)
  obtain bl es where p: "pend (bs_queue b) = (i, bl) # es" and o: "opens cy batch es"
    using opens_Cons [OF Cons.prems(3) [unfolded x]] by metis
  show ?case
  proof (cases "settled r")
    case True
    have "\<exists>b1. spider_batch (logged send) batch b1 (l @ [(ev, r)], w1) = (exc, b', (l', w')) \<and>
      bs_progressed b1 \<and> queue_inv (bs_queue b1) \<and> pend (bs_queue b1) = es"
    proof (cases r)
      case (Delivered j)
      then show ?thesis using Cons.prems(1,2) x ls acked.settle_head [OF Cons.prems(2) p]
        by (intro exI [of _ "b\<lparr>bs_sent := bs_sent b + 1, bs_progressed := True, bs_queue := ack [i] (bs_queue b)\<rparr>"]) auto
    next
      case (TelemetrySubmitFailed st t)
      then show ?thesis using True Cons.prems(1,2) x ls dead.settle_head [OF Cons.prems(2) p]
        by (intro exI [of _ "b\<lparr>bs_progressed := True, bs_queue := dead_letter [i] (Some (submit_failed_text st t)) (bs_queue b)\<rparr>"])
          (auto simp: settled_def Let_def)
    qed (use True in \<open>auto simp: settled_def\<close>)
    then obtain b1 where run: "spider_batch (logged send) batch b1 (l @ [(ev, r)], w1) = (exc, b', (l', w'))"
      and b1: "bs_progressed b1" "queue_inv (bs_queue b1)" "pend (bs_queue b1) = es" by blast
    have o1: "opens cy batch (pend (bs_queue b1))" using o b1(3) by simp
    obtain n new where
      "n \<le> length batch" "l' = (l @ [(ev, r)]) @ new" "pend (bs_queue b') = drop n es"
      "map fst (filter (settled \<circ> snd) new) = map snd (take n batch)" "bs_progressed b'" "queue_inv (bs_queue b')"
      "list_all (settled \<circ> snd) new \<longrightarrow> exc = None \<and> n = length batch"
      using Cons.IH [OF run b1(2) o1] b1(1) unfolding b1(3) by blast
    then show ?thesis using True p x by (intro exI [of _ "Suc n"] exI [of _ "(ev, r) # new"]) (simp add: comp_def)
  next
    case False
    with Cons.prems(1,2) x ls have "l' = l @ [(ev, r)]" "pend (bs_queue b') = pend (bs_queue b)"
      "bs_progressed b' = bs_progressed b" "queue_inv (bs_queue b')"
      by (auto simp: settled_def Let_def pend_record split: submit_result.splits if_splits)
    then show ?thesis using False by (intro exI [of _ 0] exI [of _ "[(ev, r)]"]) simp
  qed
qed

definition readable :: "cipher \<Rightarrow> queue \<Rightarrow> bool" where
  "readable cy q \<longleftrightarrow> (\<forall>x \<in> set (pend q). unseal cy (snd x) \<noteq> None)"

definition event_of :: "cipher \<Rightarrow> int \<times> string \<Rightarrow> json" where
  "event_of cy x = (case unseal cy (snd x) of Some ev \<Rightarrow> ev | None \<Rightarrow> JNull)"

lemma those_map_Some: "\<forall>x \<in> set xs. f x = Some (g x) \<Longrightarrow> those (map f xs) = Some (map g xs)"
  by (induction xs) auto

lemma peek_readable:
  assumes "queue_inv q" and "readable cy q"
  shows "peek_batch cy limit q = Inr (map (\<lambda>x. (fst x, event_of cy x)) (sql_limit limit (pend q)))"
proof -
  have sub: "set (sql_limit limit (pend q)) \<subseteq> set (pend q)" by (auto simp: sql_limit_def dest: in_set_takeD)
  have "(case x of (i, b) \<Rightarrow> map_option (Pair i) (unseal cy b)) = Some (fst x, event_of cy x)"
    if "x \<in> set (sql_limit limit (pend q))" for x
  proof -
    have "unseal cy (snd x) \<noteq> None" using that sub assms(2) unfolding readable_def by blast
    then show ?thesis by (cases x) (auto simp: event_of_def)
  qed
  then show ?thesis
    unfolding peek_batch_pend [OF assms(1)]
    by (subst those_map_Some [where g = "\<lambda>x. (fst x, event_of cy x)"]) auto
qed

lemma opens_peek:
  assumes "readable cy q"
  shows "opens cy (map (\<lambda>x. (fst x, event_of cy x)) (sql_limit limit (pend q))) (pend q)"
proof -
  have "list_all2 (\<lambda>x y. fst x = fst y \<and> unseal cy (snd y) = Some (snd x))
      (map (\<lambda>x. (fst x, event_of cy x)) xs) xs" if "set xs \<subseteq> set (pend q)" for xs
    using that assms
    by (induction xs) (auto simp: readable_def event_of_def split: option.splits)
  moreover have "take (length (sql_limit limit (pend q))) (pend q) = sql_limit limit (pend q)"
    by (simp add: sql_limit_def min_def)
  moreover have "set (sql_limit limit (pend q)) \<subseteq> set (pend q)" by (auto simp: sql_limit_def dest: in_set_takeD)
  ultimately show ?thesis by (simp add: opens_def)
qed

lemma readable_drop: "pend q' = drop n (pend q) \<Longrightarrow> readable cy q \<Longrightarrow> readable cy q'"
  by (auto simp: readable_def dest: in_set_dropD)

lemma take_take_drop: "n \<le> length xs \<Longrightarrow> take n xs @ take m (drop n xs) = take (n + m) xs"
  by (simp add: take_add)

lemma spider_flush_order:
  assumes "spider_flush cy (logged send) limit sent0 q (l, w) = (res, q', (l', w'))"
    and "queue_inv q" and "readable cy q"
  shows "\<exists>n new. l' = l @ new \<and> n \<le> length (pend q) \<and> pend q' = drop n (pend q) \<and> queue_inv q' \<and>
     map fst (filter (settled \<circ> snd) new) = map (event_of cy) (take n (pend q)) \<and>
     (limit \<noteq> 0 \<and> list_all (settled \<circ> snd) new \<longrightarrow> is_ok res \<and> pend q' = [])"
  using assms
proof (induction cy "logged send" limit sent0 q "(l, w)" arbitrary: l w rule: spider_flush.induct)
  case (1 cy limit sent0 q l w)
  let ?batch = "map (\<lambda>x. (fst x, event_of cy x)) (sql_limit limit (pend q))"
  have peek: "peek_batch cy limit q = Inr ?batch" by (rule peek_readable [OF 1(3,4)])
  have evs: "map snd (take n ?batch) = map (event_of cy) (take n (pend q))" if "n \<le> length ?batch" for n
    using that by (auto simp: sql_limit_def take_map comp_def min_def split: if_splits)
  have lenb: "length ?batch \<le> length (pend q)" by (simp add: sql_limit_def)
  show ?case
  proof (cases "?batch = []")
    case True
    then have "limit \<noteq> 0 \<longrightarrow> pend q = []" by (auto simp: sql_limit_def split: if_splits)
    with 1(2-4) peek True show ?thesis
      by (intro exI [of _ 0] exI [of _ "[]"]) (auto simp: spider_flush.simps [of cy _ limit])
  next
    case False
    obtain exc b l1 w1 where run:
      "spider_batch (logged send) ?batch \<lparr>bs_sent = sent0, bs_progressed = False, bs_queue = q\<rparr> (l, w) = (exc, b, (l1, w1))"
      by (cases "spider_batch (logged send) ?batch \<lparr>bs_sent = sent0, bs_progressed = False, bs_queue = q\<rparr> (l, w)") auto
    from spider_batch_flush [OF run, of cy] 1(3,4) obtain n new where n: "n \<le> length ?batch" "l1 = l @ new"
      "pend (bs_queue b) = drop n (pend q)" "map fst (filter (settled \<circ> snd) new) = map snd (take n ?batch)"
      "bs_progressed b \<longleftrightarrow> 0 < n" "queue_inv (bs_queue b)"
      "list_all (settled \<circ> snd) new \<longrightarrow> exc = None \<and> n = length ?batch"
      using opens_peek [of cy q limit] by auto
    show ?thesis
    proof (cases "exc = None \<and> 0 < n")
      case True
      then have prog: "exc = None" "bs_progressed b" using n(5) by auto
      from 1(2) peek False run prog have rest:
        "spider_flush cy (logged send) limit (bs_sent b) (bs_queue b) (l1, w1) = (res, q', (l', w'))"
        by (simp add: spider_flush.simps [of cy _ limit sent0])
      from 1(1) [OF peek False run [unfolded prog(1), symmetric] HOL.refl HOL.refl prog(2) rest n(6) readable_drop [OF n(3) 1(4)]]
      obtain m more where m: "l' = l1 @ more" "m \<le> length (pend (bs_queue b))"
        "pend q' = drop m (pend (bs_queue b))" "queue_inv q'"
        "map fst (filter (settled \<circ> snd) more) = map (event_of cy) (take m (pend (bs_queue b)))"
        "limit \<noteq> 0 \<and> list_all (settled \<circ> snd) more \<longrightarrow> is_ok res \<and> pend q' = []" by blast
      have A: "map fst (filter (settled \<circ> snd) new) = map (event_of cy) (take n (pend q))"
        using n(4) evs [OF n(1)] by simp
      have B: "map fst (filter (settled \<circ> snd) more) = map (event_of cy) (take m (drop n (pend q)))"
        using m(5) n(3) by simp
      have "map fst (filter (settled \<circ> snd) (new @ more)) = map (event_of cy) (take (n + m) (pend q))"
        by (simp only: filter_append map_append A B take_add)
      with n m lenb show ?thesis
        by (intro exI [of _ "n + m"] exI [of _ "new @ more"]) (auto simp: add.commute)
    next
      case stop: False
      then have "(res, q', (l', w')) = ((case exc of None \<Rightarrow> Inr (bs_sent b) | Some err \<Rightarrow> Inl (FlushTransport err)),
          bs_queue b, (l1, w1))"
        using 1(2) peek False run n(5)
        by (auto simp: spider_flush.simps [of cy _ limit sent0] split: option.splits)
      moreover have "\<not> list_all (settled \<circ> snd) new" using n(7) stop False by auto
      ultimately show ?thesis using n evs [OF n(1)] lenb
        by (intro exI [of _ n] exI [of _ new]) auto
    qed
  qed
qed

section \<open>Properties\<close>

text \<open>C16. A flush drains the queue from the front and loses nothing: the entries it settled are exactly a prefix of
  the pending ones, in queue order, each handed to the transport and answered as delivered or as rejected for good;
  everything behind stays pending in order. If every answer settles its entry the flush returns normally with an empty
  queue. The loop always ends.\<close>

theorem spider_flush_in_order:
  assumes "flush_queue_spider cy (logged send) batch_size q ([], w) = (res, q', (calls, w'))"
    and "queue_inv q" and "readable cy q"
  shows "\<exists>n \<le> length (pend q). pend q' = drop n (pend q) \<and> queue_inv q' \<and>
     map fst (filter (settled \<circ> snd) calls) = map (event_of cy) (take n (pend q)) \<and>
     (batch_size \<noteq> 0 \<and> list_all (settled \<circ> snd) calls \<longrightarrow> is_ok res \<and> pend q' = [])"
proof -
  obtain n new where "calls = [] @ new" "n \<le> length (pend q)" "pend q' = drop n (pend q)" "queue_inv q'"
    "map fst (filter (settled \<circ> snd) new) = map (event_of cy) (take n (pend q))"
    "batch_size \<noteq> 0 \<and> list_all (settled \<circ> snd) new \<longrightarrow> is_ok res \<and> pend q' = []"
    using spider_flush_order [OF assms(1) [unfolded flush_queue_spider_def] assms(2,3)] by blast
  then show ?thesis by auto
qed

definition sample_cipher :: cipher where
  "sample_cipher = \<lparr>seal = (\<lambda>_. ''blob''), unseal = (\<lambda>_. Some (JObj [(''event_id'', JStr ''e'')]))\<rparr>"

definition sample_queue :: queue where
  "sample_queue = snd (enqueue sample_cipher (JObj [(''event_id'', JStr ''e'')]) ''t'' empty_queue)"

lemma sample_event: "event_of sample_cipher x = JObj [(''event_id'', JStr ''e'')]"
  by (simp add: event_of_def sample_cipher_def)

lemma sample_queue_facts:
  "queue_inv sample_queue" "pend sample_queue = [(1, ''blob'')]" "readable sample_cipher sample_queue"
  by (simp_all add: sample_queue_def enqueue_def empty_queue_def pending_count_def DEFAULT_MAX_QUEUE_SIZE_def
      queue_inv_def pend_def is_pending_def readable_def sample_cipher_def Let_def)

theorem spider_flush_in_order_witness:
  "\<exists>res q' calls. flush_queue_spider sample_cipher (logged (\<lambda>ev w. (Delivered ev, w))) 100 sample_queue ([], ()) =
     (res, q', (calls, ())) \<and> pend q' = [] \<and> is_ok res"
proof -
  let ?send = "\<lambda>ev w. (Delivered ev, w :: unit)"
  obtain res q' calls where run: "flush_queue_spider sample_cipher (logged ?send) 100 sample_queue ([], ()) = (res, q', (calls, ()))"
    by (cases "flush_queue_spider sample_cipher (logged ?send) 100 sample_queue ([], ())") auto
  have one: "pend (ack [1] sample_queue) = []" "queue_inv (ack [1] sample_queue)"
    using sample_queue_facts by (auto simp: pend_ack)
  then have "readable sample_cipher (ack [1] sample_queue)" by (simp add: readable_def)
  with one have "peek_batch sample_cipher 100 (ack [1] sample_queue) = Inr []"
    by (simp add: peek_readable sql_limit_def)
  moreover have "peek_batch sample_cipher 100 sample_queue = Inr [(1, JObj [(''event_id'', JStr ''e'')])]"
    by (simp add: peek_readable sample_queue_facts sql_limit_def sample_event)
  ultimately have "list_all (settled \<circ> snd) calls"
    using run by (auto simp: flush_queue_spider_def spider_flush.simps [of sample_cipher] logged_def settled_def)
  with spider_flush_in_order [OF run sample_queue_facts(1,3)] have "pend q' = []" "is_ok res" by auto
  with run show ?thesis by blast
qed

text \<open>What goes in comes out: an event that fits the capacity is appended behind the pending ones and read back
  unchanged through the cipher; a full queue refuses it and stays as it is, so that undelivered events never exceed the
  capacity.\<close>

theorem enqueue_then_peek:
  assumes "queue_inv q" and "readable cy q" and "unseal cy (seal cy ev) = Some ev"
    and "pending_count q \<le> q_max_queue_size q"
  shows "if pending_count q < q_max_queue_size q
     then \<exists>i q'. enqueue cy ev t q = (Inr i, q') \<and> pending_count q' = pending_count q + 1 \<and>
       pending_count q' \<le> q_max_queue_size q' \<and>
       peek_batch cy (pending_count q') q' = Inr (map (\<lambda>x. (fst x, event_of cy x)) (pend q) @ [(i, ev)])
     else enqueue cy ev t q = (Inl (QueueCapacityExceeded (q_max_queue_size q)), q)"
proof (cases "pending_count q < q_max_queue_size q")
  case True
  then obtain i q' where run: "enqueue cy ev t q = (Inr i, q')" by (auto simp: enqueue_def Let_def)
  from pend_enqueue [OF run] have p: "pend q' = pend q @ [(i, seal cy ev)]" .
  have count: "pending_count x = int (length (pend x))" for x by (simp add: pending_count_def pend_def)
  have "readable cy q'" using assms(2,3) by (auto simp: readable_def p)
  then have "peek_batch cy (pending_count q') q' = Inr (map (\<lambda>x. (fst x, event_of cy x)) (pend q'))"
    using peek_readable [OF queue_inv_enqueue [OF assms(1) run]] by (simp add: sql_limit_def count)
  moreover have "q_max_queue_size q' = q_max_queue_size q" using run by (auto simp: enqueue_def Let_def split: if_splits)
  ultimately show ?thesis using True run assms(3) by (simp add: count p event_of_def)
qed (simp add: enqueue_def)

theorem enqueue_then_peek_witness:
  "\<exists>i q'. enqueue sample_cipher (JObj [(''event_id'', JStr ''e'')]) ''t'' sample_queue = (Inr i, q') \<and>
     peek_batch sample_cipher 2 q' = Inr [(1, JObj [(''event_id'', JStr ''e'')]), (i, JObj [(''event_id'', JStr ''e'')])]"
proof -
  have "pending_count sample_queue = 1" "q_max_queue_size sample_queue = 100000"
    by (simp_all add: sample_queue_def enqueue_def empty_queue_def pending_count_def DEFAULT_MAX_QUEUE_SIZE_def
        is_pending_def Let_def)
  with enqueue_then_peek [OF sample_queue_facts(1,3), of "JObj [(''event_id'', JStr ''e'')]" "''t''"]
  show ?thesis by (auto simp: sample_queue_facts(2) event_of_def sample_cipher_def)
qed

text \<open>An event is acknowledged locally only when the server answered 202 and named that event: any other answer
  leaves the entry pending (or dead-letters it on a 400).\<close>

lemma delivered_iff_acknowledged:
  "(\<exists>body. check_acknowledgement fl event resp = Delivered body) \<longleftrightarrow>
     rp_status resp = 202 \<and> py_eq (py_get (rp_body resp) ''event_id'') (py_get event ''event_id'')"
  by (simp add: check_acknowledgement_def)

end
