(* ===== verification/Mirage_Ingestion.thy ===== *)
theory Mirage_Ingestion
  imports Mirage_Store Mirage_Agent
begin

text \<open>
  \<^verbatim>\<open>services/mirage-agent-ingestion/mirage_agent_ingestion/app.py\<close>: the server side of
  telemetry delivery (heartbeat and submit handlers), \<^verbatim>\<open>mtls_auth.py\<close> and
  \<^verbatim>\<open>is_agent_active\<close>. The theory proves that receipts make delivery idempotent and
  ordered per agent, and composes the server with the agent's queue.

  The broker is the list of messages it was given; \<open>broker_up\<close> says whether the
  publish of this request succeeds.
\<close>

section \<open>State\<close>

record receipt =
  re_agent_id :: string
  re_sequence :: int
  re_event_id :: string

record ingest =
  in_agents :: "agent_row list"
  in_receipts :: "receipt list"
  in_snapshots :: "(string \<times> json) list"
  in_stream :: "(string \<times> json \<times> string) list"

definition ALLOWED_TELEMETRY_EVENT_TYPES :: "string list" where
  "ALLOWED_TELEMETRY_EVENT_TYPES = [''spider.observation'', ''spider.tamper'', ''spider.fingerprint_snapshot'']"

section \<open>Authentication\<close>

definition require_client_certificate_serial ::
  "string option \<Rightarrow> string option \<Rightarrow> string \<Rightarrow> api_error + string" where
  "require_client_certificate_serial proxy_auth client_serial expected =
     (if (case proxy_auth of None \<Rightarrow> True | Some p \<Rightarrow> p = [] \<or> p \<noteq> expected)
      then Inl (HTTPException 401 ''missing or invalid proxy authentication'')
      else case client_serial of
        None \<Rightarrow> Inl (HTTPException 401 ''missing client certificate serial'')
      | Some s \<Rightarrow> if s = [] then Inl (HTTPException 401 ''missing client certificate serial'') else Inr s)"

definition is_agent_active :: "agent_row list \<Rightarrow> string \<Rightarrow> bool" where
  "is_agent_active agents serial =
     (case lookup_by ag_certificate_serial agents serial of None \<Rightarrow> False | Some a \<Rightarrow> ag_status a = ''ACTIVE'')"

definition admit :: "agent_row list \<Rightarrow> string \<Rightarrow> string \<Rightarrow> api_error + agent_row" where
  "admit agents aid serial =
     (case lookup_by ag_agent_id agents aid of
        None \<Rightarrow> Inl (HTTPException 404 ''unknown agent'')
      | Some a \<Rightarrow>
          if ag_certificate_serial a \<noteq> serial then Inl (HTTPException 403 ''certificate/agent mismatch'')
          else if ag_status a \<noteq> ''ACTIVE'' \<or> \<not> is_agent_active agents serial
            then Inl (HTTPException 403 ''agent is revoked'')
          else Inr a)"

definition touch_agent :: "timestamp \<Rightarrow> string \<Rightarrow> (int \<Rightarrow> int) \<Rightarrow> ingest \<Rightarrow> ingest" where
  "touch_agent now aid f s =
     s\<lparr>in_agents := update_where (\<lambda>a. ag_agent_id a = aid)
        (\<lambda>a. a\<lparr>ag_last_seen_at := Some now, ag_last_sequence := f (ag_last_sequence a)\<rparr>) (in_agents s)\<rparr>"

section \<open>The handlers\<close>

definition heartbeat :: "env \<Rightarrow> string \<Rightarrow> string \<Rightarrow> ingest \<Rightarrow> (api_error + string) \<times> ingest" where
  "heartbeat e aid serial s =
     (case admit (in_agents s) aid serial of
        Inl err \<Rightarrow> (Inl err, s)
      | Inr _ \<Rightarrow> (Inr (env_now_text e), touch_agent (env_now e) aid (\<lambda>n. max n 0) s))"

datatype ack_body = Accepted string int bool

definition body_event_type :: "runtime \<Rightarrow> json \<Rightarrow> api_error + string" where
  "body_event_type rt body =
     (case py_get body ''event_type'' of
        JArr _ \<Rightarrow> Inl (Unhandled (Contract (TypeError ''unhashable type'')))
      | JObj _ \<Rightarrow> Inl (Unhandled (Contract (TypeError ''unhashable type'')))
      | j \<Rightarrow>
          (case j of
             JStr ty \<Rightarrow> if ty \<in> set ALLOWED_TELEMETRY_EVENT_TYPES then Inr ty
                        else Inl (HTTPException 400 (''event_type '' @ py_repr ty @ '' is not submittable via this endpoint''))
           | _ \<Rightarrow> Inl (HTTPException 400 (''event_type '' @ py_repr_json (rt_float rt) j @
                     '' is not submittable via this endpoint''))))"

definition body_sequence :: "runtime \<Rightarrow> json \<Rightarrow> api_error + int" where
  "body_sequence rt body =
     (case py_get body ''sequence'' of
        JInt i \<Rightarrow> Inr i
      | JBool _ \<Rightarrow> Inl (Unhandled (Db (DatabaseError ''bigint = boolean'')))
      | j \<Rightarrow> Inl (HTTPException 400 (''sequence '' @ py_repr_json (rt_float rt) j @ '' must be an integer'')))"

definition contract_status :: "contract_error \<Rightarrow> api_error" where
  "contract_status err = (case error_code err of
      None \<Rightarrow> Unhandled (Contract err) | Some code \<Rightarrow> HTTPException 400 code)"

definition insert_receipt :: "receipt \<Rightarrow> ingest \<Rightarrow> api_error + ingest" where
  "insert_receipt r s =
     (if list_ex (\<lambda>q. re_agent_id q = re_agent_id r \<and> (re_sequence q = re_sequence r \<or> re_event_id q = re_event_id r))
           (in_receipts s)
      then Inl (Unhandled (Db (UniqueViolation ''agent_telemetry_receipts'')))
      else Inr (s\<lparr>in_receipts := in_receipts s @ [r]\<rparr>))"

definition upsert_snapshot :: "json \<Rightarrow> ingest \<Rightarrow> api_error + ingest" where
  "upsert_snapshot event s =
     (case sbind (py_item event ''payload'') (\<lambda>payload.
             sbind (py_str_item payload ''sandbox_id'') (\<lambda>sid.
             sbind (py_item payload ''checks'') (\<lambda>checks.
             sbind (py_item payload ''observed_at'') (\<lambda>_. Inr (sid, checks))))) of
        Inl err \<Rightarrow> Inl (Unhandled (Contract err))
      | Inr (sid, checks) \<Rightarrow> Inr (s\<lparr>in_snapshots := AList.update sid checks (in_snapshots s)\<rparr>))"

definition with_ingest_time :: "string \<Rightarrow> json \<Rightarrow> json" where
  "with_ingest_time now body = (case body of
      JObj kvs \<Rightarrow> JObj (AList.update ''ingest_time'' (JStr now) kvs) | j \<Rightarrow> j)"

text \<open>The writes after the publish; an exception here rolls the database back, not the broker.\<close>

definition record_accepted :: "env \<Rightarrow> string \<Rightarrow> string \<Rightarrow> int \<Rightarrow> string \<Rightarrow> json \<Rightarrow> ingest \<Rightarrow> api_error + ingest" where
  "record_accepted e aid ty sequence eid event s =
     sbind (if ty = ''spider.fingerprint_snapshot'' then upsert_snapshot event s else Inr s) (\<lambda>s1.
     sbind (insert_receipt \<lparr>re_agent_id = aid, re_sequence = sequence, re_event_id = eid\<rparr> s1) (\<lambda>s2.
       Inr (touch_agent (env_now e) aid (\<lambda>_. sequence) s2)))"

definition accept_event :: "env \<Rightarrow> bool \<Rightarrow> string \<Rightarrow> string \<Rightarrow> int \<Rightarrow> json \<Rightarrow> ingest \<Rightarrow> (api_error + ack_body) \<times> ingest" where
  "accept_event e broker_up aid ty sequence body s =
     (let event = with_ingest_time (env_now_text e) body in
      case validate_event (env_rt e) (env_reg e) None event of
        Inl err \<Rightarrow> (Inl (contract_status err), s)
      | Inr v \<Rightarrow>
          (case subject_for_event_type ty of
             Inl err \<Rightarrow> (Inl (Unhandled (Contract err)), s)
           | Inr topic \<Rightarrow>
               (case py_str_item event ''event_id'' of
                  Inl err \<Rightarrow> (Inl (Unhandled (Contract err)), s)
                | Inr eid \<Rightarrow>
                    if \<not> broker_up then (Inl (Unhandled (Db (DatabaseError ''publish failed''))), s)
                    else let s1 = s\<lparr>in_stream := in_stream s @ [(topic, ve_envelope v, eid)]\<rparr> in
                      (case record_accepted e aid ty sequence eid event s1 of
                         Inl err \<Rightarrow> (Inl err, s1)
                       | Inr s2 \<Rightarrow> (Inr (Accepted eid sequence False), s2)))))"

definition receipt_of :: "ingest \<Rightarrow> string \<Rightarrow> int \<Rightarrow> string option" where
  "receipt_of s aid sequence =
     map_option re_event_id (find (\<lambda>r. re_agent_id r = aid \<and> re_sequence r = sequence) (in_receipts s))"

definition submit_telemetry ::
  "env \<Rightarrow> bool \<Rightarrow> string \<Rightarrow> string \<Rightarrow> json \<Rightarrow> ingest \<Rightarrow> (api_error + ack_body) \<times> ingest" where
  "submit_telemetry e broker_up aid serial body s =
     (case admit (in_agents s) aid serial of
        Inl err \<Rightarrow> (Inl err, s)
      | Inr agent \<Rightarrow>
          (case body_event_type (env_rt e) body of
             Inl err \<Rightarrow> (Inl err, s)
           | Inr ty \<Rightarrow>
               if py_get body ''source_id'' \<noteq> JStr aid
               then (Inl (HTTPException 403 ''source_id does not match the authenticated agent''), s)
               else (case body_sequence (env_rt e) body of
                  Inl err \<Rightarrow> (Inl err, s)
                | Inr sequence \<Rightarrow>
                    (case receipt_of s aid sequence of
                       Some rid \<Rightarrow>
                         if py_get body ''event_id'' = JStr rid then (Inr (Accepted rid sequence True), s)
                         else (Inl (HTTPException 409 (''sequence '' @ show_int sequence @
                                  '' was already used by a different event'')), s)
                     | None \<Rightarrow>
                         if sequence \<le> ag_last_sequence agent
                         then (Inl (HTTPException 409 (''sequence '' @ show_int sequence @
                                  '' is not greater than last recorded sequence '' @ show_int (ag_last_sequence agent))), s)
                         else accept_event e broker_up aid ty sequence body s))))"

definition http_status :: "api_error + ack_body \<Rightarrow> nat" where
  "http_status r = (case r of Inr _ \<Rightarrow> 202 | Inl (HTTPException st _) \<Rightarrow> st | Inl (Unhandled _) \<Rightarrow> 500)"

definition response_of :: "api_error + ack_body \<Rightarrow> response" where
  "response_of r =
     (case r of
        Inr (Accepted eid sequence replay) \<Rightarrow>
          \<lparr>rp_status = 202, rp_text = [],
           rp_body = JObj [(''status'', JStr ''accepted''), (''event_id'', JStr eid),
                           (''sequence'', JInt sequence), (''replay'', JBool replay)]\<rparr>
      | Inl (HTTPException st text) \<Rightarrow> \<lparr>rp_status = st, rp_text = text, rp_body = JNull\<rparr>
      | Inl (Unhandled _) \<Rightarrow> \<lparr>rp_status = 500, rp_text = ''Internal Server Error'', rp_body = JNull\<rparr>)"

section \<open>Lemmas on acceptance\<close>

lemma touch_agent_simps [simp]:
  "in_receipts (touch_agent now aid f s) = in_receipts s"
  "in_stream (touch_agent now aid f s) = in_stream s"
  "in_snapshots (touch_agent now aid f s) = in_snapshots s"
  by (simp_all add: touch_agent_def)

definition last_seq :: "ingest \<Rightarrow> string \<Rightarrow> int option" where
  "last_seq s aid = map_option ag_last_sequence (lookup_by ag_agent_id (in_agents s) aid)"

lemma last_seq_touch:
  "last_seq (touch_agent now aid f s) k = (if k = aid then map_option f (last_seq s k) else last_seq s k)"
  by (cases "lookup_by ag_agent_id (in_agents s) k") (auto simp: last_seq_def touch_agent_def dest: lookup_by_key)

lemma record_accepted_ok:
  assumes "record_accepted e aid ty sequence eid event s = Inr t"
  shows "in_receipts t = in_receipts s @ [\<lparr>re_agent_id = aid, re_sequence = sequence, re_event_id = eid\<rparr>] \<and>
    in_stream t = in_stream s \<and>
    last_seq t k = (if k = aid then map_option (\<lambda>_. sequence) (last_seq s k) else last_seq s k)"
proof -
  from assms obtain s1 s2 where s1: "(if ty = ''spider.fingerprint_snapshot'' then upsert_snapshot event s else Inr s) = Inr s1"
    and ins: "insert_receipt \<lparr>re_agent_id = aid, re_sequence = sequence, re_event_id = eid\<rparr> s1 = Inr s2"
    and t: "t = touch_agent (env_now e) aid (\<lambda>_. sequence) s2"
    unfolding record_accepted_def sbind_Inr by blast
  from s1 have "in_receipts s1 = in_receipts s" "in_stream s1 = in_stream s" "in_agents s1 = in_agents s"
    by (auto simp: upsert_snapshot_def split: sum.splits if_splits)
  with ins have "in_receipts s2 = in_receipts s @ [\<lparr>re_agent_id = aid, re_sequence = sequence, re_event_id = eid\<rparr>]"
    "in_stream s2 = in_stream s" "in_agents s2 = in_agents s"
    by (auto simp: insert_receipt_def split: if_splits)
  then show ?thesis by (auto simp: t last_seq_touch) (simp_all add: last_seq_def)
qed

text \<open>The two ways a submission changes the state.\<close>

lemma accept_event_cases:
  assumes "accept_event e up aid ty sequence body s = (q, t)"
  obtains (refused) err where "q = Inl err" "in_receipts t = in_receipts s" "in_agents t = in_agents s"
  | (accepted) eid where "q = Inr (Accepted eid sequence False)"
      "py_str_item (with_ingest_time (env_now_text e) body) ''event_id'' = Inr eid"
      "in_receipts t = in_receipts s @ [\<lparr>re_agent_id = aid, re_sequence = sequence, re_event_id = eid\<rparr>]"
      "\<And>k. last_seq t k = (if k = aid then map_option (\<lambda>_. sequence) (last_seq s k) else last_seq s k)"
proof -
  have "(\<exists>err. q = Inl err \<and> in_receipts t = in_receipts s \<and> in_agents t = in_agents s) \<or>
    (\<exists>eid s1. q = Inr (Accepted eid sequence False) \<and> in_receipts s1 = in_receipts s \<and> in_agents s1 = in_agents s \<and>
      py_str_item (with_ingest_time (env_now_text e) body) ''event_id'' = Inr eid \<and>
      record_accepted e aid ty sequence eid (with_ingest_time (env_now_text e) body) s1 = Inr t)"
    using assms by (auto simp: accept_event_def Let_def split: sum.splits if_splits)
  then consider err where "q = Inl err" "in_receipts t = in_receipts s" "in_agents t = in_agents s"
    | eid s1 where "q = Inr (Accepted eid sequence False)" "in_receipts s1 = in_receipts s" "in_agents s1 = in_agents s"
      "py_str_item (with_ingest_time (env_now_text e) body) ''event_id'' = Inr eid"
      "record_accepted e aid ty sequence eid (with_ingest_time (env_now_text e) body) s1 = Inr t" by blast
  then show ?thesis
  proof cases
    case 1
    then show ?thesis by (rule refused)
  next
    case 2
    have "last_seq s1 k = last_seq s k" for k using 2(3) by (simp add: last_seq_def)
    with 2 record_accepted_ok [OF 2(5)] show ?thesis by (intro accepted) auto
  qed
qed

lemma submit_cases:
  assumes "submit_telemetry e up aid serial body s = (q, t)"
  obtains (same) "t = s" "\<And>r. q = Inr r \<Longrightarrow> \<exists>sequence rid. r = Accepted rid sequence True \<and>
      receipt_of s aid sequence = Some rid \<and> py_get body ''sequence'' = JInt sequence \<and> py_get body ''event_id'' = JStr rid"
  | (new) agent ty sequence where "accept_event e up aid ty sequence body s = (q, t)"
      "py_get body ''sequence'' = JInt sequence" "receipt_of s aid sequence = None"
      "lookup_by ag_agent_id (in_agents s) aid = Some agent" "ag_last_sequence agent < sequence"
proof (cases "t = s \<and> (\<forall>r. q = Inr r \<longrightarrow> (\<exists>sequence rid. r = Accepted rid sequence True \<and>
      receipt_of s aid sequence = Some rid \<and> py_get body ''sequence'' = JInt sequence \<and> py_get body ''event_id'' = JStr rid))")
  case True
  then show ?thesis using same by blast
next
  case False
  with assms obtain agent ty sequence where *: "admit (in_agents s) aid serial = Inr agent"
    "body_sequence (env_rt e) body = Inr sequence" "receipt_of s aid sequence = None"
    "\<not> sequence \<le> ag_last_sequence agent" "accept_event e up aid ty sequence body s = (q, t)"
    by (auto simp: submit_telemetry_def body_sequence_def split: sum.splits if_splits option.splits json.splits)
  then have "lookup_by ag_agent_id (in_agents s) aid = Some agent"
    by (auto simp: admit_def split: option.splits if_splits)
  moreover have "py_get body ''sequence'' = JInt sequence"
    using *(2) by (auto simp: body_sequence_def split: json.splits)
  ultimately show ?thesis using * by (intro new) auto
qed

section \<open>Receipts are ordered\<close>

definition ingest_inv :: "ingest \<Rightarrow> bool" where
  "ingest_inv s \<longleftrightarrow>
     sorted_wrt (\<lambda>a b. re_agent_id a = re_agent_id b \<longrightarrow> re_sequence a < re_sequence b) (in_receipts s) \<and>
     (\<forall>r \<in> set (in_receipts s). \<exists>n. last_seq s (re_agent_id r) = Some n \<and> re_sequence r \<le> n)"

inductive ingest_step :: "ingest \<Rightarrow> ingest \<Rightarrow> bool" where
  submit: "submit_telemetry e up aid serial body s = (q, t) \<Longrightarrow> ingest_step s t"
| beat: "heartbeat e aid serial s = (q', t) \<Longrightarrow> ingest_step s t"

inductive_cases ingest_stepE: "ingest_step s t"

lemma last_seq_cong: "in_agents t = in_agents s \<Longrightarrow> last_seq t k = last_seq s k"
  by (simp add: last_seq_def)

lemma heartbeat_cases:
  assumes "heartbeat e aid serial s = (q, t)"
  obtains "t = s" | "t = touch_agent (env_now e) aid (\<lambda>n. max n 0) s"
  using assms by (auto simp: heartbeat_def split: sum.splits)

lemma heartbeat_receipts: "heartbeat e aid serial s = (q, t) \<Longrightarrow> in_receipts t = in_receipts s"
  by (erule heartbeat_cases) simp_all

lemma heartbeat_last_seq:
  assumes "heartbeat e aid serial s = (q, t)" and "last_seq s k = Some n"
  shows "\<exists>m \<ge> n. last_seq t k = Some m"
  using assms(1)
proof (cases rule: heartbeat_cases)
  case 1
  with assms(2) show ?thesis by auto
next
  case 2
  with assms(2) show ?thesis by (cases "k = aid") (auto simp: last_seq_touch)
qed

lemma submit_last_seq_mono:
  assumes "submit_telemetry e up aid serial body s = (q, t)" and "last_seq s k = Some n"
  shows "\<exists>m \<ge> n. last_seq t k = Some m"
  using assms(1)
proof (cases rule: submit_cases)
  case same
  with assms(2) show ?thesis by auto
next
  case (new agent ty sequence)
  from new(1) show ?thesis
  proof (cases rule: accept_event_cases)
    case (refused err)
    with assms(2) have "last_seq t k = Some n" using last_seq_cong [OF refused(3)] by simp
    then show ?thesis by blast
  next
    case (accepted eid)
    with assms(2) new(4,5) show ?thesis by (auto simp: last_seq_def)
  qed
qed

interpretation ingest_sys: step_system ingest_step ingest_inv
proof
  fix s t assume "ingest_step s t" and inv: "ingest_inv s"
  then show "ingest_inv t"
  proof (cases rule: ingest_step.cases)
    case (submit e up aid serial body q)
    have mono: "\<exists>n. last_seq t (re_agent_id r) = Some n \<and> re_sequence r \<le> n" if "r \<in> set (in_receipts s)" for r
      using submit_last_seq_mono [OF submit] inv that unfolding ingest_inv_def by (meson order_trans)
    from submit show ?thesis
    proof (cases rule: submit_cases)
      case same
      with inv show ?thesis by simp
    next
      case (new agent ty sequence)
      from new(1) show ?thesis
      proof (cases rule: accept_event_cases)
        case (refused err)
        with inv show ?thesis by (simp add: ingest_inv_def last_seq_def)
      next
        case (accepted eid)
        have "re_sequence r < sequence" if "r \<in> set (in_receipts s)" "re_agent_id r = aid" for r
        proof -
          from inv that obtain n where "last_seq s aid = Some n" "re_sequence r \<le> n" unfolding ingest_inv_def by blast
          with new(4,5) show ?thesis by (auto simp: last_seq_def)
        qed
        moreover have "last_seq t aid = Some sequence" using accepted(4) [of aid] new(4) by (auto simp: last_seq_def)
        ultimately show ?thesis using inv mono accepted(3)
          by (auto simp: ingest_inv_def sorted_wrt_append)
      qed
    qed
  next
    case (beat e aid serial q')
    with inv heartbeat_receipts [OF beat] heartbeat_last_seq [OF beat] show ?thesis
      unfolding ingest_inv_def by (metis order_trans)
  qed
qed

section \<open>Replays\<close>

definition seen_event :: "ingest \<Rightarrow> string \<times> int \<times> string \<Rightarrow> bool" where
  "seen_event s k = (case k of (aid, sequence, eid) \<Rightarrow> receipt_of s aid sequence = Some eid)"

text \<open>A submission with this agent, sequence number and event id; \<open>kvs\<close> are the other fields of the body.\<close>

definition keyed_body :: "string \<times> int \<times> string \<Rightarrow> (string \<times> json) list \<Rightarrow> json" where
  "keyed_body k kvs = (case k of (aid, sequence, eid) \<Rightarrow>
     JObj (AList.update ''event_id'' (JStr eid) (AList.update ''sequence'' (JInt sequence) kvs)))"

definition submit_keyed ::
  "ingest \<Rightarrow> string \<times> int \<times> string \<Rightarrow> (string \<times> json) list \<Rightarrow> env \<times> bool \<times> string \<Rightarrow> (api_error + ack_body) \<times> ingest" where
  "submit_keyed s k kvs x = (case x of (e, up, serial) \<Rightarrow> submit_telemetry e up (fst k) serial (keyed_body k kvs) s)"

definition acknowledged :: "ack_body \<Rightarrow> string \<times> int" where
  "acknowledged r = (case r of Accepted eid sequence replay \<Rightarrow> (eid, sequence))"

lemma find_append: "find P (xs @ ys) = (case find P xs of None \<Rightarrow> find P ys | Some x \<Rightarrow> Some x)"
  by (induction xs) auto

lemma keyed_body_fields:
  "py_get (keyed_body (aid, n, eid) kvs) ''sequence'' = JInt n"
  "py_get (keyed_body (aid, n, eid) kvs) ''event_id'' = JStr eid"
  "py_str_item (with_ingest_time now (keyed_body (aid, n, eid) kvs)) ''event_id'' = Inr eid"
  by (simp_all add: keyed_body_def py_get_def with_ingest_time_def py_str_item_def py_item_def)

lemma receipt_of_append:
  "in_receipts t = in_receipts s @ rs \<Longrightarrow> receipt_of s aid n = Some eid \<Longrightarrow> receipt_of t aid n = Some eid"
  by (auto simp: receipt_of_def find_append)

interpretation ingests: idempotent_store seen_event submit_keyed acknowledged "\<lambda>s k kvs. (snd (snd k), fst (snd k))"
proof
  fix s k kvs x r t assume run: "submit_keyed s k kvs x = (Inr r, t)"
  obtain aid n eid where k: "k = (aid, n, eid)" by (cases k)
  obtain e up serial where x: "x = (e, up, serial)" by (cases x)
  from run k x have "submit_telemetry e up aid serial (keyed_body (aid, n, eid) kvs) s = (Inr r, t)"
    by (simp add: submit_keyed_def)
  then show "seen_event t k \<and> (snd (snd k), fst (snd k)) = acknowledged r"
  proof (cases rule: submit_cases)
    case same
    then show ?thesis by (auto simp: k seen_event_def acknowledged_def keyed_body_fields)
  next
    case (new agent ty sequence)
    from new(1) show ?thesis
    proof (cases rule: accept_event_cases)
      case (accepted eid')
      with new(2,3) show ?thesis
        by (auto simp: k seen_event_def acknowledged_def keyed_body_fields receipt_of_def find_append split: option.splits)
    qed simp
  qed
next
  fix s k kvs x q t assume seen: "seen_event s k" and run: "submit_keyed s k kvs x = (q, t)"
  obtain aid n eid where k: "k = (aid, n, eid)" by (cases k)
  obtain e up serial where x: "x = (e, up, serial)" by (cases x)
  from run k x have "submit_telemetry e up aid serial (keyed_body (aid, n, eid) kvs) s = (q, t)"
    by (simp add: submit_keyed_def)
  then show "t = s"
    using seen by (cases rule: submit_cases) (auto simp: k seen_event_def keyed_body_fields)
next
  fix s k kvs x q t k' assume run: "submit_keyed s k kvs x = (q, t)" and seen: "seen_event s k'"
  obtain e up serial where x: "x = (e, up, serial)" by (cases x)
  from run x have "submit_telemetry e up (fst k) serial (keyed_body k kvs) s = (q, t)"
    by (simp add: submit_keyed_def)
  then show "seen_event t k'"
  proof (cases rule: submit_cases)
    case same
    with seen show ?thesis by simp
  next
    case (new agent ty sequence)
    from new(1) seen show ?thesis
      by (cases rule: accept_event_cases)
        (auto simp: seen_event_def intro: receipt_of_append [where rs = "[]"] receipt_of_append)
  qed
qed

section \<open>Overtaken events\<close>

text \<open>A sequence number that has no receipt and is not above the recorded one.\<close>

definition overtaken :: "ingest \<Rightarrow> string \<Rightarrow> int \<Rightarrow> bool" where
  "overtaken s aid m \<longleftrightarrow> receipt_of s aid m = None \<and> (\<exists>n \<ge> m. last_seq s aid = Some n)"

lemma overtaken_step:
  assumes "ingest_step s t" and "overtaken s aid m"
  shows "overtaken t aid m"
proof -
  from assms(2) obtain n where o: "receipt_of s aid m = None" "m \<le> n" "last_seq s aid = Some n"
    by (auto simp: overtaken_def)
  from assms(1) show ?thesis
  proof (cases rule: ingest_step.cases)
    case (submit e up aid' serial body q)
    have "receipt_of t aid m = None"
      using submit
    proof (cases rule: submit_cases)
      case same
      with o show ?thesis by simp
    next
      case (new agent ty sequence)
      from new(1) show ?thesis
      proof (cases rule: accept_event_cases)
        case (refused err)
        with o(1) show ?thesis by (simp add: receipt_of_def)
      next
        case (accepted eid)
        with o new(4,5) show ?thesis by (auto simp: receipt_of_def find_append last_seq_def)
      qed
    qed
    moreover from submit_last_seq_mono [OF submit o(3)] o(2) have "\<exists>n \<ge> m. last_seq t aid = Some n"
      by (meson order_trans)
    ultimately show ?thesis by (simp add: overtaken_def)
  next
    case (beat e aid' serial q')
    from heartbeat_last_seq [OF beat o(3)] o(2) have "\<exists>n \<ge> m. last_seq t aid = Some n" by (meson order_trans)
    with o(1) heartbeat_receipts [OF beat] show ?thesis by (simp add: overtaken_def receipt_of_def)
  qed
qed

interpretation overtaking: step_system ingest_step "\<lambda>s. overtaken s aid m" for aid m
  by unfold_locales (rule overtaken_step)

lemma overtaken_refused:
  assumes "overtaken s aid m" and "admit (in_agents s) aid serial = Inr agent"
    and "body_event_type (env_rt e) body = Inr ty" and "py_get body ''source_id'' = JStr aid"
    and "py_get body ''sequence'' = JInt m"
  shows "\<exists>text. submit_telemetry e up aid serial body s = (Inl (HTTPException 409 text), s)"
proof -
  from assms(2) have "lookup_by ag_agent_id (in_agents s) aid = Some agent"
    by (auto simp: admit_def split: option.splits if_splits)
  with assms(1) have "receipt_of s aid m = None" "m \<le> ag_last_sequence agent"
    by (auto simp: overtaken_def last_seq_def)
  with assms show ?thesis by (simp add: submit_telemetry_def body_sequence_def)
qed

text \<open>The agent's transport when it reaches this server.\<close>

definition post_telemetry ::
  "env \<Rightarrow> bool \<Rightarrow> string \<Rightarrow> string \<Rightarrow> json \<Rightarrow> ingest \<Rightarrow> (string + response) \<times> ingest" where
  "post_telemetry e up aid serial body s =
     (case submit_telemetry e up aid serial body s of (r, s') \<Rightarrow> (Inr (response_of r), s'))"

lemma flush_blocked:
  assumes "queue_inv q" and "readable cy q" and "pend q = (i, b) # rest" and "limit \<noteq> 0"
    and "send (event_of cy (i, b)) w = (TelemetrySubmitFailed 409 text, w)"
  shows "\<exists>q'. flush_queue_spider cy send limit q w = (Inr 0, q', w) \<and> pend q' = pend q"
proof -
  obtain rest' where "sql_limit limit (pend q) = (i, b) # rest'"
    using assms(3,4) by (cases "limit < 0"; cases "nat limit") (simp_all add: sql_limit_def)
  then have "peek_batch cy limit q = Inr ((i, event_of cy (i, b)) # map (\<lambda>x. (fst x, event_of cy x)) rest')"
    using peek_readable [OF assms(1,2)] by simp
  with assms(5) show ?thesis
    by (simp add: flush_queue_spider_def spider_flush.simps [of cy] PERMANENT_REJECTION_STATUS_CODES_def Let_def pend_record)
qed

section \<open>Properties\<close>

definition sample_agent :: agent_row where
  "sample_agent = \<lparr>ag_agent_id = ''A'', ag_role = ''SPIDER'', ag_certificate_profile = ''MirageSpider'',
     ag_certificate_serial = ''7'', ag_certificate_not_after = ''t'', ag_build_hash = ''b'', ag_host_fingerprint = ''h'',
     ag_status = ''ACTIVE'', ag_revoked_at = None, ag_revoked_reason = None, ag_last_seen_at = None, ag_last_sequence = 0\<rparr>"

definition sample_ingest :: ingest where
  "sample_ingest = \<lparr>in_agents = [sample_agent], in_receipts = [], in_snapshots = [], in_stream = []\<rparr>"

definition sample_ingest_env :: env where
  "sample_ingest_env = sample_env [''spider.tamper'']"

definition sample_kvs :: "(string \<times> json) list" where
  "sample_kvs =
     [(''event_id'', JStr ''e''), (''event_type'', JStr ''spider.tamper''), (''schema_version'', JStr ''1.0''),
      (''source_id'', JStr ''A''), (''sequence'', JInt 2), (''payload'', JObj []),
      (''integrity'', JObj [(''sha256'', JStr (sha256_hex sample_runtime (JObj [])))])]"

lemma sample_keyed: "keyed_body (''A'', 2, ''e'') sample_kvs = JObj sample_kvs"
  by (simp add: keyed_body_def sample_kvs_def)

lemma sample_get:
  "py_get (JObj sample_kvs) ''event_type'' = JStr ''spider.tamper''" "py_get (JObj sample_kvs) ''source_id'' = JStr ''A''"
  "py_get (JObj sample_kvs) ''sequence'' = JInt 2"
  by (simp_all add: sample_kvs_def py_get_def)

lemma sample_validates:
  "\<exists>v. validate_event sample_runtime (sample_registry [''spider.tamper'']) None (with_ingest_time t (JObj sample_kvs)) = Inr v"
  by (simp add: validate_event_def envelope_validator_def sample_registry_def with_ingest_time_def sample_kvs_def
      py_item_def py_str_item_def resolve_and_check_def parse_schema_version_1_0 supported_majors_def get_validator_def
      MAX_PAYLOAD_BYTES_def sample_runtime_def Let_def)

lemma sample_submit:
  "\<exists>t. submit_keyed sample_ingest (''A'', 2, ''e'') sample_kvs (sample_ingest_env, True, ''7'') = (Inr (Accepted ''e'' 2 False), t)"
proof -
  obtain v where v: "validate_event (env_rt sample_ingest_env) (env_reg sample_ingest_env) None
      (with_ingest_time (env_now_text sample_ingest_env) (JObj sample_kvs)) = Inr v"
    using sample_validates by (auto simp: sample_ingest_env_def sample_env_def)
  have adm: "admit (in_agents sample_ingest) ''A'' ''7'' = Inr sample_agent"
    by (simp add: admit_def is_agent_active_def sample_ingest_def sample_agent_def)
  have subj: "subject_for_event_type ''spider.tamper'' = Inr ''audit.spider.tamper''" by code_simp
  have eid: "py_str_item (with_ingest_time t (JObj sample_kvs)) ''event_id'' = Inr ''e''" for t
    by (simp add: with_ingest_time_def sample_kvs_def py_str_item_def py_item_def)
  have types: "body_event_type rt (JObj sample_kvs) = Inr ''spider.tamper''" "body_sequence rt (JObj sample_kvs) = Inr 2" for rt
    by (simp_all add: body_event_type_def body_sequence_def sample_get ALLOWED_TELEMETRY_EVENT_TYPES_def)
  have "receipt_of sample_ingest ''A'' 2 = None" "ag_last_sequence sample_agent = 0" "in_receipts sample_ingest = []"
    by (simp_all add: receipt_of_def sample_ingest_def sample_agent_def)
  then show ?thesis
    by (simp add: submit_keyed_def sample_keyed submit_telemetry_def adm types sample_get accept_event_def Let_def v subj eid
        record_accepted_def insert_receipt_def)
qed



text \<open>Telemetry is ordered per agent: in every state reached by submissions and heartbeats the receipts of an
  agent carry strictly increasing sequence numbers in the order of acceptance, none above the agent's recorded one.\<close>

theorem receipts_ordered:
  assumes "in_receipts s0 = []" and "ingest_step\<^sup>*\<^sup>* s0 s"
  shows "sorted_wrt (<) (map re_sequence (filter (\<lambda>r. re_agent_id r = aid) (in_receipts s))) \<and>
    (\<forall>r \<in> set (in_receipts s). \<exists>n. last_seq s (re_agent_id r) = Some n \<and> re_sequence r \<le> n)"
proof -
  have "ingest_inv s0" using assms(1) by (simp add: ingest_inv_def)
  then have inv: "ingest_inv s" by (rule ingest_sys.steps_inv [OF assms(2)])
  then have "sorted_wrt (\<lambda>a b. re_agent_id a = re_agent_id b \<longrightarrow> re_sequence a < re_sequence b)
      (filter (\<lambda>r. re_agent_id r = aid) (in_receipts s))"
    by (auto simp: ingest_inv_def intro: sorted_wrt_filter)
  then have "sorted_wrt (\<lambda>a b. re_sequence a < re_sequence b) (filter (\<lambda>r. re_agent_id r = aid) (in_receipts s))"
    by (rule sorted_wrt_mono_rel [rotated]) auto
  with inv show ?thesis by (simp add: sorted_wrt_map ingest_inv_def)
qed

theorem receipts_ordered_witness:
  "\<exists>s :: ingest. ingest_step\<^sup>*\<^sup>* sample_ingest s \<and> in_receipts s \<noteq> [] \<and>
     sorted_wrt (<) (map re_sequence (filter (\<lambda>r. re_agent_id r = ''A'') (in_receipts s)))"
proof -
  obtain t where run: "submit_keyed sample_ingest (''A'', 2, ''e'') sample_kvs (sample_ingest_env, True, ''7'') = (Inr (Accepted ''e'' 2 False), t)"
    using sample_submit by blast
  then have "submit_telemetry sample_ingest_env True ''A'' ''7'' (JObj sample_kvs) sample_ingest = (Inr (Accepted ''e'' 2 False), t)"
    by (simp add: submit_keyed_def sample_keyed)
  then have step: "ingest_step\<^sup>*\<^sup>* sample_ingest t" by (intro r_into_rtranclp ingest_step.submit)
  have "in_receipts t \<noteq> []" using ingests.handle_fresh [OF run] by (auto simp: seen_event_def receipt_of_def)
  with step receipts_ordered [OF _ step, of "''A''"] show ?thesis by (auto simp: sample_ingest_def)
qed

text \<open>An event that was overtaken blocks the queue for ever: once the server accepted sequence number n, an event
  of the same agent with a smaller number and no receipt is refused with 409 in every later state of the server, and
  as long as it is the first pending entry of the agent's queue every flush sends nothing and leaves the queue as it is.
  Immediate delivery of a tamper event or a fingerprint snapshot while older observations are queued does exactly this.\<close>

theorem overtaken_event_blocks_queue:
  assumes "submit_telemetry e0 up0 aid serial0 body s = (Inr (Accepted eid n False), s1)"
    and "m < n" and "receipt_of s aid m = None" and "ingest_step\<^sup>*\<^sup>* s1 s2"
    and "queue_inv q" and "readable cy q" and "pend q = (i, b) # rest" and "limit \<noteq> 0"
    and "py_get (event_of cy (i, b)) ''sequence'' = JInt m"
    and "py_get (event_of cy (i, b)) ''source_id'' = JStr aid"
    and "body_event_type (env_rt e) (event_of cy (i, b)) = Inr ty"
    and "admit (in_agents s2) aid serial = Inr agent"
  shows "\<exists>q'. flush_queue_spider cy (submit_telemetry_client fl (post_telemetry e up aid serial)) limit q s2 =
     (Inr 0, q', s2) \<and> pend q' = pend q"
proof -
  have "overtaken s1 aid m"
    using assms(1)
  proof (cases rule: submit_cases)
    case same
    then show ?thesis by auto
  next
    case (new agent' ty' sequence)
    from new(1) show ?thesis
    proof (cases rule: accept_event_cases)
      case (accepted eid')
      then have "last_seq s1 aid = Some n" using accepted(4) [of aid] new(4) by (auto simp: last_seq_def)
      with accepted assms(2,3) show ?thesis by (auto simp: overtaken_def receipt_of_def find_append)
    qed simp
  qed
  then have "overtaken s2 aid m" by (rule overtaking.steps_inv [OF assms(4)])
  from overtaken_refused [OF this assms(12,11,10,9)] obtain msg where
    "submit_telemetry e up aid serial (event_of cy (i, b)) s2 = (Inl (HTTPException 409 msg), s2)" by blast
  then have "submit_telemetry_client fl (post_telemetry e up aid serial) (event_of cy (i, b)) s2 =
      (TelemetrySubmitFailed 409 msg, s2)"
    by (simp add: submit_telemetry_client_def post_telemetry_def response_of_def check_acknowledgement_def)
  from flush_blocked [where send = "submit_telemetry_client fl (post_telemetry e up aid serial)", OF assms(5-8) this]
  show ?thesis .
qed

definition late_event :: json where
  "late_event = JObj [(''event_id'', JStr ''o''), (''event_type'', JStr ''spider.observation''),
     (''source_id'', JStr ''A''), (''sequence'', JInt 1)]"

definition late_cipher :: cipher where
  "late_cipher = \<lparr>seal = (\<lambda>_. ''blob''), unseal = (\<lambda>_. Some late_event)\<rparr>"

theorem overtaken_event_blocks_queue_witness:
  "\<exists>s2 q'. flush_queue_spider late_cipher (submit_telemetry_client (\<lambda>_. []) (post_telemetry sample_ingest_env True ''A'' ''7''))
       100 sample_queue s2 = (Inr 0, q', s2) \<and> pend q' = [(1, ''blob'')]"
proof -
  obtain t where "submit_keyed sample_ingest (''A'', 2, ''e'') sample_kvs (sample_ingest_env, True, ''7'') = (Inr (Accepted ''e'' 2 False), t)"
    using sample_submit by blast
  then have run: "submit_telemetry sample_ingest_env True ''A'' ''7'' (JObj sample_kvs) sample_ingest = (Inr (Accepted ''e'' 2 False), t)"
    by (simp add: submit_keyed_def sample_keyed)
  then have agents: "\<exists>a. admit (in_agents t) ''A'' ''7'' = Inr a"
    by (auto simp: submit_telemetry_def accept_event_def Let_def record_accepted_def insert_receipt_def touch_agent_def
        update_where_def admit_def is_agent_active_def sample_ingest_def sample_agent_def upsert_snapshot_def sbind_Inr
        split: sum.splits if_splits option.splits)
  then obtain a where adm: "admit (in_agents t) ''A'' ''7'' = Inr a" by blast
  have ev: "event_of late_cipher (1, ''blob'') = late_event" by (simp add: event_of_def late_cipher_def)
  have "readable late_cipher sample_queue" by (simp add: readable_def late_cipher_def)
  moreover have "receipt_of sample_ingest ''A'' 1 = None" by (simp add: receipt_of_def sample_ingest_def)
  moreover have "py_get late_event ''sequence'' = JInt 1" "py_get late_event ''source_id'' = JStr ''A''"
    "body_event_type rt late_event = Inr ''spider.observation''" for rt
    by (simp_all add: late_event_def py_get_def body_event_type_def ALLOWED_TELEMETRY_EVENT_TYPES_def)
  ultimately show ?thesis
    using overtaken_event_blocks_queue [OF run _ _ rtranclp.rtrancl_refl sample_queue_facts(1) _ sample_queue_facts(2) _ _ _ _ adm,
        of 1 late_cipher 100 sample_ingest_env "''spider.observation''" "\<lambda>_. []" True]
    by (auto simp: ev sample_queue_facts(2))
qed

end
