(* ===== verification/Mirage_Enrollment.thy ===== *)
theory Mirage_Enrollment
  imports Mirage_Ingestion Mirage_Routing
begin

text \<open>
  \<^verbatim>\<open>services/mirage-agent-ingestion\<close>: one-time enrolment tokens, certificate issue,
  renewal and revocation (\<^verbatim>\<open>enrollment.py\<close>) and the choice and caching of the
  provisioner secret (\<^verbatim>\<open>provisioners.py\<close>).

  The certificate authority is a parameter (record \<open>ca\<close>): decoding a token's
  claims without verification, reading a UUID, minting a token, signing a
  request, the serial number of a certificate, revoking. Each returns the text of
  its exception on failure. String lengths are counted in bytes, which for the
  ASCII identifiers of agents is what Python counts.
\<close>

section \<open>State and parameters\<close>

record token_row =
  tk_token_id :: string
  tk_role :: string
  tk_provisioner_name :: string
  tk_subject :: string
  tk_sans :: "string list"
  tk_expires_at :: timestamp
  tk_used_at :: "timestamp option"
  tk_used_by_agent_id :: "string option"
  tk_created_by :: string

record history_row =
  hi_agent_id :: string
  hi_certificate_serial :: string
  hi_action :: string
  hi_detail :: string

record enroll_db =
  ed_tokens :: "token_row list"
  ed_agents :: "agent_row list"
  ed_history :: "history_row list"
  ed_allowlist :: "(string \<times> string) list"

record issued_certificate =
  ic_certificate_pem :: string
  ic_certificate_chain_pem :: string
  ic_not_after :: string

record minted_token =
  mt_token :: string
  mt_jti :: string
  mt_expires_at :: timestamp

record ca =
  ca_decode :: "string \<Rightarrow> (string option \<times> string option) option"
  ca_uuid :: "string \<Rightarrow> string option"
  ca_mint :: "string \<Rightarrow> string \<Rightarrow> string list \<Rightarrow> int \<Rightarrow> string + minted_token"
  ca_sign :: "string \<Rightarrow> string \<Rightarrow> string + issued_certificate"
  ca_serial :: "string \<Rightarrow> string"
  ca_revoke :: "string \<Rightarrow> string \<Rightarrow> string \<Rightarrow> string + unit"

datatype enrollment_error =
    EnrollmentTokenInvalidError
  | BuildHashNotAllowedError
  | HostFingerprintInvalidError
  | CaSigningError string
  | AgentNotFoundError string
  | AgentAlreadyRevokedError string
  | EnrollValueError string
  | CaUnavailable string
  | EnrollDb db_error

definition enrollment_reason :: "enrollment_error \<Rightarrow> string option" where
  "enrollment_reason e = (case e of
      EnrollmentTokenInvalidError \<Rightarrow> Some ''TOKEN_EXPIRED_OR_REUSED_OR_UNKNOWN''
    | BuildHashNotAllowedError \<Rightarrow> Some ''BUILD_HASH_NOT_ALLOWLISTED''
    | HostFingerprintInvalidError \<Rightarrow> Some ''HOST_FINGERPRINT_INVALID''
    | CaSigningError _ \<Rightarrow> Some ''CA_SIGNING_ERROR''
    | _ \<Rightarrow> None)"

definition ENROLLMENT_ERROR_STATUS :: "(string \<times> nat) list" where
  "ENROLLMENT_ERROR_STATUS =
     [(''TOKEN_EXPIRED_OR_REUSED_OR_UNKNOWN'', 401), (''BUILD_HASH_NOT_ALLOWLISTED'', 403),
      (''HOST_FINGERPRINT_INVALID'', 400), (''CSR_INVALID'', 400), (''CA_SIGNING_ERROR'', 502)]"

definition enrollment_status :: "enrollment_error \<Rightarrow> nat" where
  "enrollment_status e = (case enrollment_reason e of
      None \<Rightarrow> 500
    | Some reason \<Rightarrow> (case map_of ENROLLMENT_ERROR_STATUS reason of None \<Rightarrow> 400 | Some st \<Rightarrow> st))"

definition ROLE_TO_PROVISIONER :: "(string \<times> string) list" where
  "ROLE_TO_PROVISIONER =
     [(''ENDPOINT'', ''mirage-endpoint''), (''SPIDER'', ''mirage-spider''),
      (''ENV_CONTROLLER'', ''mirage-env-controller''), (''BROKER_CLIENT'', ''mirage-broker-client''),
      (''INTERNAL_CONTROL'', ''mirage-internal-control'')]"

definition ROLE_TO_PROFILE :: "(string \<times> string) list" where
  "ROLE_TO_PROFILE =
     [(''ENDPOINT'', ''MirageEndpoint''), (''SPIDER'', ''MirageSpider''),
      (''ENV_CONTROLLER'', ''MirageEnvironmentController''), (''BROKER_CLIENT'', ''BrokerClient''),
      (''INTERNAL_CONTROL'', ''InternalControl'')]"

section \<open>Tokens\<close>

definition insert_token :: "token_row \<Rightarrow> enroll_db \<Rightarrow> enrollment_error + enroll_db" where
  "insert_token t d =
     (if tk_token_id t \<in> tk_token_id ` set (ed_tokens d) then Inl (EnrollDb (UniqueViolation ''enrollment_tokens''))
      else Inr (d\<lparr>ed_tokens := ed_tokens d @ [t]\<rparr>))"

definition create_enrollment_token ::
  "ca \<Rightarrow> string \<Rightarrow> string \<Rightarrow> string list \<Rightarrow> string \<Rightarrow> int \<Rightarrow> enroll_db \<Rightarrow>
   (enrollment_error + minted_token) \<times> enroll_db" where
  "create_enrollment_token c role subject sans created_by ttl_seconds d =
     (case map_of ROLE_TO_PROVISIONER role of
        None \<Rightarrow> (Inl (EnrollValueError (''unknown role: '' @ py_repr role)), d)
      | Some provisioner \<Rightarrow>
          (case ca_mint c role subject sans ttl_seconds of
             Inl err \<Rightarrow> (Inl (CaUnavailable err), d)
           | Inr minted \<Rightarrow>
               (case ca_uuid c (mt_jti minted) of
                  None \<Rightarrow> (Inl (EnrollValueError ''badly formed hexadecimal UUID string''), d)
                | Some u \<Rightarrow>
                    (case insert_token \<lparr>tk_token_id = u, tk_role = role, tk_provisioner_name = provisioner,
                             tk_subject = subject, tk_sans = sans, tk_expires_at = mt_expires_at minted,
                             tk_used_at = None, tk_used_by_agent_id = None, tk_created_by = created_by\<rparr> d of
                       Inl err \<Rightarrow> (Inl err, d)
                     | Inr d' \<Rightarrow> (Inr minted, d')))))"

section \<open>Enrolment\<close>

record enroll_args =
  en_enrollment_token :: string
  en_csr_pem :: string
  en_host_fingerprint :: string
  en_build_hash :: string

record enroll_result =
  er_agent_id :: string
  er_role :: string
  er_certificate_profile :: string
  er_certificate_pem :: string
  er_certificate_chain_pem :: string
  er_certificate_serial :: string
  er_not_after :: string

definition is_hex_digit :: "char \<Rightarrow> bool" where
  "is_hex_digit c = (c \<in> set ''0123456789abcdef'')"

definition build_hash_ok :: "string \<Rightarrow> bool" where
  "build_hash_ok h = (h \<noteq> [] \<and> list_all is_hex_digit (str_lower h) \<and> length h = 64)"

definition usable_token :: "timestamp \<Rightarrow> string \<Rightarrow> token_row \<Rightarrow> bool" where
  "usable_token now u t = (tk_token_id t = u \<and> tk_used_at t = None \<and> tk_expires_at t > now)"

definition use_token :: "timestamp \<Rightarrow> string \<Rightarrow> string \<Rightarrow> enroll_db \<Rightarrow> enroll_db" where
  "use_token now u by_agent d =
     d\<lparr>ed_tokens := update_where (usable_token now u)
        (\<lambda>t. t\<lparr>tk_used_at := Some now, tk_used_by_agent_id := Some by_agent\<rparr>) (ed_tokens d)\<rparr>"

definition upsert_agent :: "agent_row \<Rightarrow> enroll_db \<Rightarrow> enrollment_error + enroll_db" where
  "upsert_agent a d =
     (if list_ex (\<lambda>r. ag_certificate_serial r = ag_certificate_serial a \<and> ag_agent_id r \<noteq> ag_agent_id a) (ed_agents d)
      then Inl (EnrollDb (UniqueViolation ''agents_certificate_serial_idx''))
      else if ag_agent_id a \<in> ag_agent_id ` set (ed_agents d)
      then Inr (d\<lparr>ed_agents := update_where (\<lambda>r. ag_agent_id r = ag_agent_id a)
             (\<lambda>r. r\<lparr>ag_certificate_profile := ag_certificate_profile a,
                     ag_certificate_serial := ag_certificate_serial a,
                     ag_certificate_not_after := ag_certificate_not_after a,
                     ag_build_hash := ag_build_hash a, ag_host_fingerprint := ag_host_fingerprint a,
                     ag_status := ''ACTIVE'', ag_revoked_at := None, ag_revoked_reason := None\<rparr>) (ed_agents d)\<rparr>)
      else Inr (d\<lparr>ed_agents := ed_agents d @ [a]\<rparr>))"

definition add_history :: "string \<Rightarrow> string \<Rightarrow> string \<Rightarrow> string \<Rightarrow> enroll_db \<Rightarrow> enroll_db" where
  "add_history aid serial action detail d =
     d\<lparr>ed_history := ed_history d @ [\<lparr>hi_agent_id = aid, hi_certificate_serial = serial, hi_action = action,
        hi_detail = detail\<rparr>]\<rparr>"

text \<open>
  After the token check. The token stays used when the build hash is not on the
  list or the authority refuses (the code commits before it raises); any other
  exception rolls the whole request back.
\<close>

definition issue_certificate ::
  "ca \<Rightarrow> enroll_args \<Rightarrow> string \<Rightarrow> token_row \<Rightarrow> enroll_db \<Rightarrow> enroll_db \<Rightarrow>
   (enrollment_error + enroll_result) \<times> enroll_db" where
  "issue_certificate c a jti tk d d1 =
     (if (en_build_hash a, tk_role tk) \<notin> set (ed_allowlist d1) then (Inl BuildHashNotAllowedError, d1)
      else case ca_sign c (en_enrollment_token a) (en_csr_pem a) of
        Inl err \<Rightarrow> (Inl (CaSigningError err), d1)
      | Inr issued \<Rightarrow>
          (let serial = ca_serial c (ic_certificate_pem issued); aid = tk_subject tk in
           case map_of ROLE_TO_PROFILE (tk_role tk) of
             None \<Rightarrow> (Inl (EnrollValueError (tk_role tk)), d)
           | Some profile \<Rightarrow>
               (case upsert_agent
                       \<lparr>ag_agent_id = aid, ag_role = tk_role tk, ag_certificate_profile = profile,
                        ag_certificate_serial = serial, ag_certificate_not_after = ic_not_after issued,
                        ag_build_hash = en_build_hash a, ag_host_fingerprint = en_host_fingerprint a,
                        ag_status = ''ACTIVE'', ag_revoked_at = None, ag_revoked_reason = None,
                        ag_last_seen_at = None, ag_last_sequence = 0\<rparr> d1 of
                  Inl err \<Rightarrow> (Inl err, d)
                | Inr d2 \<Rightarrow>
                    (Inr \<lparr>er_agent_id = aid, er_role = tk_role tk, er_certificate_profile = profile,
                          er_certificate_pem = ic_certificate_pem issued,
                          er_certificate_chain_pem = ic_certificate_chain_pem issued,
                          er_certificate_serial = serial, er_not_after = ic_not_after issued\<rparr>,
                     add_history aid serial ''ISSUED'' (''enrolled via token '' @ jti) d2))))"

definition enroll_agent ::
  "ca \<Rightarrow> timestamp \<Rightarrow> enroll_args \<Rightarrow> enroll_db \<Rightarrow> (enrollment_error + enroll_result) \<times> enroll_db" where
  "enroll_agent c now a d =
     (case ca_decode c (en_enrollment_token a) of
        None \<Rightarrow> (Inl EnrollmentTokenInvalidError, d)
      | Some (jti', sub) \<Rightarrow>
          (case jti' of
             None \<Rightarrow> (Inl EnrollmentTokenInvalidError, d)
           | Some jti \<Rightarrow>
               if jti = [] then (Inl EnrollmentTokenInvalidError, d)
               else if en_host_fingerprint a = [] \<or> length (en_host_fingerprint a) > 256
               then (Inl HostFingerprintInvalidError, d)
               else if \<not> build_hash_ok (en_build_hash a) then (Inl BuildHashNotAllowedError, d)
               else (case ca_uuid c jti of
                  None \<Rightarrow> (Inl (EnrollValueError ''badly formed hexadecimal UUID string''), d)
                | Some u \<Rightarrow>
                    (case find (usable_token now u) (ed_tokens d) of
                       None \<Rightarrow> (Inl EnrollmentTokenInvalidError, d)
                     | Some tk \<Rightarrow>
                         (case sub of
                            None \<Rightarrow> (Inl (EnrollDb (CheckViolation ''enrollment_tokens_used_consistency'')), d)
                          | Some by_agent \<Rightarrow> issue_certificate c a jti tk d (use_token now u by_agent d))))))"

section \<open>Renewal and revocation\<close>

definition renew_agent ::
  "ca \<Rightarrow> string \<Rightarrow> string \<Rightarrow> int \<Rightarrow> enroll_db \<Rightarrow> (enrollment_error + enroll_result) \<times> enroll_db" where
  "renew_agent c aid csr ttl_seconds d =
     (case lookup_by ag_agent_id (ed_agents d) aid of
        None \<Rightarrow> (Inl (AgentNotFoundError aid), d)
      | Some r \<Rightarrow>
          if ag_status r \<noteq> ''ACTIVE'' then (Inl (AgentAlreadyRevokedError aid), d)
          else (case ca_mint c (ag_role r) aid [aid] ttl_seconds of
             Inl err \<Rightarrow> (Inl (CaUnavailable err), d)
           | Inr minted \<Rightarrow>
               (case ca_sign c (mt_token minted) csr of
                  Inl err \<Rightarrow> (Inl (CaSigningError err), d)
                | Inr issued \<Rightarrow>
                    (let serial = ca_serial c (ic_certificate_pem issued) in
                     case map_of ROLE_TO_PROFILE (ag_role r) of
                       None \<Rightarrow> (Inl (EnrollValueError (ag_role r)), d)
                     | Some profile \<Rightarrow>
                         if list_ex (\<lambda>q. ag_certificate_serial q = serial \<and> ag_agent_id q \<noteq> aid) (ed_agents d)
                         then (Inl (EnrollDb (UniqueViolation ''agents_certificate_serial_idx'')), d)
                         else (Inr \<lparr>er_agent_id = aid, er_role = ag_role r, er_certificate_profile = profile,
                                    er_certificate_pem = ic_certificate_pem issued,
                                    er_certificate_chain_pem = ic_certificate_chain_pem issued,
                                    er_certificate_serial = serial, er_not_after = ic_not_after issued\<rparr>,
                               add_history aid serial ''RENEWED'' ''renewed''
                                 (d\<lparr>ed_agents := update_where (\<lambda>q. ag_agent_id q = aid)
                                    (\<lambda>q. q\<lparr>ag_certificate_serial := serial,
                                            ag_certificate_not_after := ic_not_after issued\<rparr>) (ed_agents d)\<rparr>))))))"

definition renewal_due :: "rat \<Rightarrow> rat \<Rightarrow> rat \<Rightarrow> bool" where
  "renewal_due not_after issued_at now =
     (let total_lifetime = not_after - issued_at; remaining = not_after - now in
      if total_lifetime \<le> 0 then True else remaining / total_lifetime \<le> 1 / 5)"

text \<open>The row is revoked and committed before the authority is told; its failure is raised afterwards.\<close>

definition revoke_agent ::
  "ca \<Rightarrow> timestamp \<Rightarrow> string \<Rightarrow> string \<Rightarrow> enroll_db \<Rightarrow> (enrollment_error + unit) \<times> enroll_db" where
  "revoke_agent c now aid reason d =
     (case lookup_by ag_agent_id (ed_agents d) aid of
        None \<Rightarrow> (Inl (AgentNotFoundError aid), d)
      | Some r \<Rightarrow>
          if ag_status r = ''REVOKED'' then (Inr (), d)
          else
            let d' = add_history aid (ag_certificate_serial r) ''REVOKED'' reason
                  (d\<lparr>ed_agents := update_where (\<lambda>q. ag_agent_id q = aid)
                     (\<lambda>q. q\<lparr>ag_status := ''REVOKED'', ag_revoked_at := Some now, ag_revoked_reason := Some reason\<rparr>)
                     (ed_agents d)\<rparr>) in
            (case ca_mint c (ag_role r) aid [aid] 60 of
               Inl err \<Rightarrow> (Inl (CaUnavailable err), d')
             | Inr minted \<Rightarrow>
                 (case ca_revoke c (ag_certificate_serial r) (mt_token minted) reason of
                    Inl err \<Rightarrow> (Inl (CaUnavailable err), d')
                  | Inr _ \<Rightarrow> (Inr (), d'))))"

section \<open>The provisioner secret (provisioners.py)\<close>

datatype secret_error =
    SecretAccessDeniedError string | SecretNotFoundError string | SecretRetrievalError string | SecretMalformedError string

definition REQUIRED_STEP_CA_SECRET_FIELDS :: "string list" where
  "REQUIRED_STEP_CA_SECRET_FIELDS =
     [''ca_url'', ''root_fingerprint'', ''password'',
      ''mirage_endpoint_encrypted_jwk'', ''mirage_endpoint_public_jwk'',
      ''mirage_spider_encrypted_jwk'', ''mirage_spider_public_jwk'',
      ''mirage_env_controller_encrypted_jwk'', ''mirage_env_controller_public_jwk'',
      ''mirage_broker_client_encrypted_jwk'', ''mirage_broker_client_public_jwk'',
      ''mirage_internal_control_encrypted_jwk'', ''mirage_internal_control_public_jwk'']"

record secret_cache =
  sc_secret :: "json option"
  sc_cached_at :: rat
  sc_refresh :: rat

definition store_secret ::
  "(string \<Rightarrow> json option) \<Rightarrow> string option \<Rightarrow> rat \<Rightarrow> string \<Rightarrow> secret_cache \<Rightarrow> (secret_error + json) \<times> secret_cache" where
  "store_secret parse raw t1 name sc =
     (case raw of
        None \<Rightarrow> (Inl (SecretMalformedError (''secret '' @ py_repr name @ '' has no SecretString value'')), sc)
      | Some text \<Rightarrow>
          (case parse text of
             None \<Rightarrow> (Inl (SecretMalformedError (''secret '' @ py_repr name @ '' is not valid JSON'')), sc)
           | Some parsed \<Rightarrow>
               if \<not> is_dict parsed
               then (Inl (SecretMalformedError (''secret '' @ py_repr name @ '' must be a JSON object'')), sc)
               else let missing = filter (\<lambda>f. jget parsed f = None) REQUIRED_STEP_CA_SECRET_FIELDS in
                 if missing \<noteq> []
                 then (Inl (SecretMalformedError (''secret '' @ py_repr name @ '' is missing required fields: '' @
                         py_repr_list missing)), sc)
                 else (Inr parsed, sc\<lparr>sc_secret := Some parsed, sc_cached_at := t1\<rparr>)))"

text \<open>
  \<open>answer\<close> is what the secret store returned: an error code, or the secret string
  (\<open>None\<close> if it has none), with \<open>parse\<close> the JSON parser. \<open>t0\<close> and
  \<open>t1\<close> are the clock readings before and after the call.
\<close>

definition fetch_secret ::
  "(string \<Rightarrow> json option) \<Rightarrow> string + string option \<Rightarrow> rat \<Rightarrow> rat \<Rightarrow> string \<Rightarrow> secret_cache \<Rightarrow>
   (secret_error + json) \<times> secret_cache" where
  "fetch_secret parse answer t0 t1 name sc =
     (case sc_secret sc of
        Some s \<Rightarrow>
          if t0 - sc_cached_at sc < sc_refresh sc then (Inr s, sc)
          else (case answer of Inl _ \<Rightarrow> (Inr s, sc) | Inr raw \<Rightarrow> store_secret parse raw t1 name sc)
      | None \<Rightarrow>
          (case answer of
             Inl code \<Rightarrow>
               (if code \<in> {''AccessDeniedException'', ''UnrecognizedClientException''}
                then Inl (SecretAccessDeniedError name)
                else if code = ''ResourceNotFoundException'' then Inl (SecretNotFoundError name)
                else Inl (SecretRetrievalError name), sc)
           | Inr raw \<Rightarrow> store_secret parse raw t1 name sc))"

definition invalidate :: "secret_cache \<Rightarrow> secret_cache" where
  "invalidate sc = sc\<lparr>sc_secret := None, sc_cached_at := 0\<rparr>"

definition key_fields :: "string \<Rightarrow> (string \<times> string) option" where
  "key_fields role = map_option
     (\<lambda>p. let key_prefix = str_replace1 (CHR ''-'') ''_'' p in (key_prefix @ ''_public_jwk'', key_prefix @ ''_encrypted_jwk''))
     (map_of ROLE_TO_PROVISIONER role)"

datatype provisioner_source = DevFileProvisionerSource string | SecretsManagerProvisionerSource string

definition build_provisioner_source ::
  "string \<Rightarrow> string option \<Rightarrow> string option \<Rightarrow> enrollment_error + provisioner_source" where
  "build_provisioner_source environment keys_dir secret_name =
     (let named = (case secret_name of None \<Rightarrow> None | Some n \<Rightarrow> if n = [] then None else Some n) in
      case named of
        Some n \<Rightarrow> Inr (SecretsManagerProvisionerSource n)
      | None \<Rightarrow>
          if environment = ''production''
          then Inl (EnrollValueError ''production environment requires secret_name for SecretsManagerProvisionerSource'')
          else (case keys_dir of
                  None \<Rightarrow> Inl (EnrollValueError ''non-production environment requires either keys_dir or secret_name'')
                | Some k \<Rightarrow> Inr (DevFileProvisionerSource k)))"

section \<open>Used tokens stay used\<close>

definition token_used :: "enroll_db \<Rightarrow> string \<Rightarrow> bool" where
  "token_used d u \<longleftrightarrow> u \<in> tk_token_id ` set (ed_tokens d) \<and>
     (\<forall>t \<in> set (ed_tokens d). tk_token_id t = u \<longrightarrow> tk_used_at t \<noteq> None)"

inductive enroll_step :: "enroll_db \<Rightarrow> enroll_db \<Rightarrow> bool" where
  create: "create_enrollment_token c role subject sans by_user ttl d = (q1, d') \<Longrightarrow> enroll_step d d'"
| enrol: "enroll_agent c now a d = (q2, d') \<Longrightarrow> enroll_step d d'"
| renew: "renew_agent c aid csr ttl d = (q3, d') \<Longrightarrow> enroll_step d d'"
| revoke: "revoke_agent c now aid reason d = (q4, d') \<Longrightarrow> enroll_step d d'"

inductive_cases enroll_stepE: "enroll_step d d'"

lemma add_history_simps [simp]:
  "ed_tokens (add_history aid serial act detail d) = ed_tokens d"
  "ed_agents (add_history aid serial act detail d) = ed_agents d"
  "ed_allowlist (add_history aid serial act detail d) = ed_allowlist d"
  by (simp_all add: add_history_def)

lemma upsert_agent_tokens: "upsert_agent a d = Inr d' \<Longrightarrow> ed_tokens d' = ed_tokens d"
  by (auto simp: upsert_agent_def split: if_splits)

lemma issue_certificate_tokens:
  assumes "issue_certificate c a jti tk d d1 = (q, d')"
  shows "ed_tokens d' = ed_tokens d \<or> ed_tokens d' = ed_tokens d1"
    and "q = Inr r \<Longrightarrow> ed_tokens d' = ed_tokens d1"
  using assms
  by (auto simp: issue_certificate_def Let_def upsert_agent_tokens split: if_splits sum.splits option.splits)

lemma enroll_agent_tokens:
  assumes "enroll_agent c now a d = (q, d')"
  shows "ed_tokens d' = ed_tokens d \<or>
    (\<exists>u by_agent. ed_tokens d' = ed_tokens (use_token now u by_agent d))"
proof -
  from assms consider "d' = d" | jti tk u by_agent where "issue_certificate c a jti tk d (use_token now u by_agent d) = (q, d')"
    by (auto simp: enroll_agent_def split: option.splits prod.splits if_splits)
  then show ?thesis by cases (auto dest: issue_certificate_tokens(1))
qed

lemma use_token_ids: "tk_token_id ` set (ed_tokens (use_token now v w d)) = tk_token_id ` set (ed_tokens d)"
proof -
  have "map tk_token_id (ed_tokens (use_token now v w d)) = map tk_token_id (ed_tokens d)"
    unfolding use_token_def by (simp add: keys_update)
  then show ?thesis by (metis list.set_map)
qed

lemma use_token_row:
  "t \<in> set (ed_tokens (use_token now v w d)) \<Longrightarrow>
   tk_used_at t = Some now \<or> (t \<in> set (ed_tokens d) \<and> \<not> usable_token now v t)"
  by (auto simp: use_token_def set_update_where split: if_splits)

lemma token_used_use:
  assumes "token_used d u"
  shows "token_used (use_token now v w d) u"
proof -
  have "tk_used_at t \<noteq> None" if "t \<in> set (ed_tokens (use_token now v w d))" "tk_token_id t = u" for t
    using use_token_row [OF that(1)] that(2) assms by (auto simp: token_used_def)
  with assms show ?thesis by (simp add: token_used_def use_token_ids)
qed

lemma token_used_step:
  assumes "enroll_step d d'" and used: "token_used d u"
  shows "token_used d' u"
  using assms(1)
proof (cases rule: enroll_step.cases)
  case (create c role subject sans by_user ttl q1)
  with used show ?thesis
    by (auto simp: create_enrollment_token_def insert_token_def token_used_def
        split: option.splits sum.splits if_splits)
next
  case (enrol c now a q2)
  with used show ?thesis using enroll_agent_tokens [OF enrol] token_used_use [OF used]
    by (auto simp: token_used_def)
next
  case (renew c aid csr ttl q3)
  with used show ?thesis
    by (auto simp: renew_agent_def token_used_def Let_def split: option.splits sum.splits if_splits)
next
  case (revoke c now aid reason q4)
  with used show ?thesis
    by (auto simp: revoke_agent_def token_used_def Let_def split: option.splits sum.splits if_splits)
qed

interpretation tokens: step_system enroll_step "\<lambda>d. token_used d u" for u
  by unfold_locales (rule token_used_step)

lemma find_used: "token_used d u \<Longrightarrow> find (usable_token now u) (ed_tokens d) = None"
  unfolding find_None_iff token_used_def usable_token_def by blast

lemma use_token_used:
  assumes "find (usable_token now u) (ed_tokens d) = Some tk" and "distinct (map tk_token_id (ed_tokens d))"
  shows "token_used (use_token now u w d) u"
proof -
  from assms(1) have tk: "tk \<in> set (ed_tokens d)" "usable_token now u tk" by (auto simp: find_Some_iff)
  have uniq: "t = tk" if "t \<in> set (ed_tokens d)" "tk_token_id t = u" for t
    using assms(2) that tk unfolding usable_token_def by (metis distinct_map inj_onD)
  have "tk_used_at t \<noteq> None" if "t \<in> set (ed_tokens (use_token now u w d))" "tk_token_id t = u" for t
  proof (rule ccontr)
    assume "\<not> tk_used_at t \<noteq> None"
    with use_token_row [OF that(1)] have "t \<in> set (ed_tokens d)" "\<not> usable_token now u t" by auto
    with uniq that(2) tk(2) show False by blast
  qed
  moreover have "u \<in> tk_token_id ` set (ed_tokens d)" using tk by (auto simp: usable_token_def)
  ultimately show ?thesis by (simp add: token_used_def use_token_ids)
qed

section \<open>Properties\<close>

text \<open>C32. An enrolment token works once: after a successful enrolment every later enrolment with the same token
  identifier is refused and changes nothing, whatever tokens, enrolments, renewals and revocations happened in
  between and whatever the certificate authority answers.\<close>

theorem enrollment_token_single_use:
  assumes "distinct (map tk_token_id (ed_tokens d))"
    and "enroll_agent c now a d = (Inr res, d1)"
    and "ca_decode c (en_enrollment_token a) = Some (Some jti, sub)" and "ca_uuid c jti = Some u"
    and "enroll_step\<^sup>*\<^sup>* d1 d2"
    and "ca_decode c' (en_enrollment_token b) = Some (Some jti', sub')" and "ca_uuid c' jti' = Some u"
  shows "\<exists>err \<in> {EnrollmentTokenInvalidError, HostFingerprintInvalidError, BuildHashNotAllowedError}.
    enroll_agent c' now' b d2 = (Inl err, d2)"
proof -
  from assms(2-4) obtain tk w where
    tk: "find (usable_token now u) (ed_tokens d) = Some tk" and
    iss: "issue_certificate c a jti tk d (use_token now u w d) = (Inr res, d1)"
    by (auto simp: enroll_agent_def split: option.splits if_splits)
  have "token_used (use_token now u w d) u" by (rule use_token_used [OF tk assms(1)])
  then have "token_used d1 u" using issue_certificate_tokens(2) [OF iss] by (simp add: token_used_def)
  then have "token_used d2 u" by (rule tokens.steps_inv [OF assms(5)])
  with assms(6,7) show ?thesis by (auto simp: enroll_agent_def find_used)
qed

text \<open>Revocation locks the agent out at once, even when the certificate authority cannot be told: no certificate
  is admitted for its heartbeats or telemetry, its certificate gets no route that is not cached, and it cannot renew.\<close>

theorem revoked_agent_locked_out:
  assumes "distinct (map ag_certificate_serial (ed_agents d))"
    and "lookup_by ag_agent_id (ed_agents d) aid = Some r" and "revoke_agent c now aid reason d = (q, d')"
  shows "(\<forall>serial s e. in_agents s = ed_agents d' \<longrightarrow>
      (\<exists>text. heartbeat e aid serial s = (Inl (HTTPException 403 text), s)) \<and>
      (\<forall>up body. \<exists>text. submit_telemetry e up aid serial body s = (Inl (HTTPException 403 text), s))) \<and>
    \<not> broker_allowed (ed_agents d') (ag_certificate_serial r) \<and>
    renew_agent c' aid csr ttl d' = (Inl (AgentAlreadyRevokedError aid), d')"
proof -
  let ?f = "\<lambda>q. q\<lparr>ag_status := ''REVOKED'', ag_revoked_at := Some now, ag_revoked_reason := Some reason\<rparr>"
  have agents: "ed_agents d' = (if ag_status r = ''REVOKED'' then ed_agents d
      else update_where (\<lambda>q. ag_agent_id q = aid) ?f (ed_agents d))"
    using assms(2,3) by (auto simp: revoke_agent_def Let_def split: sum.splits if_splits)
  have id: "ag_agent_id r = aid" "r \<in> set (ed_agents d)" using lookup_by_key [OF assms(2)] by auto
  have by_id: "\<exists>r'. lookup_by ag_agent_id (ed_agents d') aid = Some r' \<and> ag_status r' = ''REVOKED''"
    using assms(2) id by (auto simp: agents)
  have "lookup_by ag_certificate_serial (ed_agents d) (ag_certificate_serial r) = Some r"
    by (rule distinct_lookup [OF assms(1) id(2)])
  then have by_serial: "\<exists>r'. lookup_by ag_certificate_serial (ed_agents d') (ag_certificate_serial r) = Some r' \<and>
      ag_status r' = ''REVOKED''"
    using id by (auto simp: agents)
  from by_id have "\<exists>text. admit (ed_agents d') aid serial = Inl (HTTPException 403 text)" for serial
    by (auto simp: admit_def)
  then have "(\<exists>text. heartbeat e aid serial s = (Inl (HTTPException 403 text), s)) \<and>
      (\<forall>up body. \<exists>text. submit_telemetry e up aid serial body s = (Inl (HTTPException 403 text), s))"
    if "in_agents s = ed_agents d'" for serial s and e :: env
  proof -
    from \<open>\<And>serial. \<exists>text. admit (ed_agents d') aid serial = Inl (HTTPException 403 text)\<close> [of serial] that
    obtain msg where "admit (in_agents s) aid serial = Inl (HTTPException 403 msg)" by auto
    then show ?thesis by (auto simp: heartbeat_def submit_telemetry_def)
  qed
  moreover have "\<not> broker_allowed (ed_agents d') (ag_certificate_serial r)"
    using by_serial by (auto simp: broker_allowed_def)
  moreover have "renew_agent c' aid csr ttl d' = (Inl (AgentAlreadyRevokedError aid), d')"
    using by_id by (auto simp: renew_agent_def)
  ultimately show ?thesis by blast
qed

definition sample_ca :: ca where
  "sample_ca = \<lparr>ca_decode = (\<lambda>t. Some (Some ''j'', Some ''A'')), ca_uuid = Some,
     ca_mint = (\<lambda>role subject sans ttl. Inl ''offline''),
     ca_sign = (\<lambda>token csr. Inr \<lparr>ic_certificate_pem = ''pem'', ic_certificate_chain_pem = ''chain'', ic_not_after = ''t''\<rparr>),
     ca_serial = (\<lambda>pem. ''7''), ca_revoke = (\<lambda>serial token reason. Inl ''offline'')\<rparr>"

definition sample_enroll_args :: enroll_args where
  "sample_enroll_args = \<lparr>en_enrollment_token = ''tok'', en_csr_pem = ''csr'', en_host_fingerprint = ''h'',
     en_build_hash = replicate 64 CHR ''a''\<rparr>"

definition sample_enroll_db :: enroll_db where
  "sample_enroll_db = \<lparr>ed_tokens = [\<lparr>tk_token_id = ''j'', tk_role = ''SPIDER'', tk_provisioner_name = ''mirage-spider'',
      tk_subject = ''A'', tk_sans = [''A''], tk_expires_at = 100, tk_used_at = None, tk_used_by_agent_id = None,
      tk_created_by = ''x''\<rparr>],
     ed_agents = [], ed_history = [], ed_allowlist = [(replicate 64 CHR ''a'', ''SPIDER'')]\<rparr>"

lemma sample_build_hash: "build_hash_ok (replicate 64 CHR ''a'')"
proof -
  have "char_lower CHR ''a'' = CHR ''a''" by code_simp
  then show ?thesis by (simp add: build_hash_ok_def str_lower_def is_hex_digit_def list_all_iff)
qed

lemma sample_enrolls:
  "\<exists>res d1. enroll_agent sample_ca 50 sample_enroll_args sample_enroll_db = (Inr res, d1) \<and>
     lookup_by ag_agent_id (ed_agents d1) ''A'' = Some (sample_agent\<lparr>ag_build_hash := replicate 64 CHR ''a''\<rparr>) \<and>
     distinct (map ag_certificate_serial (ed_agents d1))"
  using sample_build_hash
  by (simp add: enroll_agent_def sample_ca_def sample_enroll_args_def sample_enroll_db_def usable_token_def use_token_def
      issue_certificate_def ROLE_TO_PROFILE_def upsert_agent_def Let_def update_where_def add_history_def sample_agent_def)

theorem enrollment_token_single_use_witness:
  "\<exists>d1 err. enroll_agent sample_ca 51 sample_enroll_args d1 = (Inl err, d1)"
proof -
  obtain res d1 where run: "enroll_agent sample_ca 50 sample_enroll_args sample_enroll_db = (Inr res, d1)"
    using sample_enrolls by blast
  have d: "distinct (map tk_token_id (ed_tokens sample_enroll_db))" by (simp add: sample_enroll_db_def)
  have c: "ca_decode sample_ca (en_enrollment_token sample_enroll_args) = Some (Some ''j'', Some ''A'')"
    "ca_uuid sample_ca ''j'' = Some ''j''" by (simp_all add: sample_ca_def)
  from enrollment_token_single_use [OF d run c rtranclp.rtrancl_refl c, of 51] show ?thesis by blast
qed

theorem revoked_agent_locked_out_witness:
  "\<exists>d'. \<not> broker_allowed (ed_agents d') ''7'' \<and>
     renew_agent sample_ca ''A'' ''csr'' 300 d' = (Inl (AgentAlreadyRevokedError ''A''), d')"
proof -
  obtain d1 :: enroll_db where r: "lookup_by ag_agent_id (ed_agents d1) ''A'' = Some (sample_agent\<lparr>ag_build_hash := replicate 64 CHR ''a''\<rparr>)"
    "distinct (map ag_certificate_serial (ed_agents d1))"
    using sample_enrolls by blast
  obtain q d' where rev: "revoke_agent sample_ca 60 ''A'' ''lost'' d1 = (q, d')"
    by (cases "revoke_agent sample_ca 60 ''A'' ''lost'' d1")
  have "ag_certificate_serial (sample_agent\<lparr>ag_build_hash := replicate 64 CHR ''a''\<rparr>) = ''7''" by (simp add: sample_agent_def)
  with revoked_agent_locked_out [OF r(2) r(1) rev, of sample_ca "''csr''" 300] show ?thesis by auto
qed

text \<open>Enrolling an existing agent with a token for another role keeps the row's old role beside the new profile.\<close>

lemma reenrol_keeps_role:
  assumes "upsert_agent a d = Inr d'" and "lookup_by ag_agent_id (ed_agents d) (ag_agent_id a) = Some r"
  shows "\<exists>r'. lookup_by ag_agent_id (ed_agents d') (ag_agent_id a) = Some r' \<and> ag_role r' = ag_role r \<and>
    ag_certificate_profile r' = ag_certificate_profile a"
proof -
  have id: "ag_agent_id r = ag_agent_id a" "r \<in> set (ed_agents d)" using lookup_by_key [OF assms(2)] by auto
  then have "ag_agent_id a \<in> ag_agent_id ` set (ed_agents d)" by (metis image_eqI)
  with assms id show ?thesis by (auto simp: upsert_agent_def split: if_splits)
qed

end
