(* ===== verification/Mirage_Relay.thy ===== *)
theory Mirage_Relay
  imports Mirage_Store
begin

text \<open>
  \<^verbatim>\<open>services/mirage-outbox-relay/mirage_outbox_relay/relay.py\<close>: publishing the
  outbox. A run selects the due rows, oldest first, publishes each and marks it,
  or schedules the next attempt; the marks are committed together at the end.
  Timestamps are microseconds. \<open>publish\<close> is the broker: whether it took a row.
\<close>

definition ALERT_AFTER_ATTEMPTS :: int where
  "ALERT_AFTER_ATTEMPTS = 10"

definition BACKOFF_SECONDS :: "int list" where
  "BACKOFF_SECONDS = [1, 5, 25, 125, 625]"

definition DEFAULT_BATCH_SIZE :: nat where
  "DEFAULT_BATCH_SIZE = 100"

record relay_alert =
  ra_event_id :: string
  ra_topic :: string
  ra_attempts :: int
  ra_error :: string

record relay_run =
  rr_published :: nat
  rr_alerts :: "relay_alert list"
  rr_rows :: "outbox_row list"

definition is_due :: "timestamp \<Rightarrow> outbox_row \<Rightarrow> bool" where
  "is_due now r = (ob_published_at r = None \<and> ob_next_attempt_at r \<le> now)"

definition due_rows :: "timestamp \<Rightarrow> nat \<Rightarrow> outbox_row list \<Rightarrow> outbox_row list" where
  "due_rows now limit rows = take limit (sort_key ob_created_at (filter (is_due now) rows))"

definition backoff_delay :: "int \<Rightarrow> int" where
  "backoff_delay new_attempts = BACKOFF_SECONDS ! nat (min (new_attempts - 1) (int (length BACKOFF_SECONDS) - 1))"

definition mark_failed :: "timestamp \<Rightarrow> outbox_row \<Rightarrow> outbox_row list \<Rightarrow> outbox_row list" where
  "mark_failed now r rows =
     update_where (\<lambda>q. ob_event_id q = ob_event_id r)
       (\<lambda>q. q\<lparr>ob_attempts := ob_attempts r + 1,
               ob_next_attempt_at := now + backoff_delay (ob_attempts r + 1) * 1000000\<rparr>) rows"

definition mark_published :: "timestamp \<Rightarrow> outbox_row \<Rightarrow> outbox_row list \<Rightarrow> outbox_row list" where
  "mark_published now r rows =
     update_where (\<lambda>q. ob_event_id q = ob_event_id r) (\<lambda>q. q\<lparr>ob_published_at := Some now\<rparr>) rows"

fun relay_rows :: "timestamp \<Rightarrow> (outbox_row \<Rightarrow> string option) \<Rightarrow> outbox_row list \<Rightarrow> relay_run \<Rightarrow> relay_run" where
  "relay_rows now publish [] run = run"
| "relay_rows now publish (r # rs) run =
     relay_rows now publish rs
       (case publish r of
          Some err \<Rightarrow>
            run\<lparr>rr_alerts := rr_alerts run @
                  (if ob_attempts r + 1 \<ge> ALERT_AFTER_ATTEMPTS
                   then [\<lparr>ra_event_id = ob_event_id r, ra_topic = ob_topic r, ra_attempts = ob_attempts r + 1, ra_error = err\<rparr>]
                   else []),
                rr_rows := mark_failed now r (rr_rows run)\<rparr>
        | None \<Rightarrow> run\<lparr>rr_published := rr_published run + 1, rr_rows := mark_published now r (rr_rows run)\<rparr>)"

definition relay_once ::
  "timestamp \<Rightarrow> (outbox_row \<Rightarrow> string option) \<Rightarrow> nat \<Rightarrow> db \<Rightarrow> nat \<times> relay_alert list \<times> db" where
  "relay_once now publish batch_size d =
     (let run = relay_rows now publish (due_rows now batch_size (outbox d))
                  \<lparr>rr_published = 0, rr_alerts = [], rr_rows = outbox d\<rparr> in
      (rr_published run, rr_alerts run, d\<lparr>outbox := rr_rows run\<rparr>))"

section \<open>What a run does to the outbox\<close>

definition relayed :: "timestamp \<Rightarrow> (outbox_row \<Rightarrow> string option) \<Rightarrow> outbox_row \<Rightarrow> outbox_row" where
  "relayed now publish r = (case publish r of
      None \<Rightarrow> r\<lparr>ob_published_at := Some now\<rparr>
    | Some err \<Rightarrow> r\<lparr>ob_attempts := ob_attempts r + 1,
                      ob_next_attempt_at := now + backoff_delay (ob_attempts r + 1) * 1000000\<rparr>)"

lemma relayed_id [simp]: "ob_event_id (relayed now publish r) = ob_event_id r"
  by (simp add: relayed_def split: option.splits)

lemma mark_row:
  assumes "distinct (map ob_event_id (A @ r # B))"
  shows "mark_failed now r (A @ r # B) =
      A @ r\<lparr>ob_attempts := ob_attempts r + 1, ob_next_attempt_at := now + backoff_delay (ob_attempts r + 1) * 1000000\<rparr> # B"
    and "mark_published now r (A @ r # B) = A @ r\<lparr>ob_published_at := Some now\<rparr> # B"
proof -
  have "q \<in> set A \<union> set B \<Longrightarrow> ob_event_id q \<noteq> ob_event_id r" for q
    using assms by (auto simp: image_iff)
  then have "update_where (\<lambda>q. ob_event_id q = ob_event_id r) f (A @ r # B) = A @ f r # B" for f
    by (auto simp: update_where_def intro: map_idI)
  then show "mark_failed now r (A @ r # B) =
      A @ r\<lparr>ob_attempts := ob_attempts r + 1, ob_next_attempt_at := now + backoff_delay (ob_attempts r + 1) * 1000000\<rparr> # B"
    "mark_published now r (A @ r # B) = A @ r\<lparr>ob_published_at := Some now\<rparr> # B"
    by (simp_all add: mark_failed_def mark_published_def)
qed

lemma mark_relayed:
  assumes "distinct (map ob_event_id rows)" and "r \<in> set rows"
  shows "(case publish r of Some err \<Rightarrow> mark_failed now r rows | None \<Rightarrow> mark_published now r rows) =
    map (\<lambda>q. if q = r then relayed now publish q else q) rows"
proof -
  obtain A B where rows: "rows = A @ r # B" using assms(2) by (auto dest: split_list)
  with assms(1) have "r \<notin> set A" "r \<notin> set B" by auto
  then have "map (\<lambda>q. if q = r then relayed now publish q else q) rows = A @ relayed now publish r # B"
    by (auto simp: rows intro: map_idI)
  then show ?thesis using mark_row [OF assms(1) [unfolded rows]]
    by (simp add: rows relayed_def split: option.splits)
qed

lemma relay_rows_spec:
  assumes "distinct (map ob_event_id (rr_rows run))" and "set sel \<subseteq> set (rr_rows run)" and "distinct sel"
  shows "rr_rows (relay_rows now publish sel run) =
      map (\<lambda>q. if q \<in> set sel then relayed now publish q else q) (rr_rows run) \<and>
    rr_published (relay_rows now publish sel run) =
      rr_published run + length (filter (\<lambda>q. publish q = None) sel)"
  using assms
proof (induction sel arbitrary: run)
  case Nil
  then show ?case by simp
next
  case (Cons r sel)
  let ?run = "case publish r of
          Some err \<Rightarrow>
            run\<lparr>rr_alerts := rr_alerts run @
                  (if ob_attempts r + 1 \<ge> ALERT_AFTER_ATTEMPTS
                   then [\<lparr>ra_event_id = ob_event_id r, ra_topic = ob_topic r, ra_attempts = ob_attempts r + 1, ra_error = err\<rparr>]
                   else []),
                rr_rows := mark_failed now r (rr_rows run)\<rparr>
        | None \<Rightarrow> run\<lparr>rr_published := rr_published run + 1, rr_rows := mark_published now r (rr_rows run)\<rparr>"
  let ?g = "\<lambda>q. if q = r then relayed now publish q else q"
  have rows: "rr_rows ?run = map ?g (rr_rows run)"
    using mark_relayed [OF Cons.prems(1), where r = r and publish = publish and now = now] Cons.prems(2)
    by (cases "publish r") simp_all
  have ids: "map ob_event_id (map ?g (rr_rows run)) = map ob_event_id (rr_rows run)" by auto
  have sel: "set sel \<subseteq> set (map ?g (rr_rows run))" using Cons.prems(2,3) by force
  have "map (\<lambda>q. if q \<in> set sel then relayed now publish q else q) (map ?g (rr_rows run)) =
      map (\<lambda>q. if q \<in> set (r # sel) then relayed now publish q else q) (rr_rows run)"
  proof (rule nth_equalityI)
    fix i assume i: "i < length (map (\<lambda>q. if q \<in> set sel then relayed now publish q else q) (map ?g (rr_rows run)))"
    let ?q = "rr_rows run ! i"
    have "relayed now publish r \<notin> set sel"
    proof
      assume "relayed now publish r \<in> set sel"
      then have "relayed now publish r \<in> set (rr_rows run)" "r \<in> set (rr_rows run)" using Cons.prems(2) by auto
      then have "relayed now publish r = r"
        using Cons.prems(1) by (metis distinct_map inj_onD relayed_id)
      then show False using \<open>relayed now publish r \<in> set sel\<close> Cons.prems(3) by simp
    qed
    then show "map (\<lambda>q. if q \<in> set sel then relayed now publish q else q) (map ?g (rr_rows run)) ! i =
      map (\<lambda>q. if q \<in> set (r # sel) then relayed now publish q else q) (rr_rows run) ! i"
      using i Cons.prems(3) by auto
  qed simp
  moreover have "rr_rows (relay_rows now publish sel ?run) =
      map (\<lambda>q. if q \<in> set sel then relayed now publish q else q) (rr_rows ?run) \<and>
    rr_published (relay_rows now publish sel ?run) = rr_published ?run + length (filter (\<lambda>q. publish q = None) sel)"
    using Cons.prems(1,3) sel ids by (intro Cons.IH) (simp_all only: rows, simp_all)
  ultimately show ?case by (simp add: rows split: option.splits)
qed

lemma due_rows_facts:
  assumes "distinct (map ob_event_id rows)"
  shows "distinct (due_rows now n rows)" "set (due_rows now n rows) \<subseteq> set (filter (is_due now) rows)"
    "length (due_rows now n rows) = min n (length (filter (is_due now) rows))"
proof -
  have "distinct (filter (is_due now) rows)" using assms by (simp add: distinct_map)
  then show "distinct (due_rows now n rows)" by (simp add: due_rows_def distinct_take)
  show "set (due_rows now n rows) \<subseteq> set (filter (is_due now) rows)"
    by (auto simp: due_rows_def dest: in_set_takeD)
  show "length (due_rows now n rows) = min n (length (filter (is_due now) rows))"
    by (simp add: due_rows_def min.commute)
qed

lemma relay_once_spec:
  assumes "distinct (map ob_event_id (outbox d))" and "relay_once now publish n d = (k, alerts, d')"
  shows "outbox d' = map (\<lambda>q. if q \<in> set (due_rows now n (outbox d)) then relayed now publish q else q) (outbox d) \<and>
    k = length (filter (\<lambda>q. publish q = None) (due_rows now n (outbox d))) \<and> d'\<lparr>outbox := outbox d\<rparr> = d"
proof -
  let ?run = "\<lparr>rr_published = 0, rr_alerts = [], rr_rows = outbox d\<rparr>" and ?sel = "due_rows now n (outbox d)"
  have "set ?sel \<subseteq> set (outbox d)" using due_rows_facts(2) [OF assms(1), of now n] by auto
  then have "rr_rows (relay_rows now publish ?sel ?run) =
      map (\<lambda>q. if q \<in> set ?sel then relayed now publish q else q) (outbox d) \<and>
    rr_published (relay_rows now publish ?sel ?run) = length (filter (\<lambda>q. publish q = None) ?sel)"
    using relay_rows_spec [where run = ?run and sel = ?sel and now = now and publish = publish]
      assms(1) due_rows_facts(1) [OF assms(1), of now n] by simp
  with assms(2) show ?thesis by (auto simp: relay_once_def Let_def)
qed

lemma length_filter_minus:
  assumes "distinct xs" and "distinct ys" and "set ys \<subseteq> set (filter P xs)"
  shows "length (filter (\<lambda>x. P x \<and> x \<notin> set ys) xs) = length (filter P xs) - length ys"
proof -
  have "set (filter (\<lambda>x. P x \<and> x \<notin> set ys) xs) = set (filter P xs) - set ys" by auto
  then have "card (set (filter (\<lambda>x. P x \<and> x \<notin> set ys) xs)) = card (set (filter P xs)) - card (set ys)"
    using assms(3) by (simp only: card_Diff_subset [OF finite_set])
  then show ?thesis
    using assms(1,2) by (simp only: distinct_card distinct_filter)
qed

lemma relay_once_due:
  assumes ids: "distinct (map ob_event_id (outbox d))" and run: "relay_once now publish n d = (k, alerts, d')"
    and up: "\<And>r. publish r = None"
  shows "length (filter (is_due now) (outbox d')) = length (filter (is_due now) (outbox d)) - n"
    and "distinct (map ob_event_id (outbox d'))"
proof -
  let ?sel = "due_rows now n (outbox d)" and ?g = "\<lambda>q. if q \<in> set (due_rows now n (outbox d)) then relayed now publish q else q"
  have out: "outbox d' = map ?g (outbox d)" using relay_once_spec [OF ids run] by blast
  have g: "is_due now (?g q) \<longleftrightarrow> is_due now q \<and> q \<notin> set ?sel" for q
    by (simp add: relayed_def up is_due_def)
  have "length (filter (is_due now) (outbox d')) = length (filter (\<lambda>q. is_due now (?g q)) (outbox d))"
    by (simp add: out filter_map comp_def)
  also have "\<dots> = length (filter (\<lambda>q. is_due now q \<and> q \<notin> set ?sel) (outbox d))" unfolding g ..
  also have "\<dots> = length (filter (is_due now) (outbox d)) - length ?sel"
    using ids due_rows_facts [OF ids, of now n] by (intro length_filter_minus) (auto simp: distinct_map)
  finally show "length (filter (is_due now) (outbox d')) = length (filter (is_due now) (outbox d)) - n"
    using due_rows_facts(3) [OF ids, of now n] by simp
  have "map ob_event_id (outbox d') = map ob_event_id (outbox d)" by (simp add: out comp_def if_distrib cong: if_cong)
  with ids show "distinct (map ob_event_id (outbox d'))" by simp
qed

fun relay_runs :: "nat \<Rightarrow> timestamp \<Rightarrow> (outbox_row \<Rightarrow> string option) \<Rightarrow> nat \<Rightarrow> db \<Rightarrow> db" where
  "relay_runs 0 now publish n d = d"
| "relay_runs (Suc m) now publish n d = relay_runs m now publish n (snd (snd (relay_once now publish n d)))"

lemma relay_runs_due:
  assumes "\<And>r. publish r = None" and "distinct (map ob_event_id (outbox d))"
  shows "length (filter (is_due now) (outbox (relay_runs m now publish n d))) =
    length (filter (is_due now) (outbox d)) - m * n"
  using assms(2)
proof (induction m arbitrary: d)
  case (Suc m)
  obtain k alerts d' where run: "relay_once now publish n d = (k, alerts, d')"
    by (cases "relay_once now publish n d") auto
  have "length (filter (is_due now) (outbox d')) = length (filter (is_due now) (outbox d)) - n"
    "distinct (map ob_event_id (outbox d'))"
    using relay_once_due [OF Suc.prems run assms(1)] by auto
  with Suc.IH [of d'] run show ?case by (simp add: diff_diff_left)
qed simp

section \<open>Properties\<close>

text \<open>C33. One run of the relay publishes the due rows, oldest first and at most a batch: a row is marked published
  exactly when the broker took it, otherwise its attempt counter and its back-off go up and it stays due for later;
  no row is removed and nothing outside the outbox changes.\<close>

theorem relay_once_effect:
  assumes "distinct (map ob_event_id (outbox d))" and "relay_once now publish n d = (k, alerts, d')"
  shows "d'\<lparr>outbox := outbox d\<rparr> = d \<and> length (outbox d') = length (outbox d) \<and>
    (\<forall>i < length (outbox d).
       if outbox d ! i \<in> set (due_rows now n (outbox d)) then
         (if publish (outbox d ! i) = None then outbox d' ! i = (outbox d ! i)\<lparr>ob_published_at := Some now\<rparr>
          else ob_published_at (outbox d' ! i) = None \<and> ob_attempts (outbox d' ! i) = ob_attempts (outbox d ! i) + 1 \<and>
            (0 \<le> ob_attempts (outbox d ! i) \<longrightarrow>
             ob_next_attempt_at (outbox d' ! i) = now + 1000000 * 5 ^ nat (min (ob_attempts (outbox d ! i)) 4)))
       else outbox d' ! i = outbox d ! i)"
proof -
  have spec: "outbox d' = map (\<lambda>q. if q \<in> set (due_rows now n (outbox d)) then relayed now publish q else q) (outbox d)"
    "d'\<lparr>outbox := outbox d\<rparr> = d"
    using relay_once_spec [OF assms] by auto
  have due: "ob_published_at q = None" if "q \<in> set (due_rows now n (outbox d))" for q
    using that due_rows_facts(2) [OF assms(1), of now n] by (auto simp: is_due_def)
  have delay: "backoff_delay (a + 1) = 5 ^ nat (min a 4)" if "0 \<le> a" for a
  proof (cases "a \<le> 4")
    case True
    with that have "a = 0 \<or> a = 1 \<or> a = 2 \<or> a = 3 \<or> a = 4" by arith
    then show ?thesis by (auto simp: backoff_delay_def BACKOFF_SECONDS_def)
  next
    case False
    then show ?thesis by (simp add: backoff_delay_def BACKOFF_SECONDS_def)
  qed
  show ?thesis
    using due by (auto simp: spec relayed_def delay mult.commute split: option.splits)
qed

definition sample_outbox_row :: "string \<Rightarrow> outbox_row" where
  "sample_outbox_row i = \<lparr>ob_event_id = i, ob_topic = ''audit.recorded'', ob_payload = JNull, ob_created_at = 0,
     ob_published_at = None, ob_attempts = 2, ob_next_attempt_at = 0\<rparr>"

definition sample_outbox_db :: db where
  "sample_outbox_db = empty_db\<lparr>outbox := [sample_outbox_row ''a'', sample_outbox_row ''b'']\<rparr>"

lemma sample_outbox_ids: "distinct (map ob_event_id (outbox sample_outbox_db))"
  by (simp add: sample_outbox_db_def sample_outbox_row_def)

theorem relay_once_effect_witness:
  "\<exists>(d' :: db) k alerts. relay_once 10 (\<lambda>_. Some ''down'') 1 sample_outbox_db = (k, alerts, d') \<and>
     ob_next_attempt_at (outbox d' ! 0) = 25000010 \<and> ob_published_at (outbox d' ! 0) = None"
proof -
  obtain k alerts d' where run: "relay_once 10 (\<lambda>_. Some ''down'') 1 sample_outbox_db = (k, alerts, d')"
    by (cases "relay_once 10 (\<lambda>_. Some ''down'') 1 sample_outbox_db") auto
  have rows: "outbox sample_outbox_db = [sample_outbox_row ''a'', sample_outbox_row ''b'']"
    by (simp add: sample_outbox_db_def)
  have "due_rows 10 1 (outbox sample_outbox_db) = [sample_outbox_row ''a'']"
    by (simp add: rows due_rows_def is_due_def sample_outbox_row_def)
  with relay_once_effect [OF sample_outbox_ids run]
  have "ob_next_attempt_at (outbox d' ! 0) = 25000010" "ob_published_at (outbox d' ! 0) = None"
    by (auto simp: rows sample_outbox_row_def dest!: spec [of _ 0])
  with run show ?thesis by blast
qed

text \<open>The outbox drains: while the broker takes messages, m runs publish all rows that are due now as soon as m
  batches cover them.\<close>

theorem relay_drains:
  assumes "distinct (map ob_event_id (outbox d))" and "\<And>r. publish r = None"
    and "length (filter (is_due now) (outbox d)) \<le> m * n"
  shows "\<forall>r \<in> set (outbox (relay_runs m now publish n d)). \<not> is_due now r"
proof -
  have "length (filter (is_due now) (outbox (relay_runs m now publish n d))) = 0"
    using relay_runs_due [where publish = publish and d = d and now = now and m = m and n = n] assms by simp
  then show ?thesis by (simp add: filter_empty_conv)
qed

theorem relay_drains_witness:
  "filter (is_due 10) (outbox (relay_runs 2 10 (\<lambda>_. None) 1 sample_outbox_db)) = []"
proof -
  have "length (filter (is_due 10) (outbox sample_outbox_db)) \<le> 2 * 1"
    by (simp add: sample_outbox_db_def is_due_def sample_outbox_row_def)
  from relay_drains [where publish = "\<lambda>_. None", OF sample_outbox_ids _ this]
  show ?thesis by (simp add: filter_empty_conv)
qed

end
