(* ===== verification/Mirage_Sandbox.thy ===== *)
theory Mirage_Sandbox
  imports Mirage_Store
begin

text \<open>
  \<^verbatim>\<open>libs/mirage_common/sandbox_actions.py\<close>: the sandbox instances, the life
  cycle of a sandbox command in the database (PENDING, then its result) and the
  optimistic lock on \<^verbatim>\<open>state_version\<close>. The columns and constraints are those
  of migration 0006; the artifact tables are those of migration 0008 and are
  taken to exist. The theory shows what recording a result writes, that of all
  results for one state version at most one advances it, and what becomes of
  the others.
\<close>

definition ALLOWED_ACTION_TYPES :: "string set" where
  "ALLOWED_ACTION_TYPES = {''PLACE_ARTIFACT'', ''MOVE_ARTIFACT'', ''CREATE_DECOY_DIRECTORY'',
     ''CHANGE_VISIBLE_METADATA'', ''DISPLAY_MESSAGE'', ''ENABLE_DECOY_SERVICE'', ''DISABLE_DECOY_SERVICE'',
     ''REQUEST_SNAPSHOT'', ''ROLLBACK_ACTION'', ''CONCLUDE_SESSION'', ''TEST_FILE_PLACEMENT'',
     ''TEST_METADATA_UPDATE'', ''SOFT_RESET'', ''FULL_REBUILD'', ''CLEAN_SHUTDOWN''}"

definition DECOY_SERVICE_ACTIONS :: "string set" where
  "DECOY_SERVICE_ACTIONS = {''ENABLE_DECOY_SERVICE'', ''DISABLE_DECOY_SERVICE''}"

definition CALLER_SUPPLIED_OUTPUT_TAG_ACTIONS :: "string set" where
  "CALLER_SUPPLIED_OUTPUT_TAG_ACTIONS = {''DISPLAY_MESSAGE''}"

definition OUTPUT_TAGS :: "string set" where
  "OUTPUT_TAGS = {''REAL_OS_OUTPUT'', ''DECOY_SERVICE_OUTPUT'', ''AI_GENERATED_INTERACTION'', ''ANALYST_MESSAGE''}"

definition STATE_MUTATING_ACTIONS :: "string set" where
  "STATE_MUTATING_ACTIONS = ALLOWED_ACTION_TYPES - {''REQUEST_SNAPSHOT'', ''CONCLUDE_SESSION''}"

definition default_output_tag :: "string \<Rightarrow> string option" where
  "default_output_tag t =
     (if t \<in> CALLER_SUPPLIED_OUTPUT_TAG_ACTIONS then None
      else if t \<in> DECOY_SERVICE_ACTIONS then Some ''DECOY_SERVICE_OUTPUT''
      else Some ''REAL_OS_OUTPUT'')"

datatype sandbox_error =
    SandboxNotFoundError string
  | StateVersionConflictError string int int

record pending_action =
  pa_action_id :: string
  pa_command_id :: string
  pa_sandbox_id :: string
  pa_case_id :: string
  pa_action_type :: string
  pa_action_params :: json
  pa_expected_version :: int
  pa_issued_by :: string
  pa_policy_decision_id :: string

section \<open>Sandbox instances\<close>

definition ensure_sandbox_instance ::
  "string \<Rightarrow> string \<Rightarrow> string \<Rightarrow> string option \<Rightarrow> db \<Rightarrow> (sandbox_error svc_error + int) \<times> db" where
  "ensure_sandbox_instance sid cid img net d =
     (case lookup_by sb_sandbox_id (sandboxes d) sid of
        Some r \<Rightarrow> (Inr (sb_state_version r),
          d\<lparr>sandboxes := update_where (\<lambda>q. sb_sandbox_id q = sid) (\<lambda>q. q\<lparr>sb_network_identity := net\<rparr>) (sandboxes d)\<rparr>)
      | None \<Rightarrow>
          if cid \<notin> case_id ` set (cases d) then (Inl (Db (ForeignKeyViolation ''sandbox_instances'')), d)
          else (Inr 0, d\<lparr>sandboxes := sandboxes d @ [\<lparr>sb_sandbox_id = sid, sb_case_id = cid, sb_image_id = img,
                  sb_state_version = 0, sb_network_identity = net\<rparr>]\<rparr>))"

section \<open>Opening a command\<close>

record open_args =
  op_sandbox_id :: string
  op_case_id :: string
  op_action_type :: string
  op_action_params :: json
  op_expected_version :: int
  op_issued_by :: string
  op_policy_decision_id :: "string option"

definition insert_action :: "string option \<Rightarrow> action_row \<Rightarrow> db \<Rightarrow> 'e svc_error + db" where
  "insert_action given_policy r d =
     (if ac_action_type r \<notin> ALLOWED_ACTION_TYPES \<or> ac_issued_by r \<notin> {''AI'', ''ANALYST'', ''SYSTEM''} \<or>
         (case given_policy of None \<Rightarrow> False | Some p \<Rightarrow> p \<noteq> [] \<and> \<not> canonical_ulid p)
        then Inl (Db (CheckViolation ''sandbox_actions''))
      else if ac_action_id r \<in> ac_action_id ` set (actions d) \<or> ac_command_id r \<in> ac_command_id ` set (actions d)
        then Inl (Db (UniqueViolation ''sandbox_actions''))
      else if ac_case_id r \<notin> case_id ` set (cases d) then Inl (Db (ForeignKeyViolation ''sandbox_actions''))
      else Inr (d\<lparr>actions := actions d @ [r]\<rparr>))"

definition command_envelope :: "pending_action \<Rightarrow> json" where
  "command_envelope p = JObj
     [(''command_id'', JStr (pa_command_id p)), (''command_type'', JStr ''sandbox.command''),
      (''schema_version'', JStr ''1.0''), (''case_id'', JStr (pa_case_id p)), (''sandbox_id'', JStr (pa_sandbox_id p)),
      (''expected_state_version'', JInt (pa_expected_version p)), (''issued_by'', JStr (pa_issued_by p)),
      (''policy_decision_id'', JStr (pa_policy_decision_id p)),
      (''params'', JObj [(''action_type'', JStr (pa_action_type p)), (''action_params'', pa_action_params p)])]"

definition new_pending :: "env \<Rightarrow> open_args \<Rightarrow> pending_action" where
  "new_pending e a =
     \<lparr>pa_action_id = env_ids e 0, pa_command_id = env_ids e 1, pa_sandbox_id = op_sandbox_id a, pa_case_id = op_case_id a,
      pa_action_type = op_action_type a, pa_action_params = op_action_params a,
      pa_expected_version = op_expected_version a, pa_issued_by = op_issued_by a,
      pa_policy_decision_id = py_or (op_policy_decision_id a) (env_ids e 2)\<rparr>"

definition pending_row :: "pending_action \<Rightarrow> action_row" where
  "pending_row p =
     \<lparr>ac_action_id = pa_action_id p, ac_command_id = pa_command_id p, ac_sandbox_id = pa_sandbox_id p,
      ac_case_id = pa_case_id p, ac_action_type = pa_action_type p, ac_action_params = pa_action_params p,
      ac_expected_version = pa_expected_version p, ac_issued_by = pa_issued_by p,
      ac_policy_decision_id = pa_policy_decision_id p, ac_status = ''PENDING'', ac_output_tag = None,
      ac_rollback_action_id = None, ac_error_detail = None, ac_completed_at = None\<rparr>"

definition open_pending_action ::
  "env \<Rightarrow> open_args \<Rightarrow> db \<Rightarrow> (sandbox_error svc_error + pending_action) \<times> db" where
  "open_pending_action e a d =
     (case lookup_by sb_sandbox_id (sandboxes d) (op_sandbox_id a) of
        None \<Rightarrow> (Inl (App (SandboxNotFoundError (op_sandbox_id a))), d)
      | Some row \<Rightarrow>
          if sb_state_version row \<noteq> op_expected_version a
          then (Inl (App (StateVersionConflictError (op_sandbox_id a) (op_expected_version a) (sb_state_version row))), d)
          else
            let p = new_pending e a in
            (case insert_action (op_policy_decision_id a) (pending_row p) d of
               Inl err \<Rightarrow> (Inl err, d)
             | Inr d1 \<Rightarrow>
                 (case subject_for_command_type ''sandbox.command'' of
                    Inl err \<Rightarrow> (Inl (Contract err), d1)
                  | Inr topic \<Rightarrow>
                      (case insert_outbox (env_now e) (pa_command_id p) topic (command_envelope p) d1 of
                         Inl err \<Rightarrow> (Inl err, d1)
                       | Inr d2 \<Rightarrow> (Inr p, d2)))))"

section \<open>Recording its result\<close>

record action_result =
  ar_status :: string
  ar_output_tag :: "string option"
  ar_rollback_action_id :: "string option"
  ar_error_detail :: "string option"

text \<open>The CHECKs bind \<^verbatim>\<open>PENDING\<close> to an empty completion time, so a result is one of the final statuses.\<close>

definition FINAL_STATUSES :: "string set" where
  "FINAL_STATUSES = {''SUCCESS'', ''FAILED'', ''REJECTED'', ''TIMEOUT'', ''ROLLED_BACK''}"

definition complete_row :: "timestamp \<Rightarrow> action_result \<Rightarrow> action_row \<Rightarrow> action_row" where
  "complete_row now r q = q\<lparr>ac_status := ar_status r, ac_output_tag := ar_output_tag r,
     ac_rollback_action_id := ar_rollback_action_id r, ac_error_detail := ar_error_detail r, ac_completed_at := Some now\<rparr>"

definition complete_action :: "timestamp \<Rightarrow> string \<Rightarrow> action_result \<Rightarrow> db \<Rightarrow> 'e svc_error + db" where
  "complete_action now aid r d =
     (if aid \<notin> ac_action_id ` set (actions d) then Inr d
      else if ar_status r \<notin> FINAL_STATUSES \<or> (case ar_output_tag r of None \<Rightarrow> False | Some t \<Rightarrow> t \<notin> OUTPUT_TAGS)
        then Inl (Db (CheckViolation ''sandbox_actions''))
      else if (case ar_rollback_action_id r of None \<Rightarrow> False | Some k \<Rightarrow> k \<notin> ac_action_id ` set (actions d))
        then Inl (Db (ForeignKeyViolation ''sandbox_actions''))
      else Inr (d\<lparr>actions := update_where (\<lambda>q. ac_action_id q = aid) (complete_row now r) (actions d)\<rparr>))"

definition mutates :: "pending_action \<Rightarrow> action_result \<Rightarrow> bool" where
  "mutates p r = (ar_status r = ''SUCCESS'' \<and> pa_action_type p \<in> STATE_MUTATING_ACTIONS)"

definition new_state_version :: "pending_action \<Rightarrow> action_result \<Rightarrow> int" where
  "new_state_version p r = (if mutates p r then pa_expected_version p + 1 else pa_expected_version p)"

definition at_expected :: "pending_action \<Rightarrow> sandbox_row \<Rightarrow> bool" where
  "at_expected p q = (sb_sandbox_id q = pa_sandbox_id p \<and> sb_state_version q = pa_expected_version p)"

definition bump_version :: "pending_action \<Rightarrow> action_result \<Rightarrow> db \<Rightarrow> db" where
  "bump_version p r d =
     (if mutates p r
      then d\<lparr>sandboxes := update_where (at_expected p) (\<lambda>q. q\<lparr>sb_state_version := pa_expected_version p + 1\<rparr>) (sandboxes d)\<rparr>
      else d)"

definition result_event_args :: "pending_action \<Rightarrow> action_result \<Rightarrow> build_args" where
  "result_event_args p r =
     \<lparr>be_event_type = ''sandbox.command_result'', be_schema_version = ''1.0'',
      be_payload = JObj
        [(''command_id'', JStr (pa_command_id p)), (''command_type'', JStr ''sandbox.command''),
         (''status'', JStr (ar_status r)), (''output_tag'', JStr (py_or (ar_output_tag r) ''REAL_OS_OUTPUT'')),
         (''journal_entry_id'', JStr (pa_action_id p)), (''rollback_action_id'', jopt (ar_rollback_action_id r)),
         (''error_detail'', jopt (ar_error_detail r))],
      be_source_id = ''mirage-sandbox-gateway'', be_sequence = new_state_version p r,
      be_actor_type = ''SYSTEM'', be_classification = ''EVIDENCE'',
      be_case_id = Some (pa_case_id p), be_session_id = None, be_event_id = None, be_event_time = None\<rparr>"

definition result_audit_row :: "pending_action \<Rightarrow> action_result \<Rightarrow> audit_row" where
  "result_audit_row p r =
     \<lparr>au_actor = ''mirage-sandbox-gateway'', au_actor_type = ''SYSTEM'',
      au_action = ''sandbox_action.'' @ str_lower (pa_action_type p) @ ''.'' @ str_lower (ar_status r),
      au_target = pa_sandbox_id p, au_outcome = (if ar_status r = ''SUCCESS'' then ''SUCCESS'' else ''FAILURE''),
      au_correlation_id = pa_command_id p, au_detail = py_or (ar_error_detail r) []\<rparr>"

text \<open>An UPDATE of the deployments that hands its first row's artifact to an UPDATE of the artifacts.\<close>

definition settle_deployment ::
  "(deployment_row \<Rightarrow> bool) \<Rightarrow> (deployment_row \<Rightarrow> deployment_row) \<Rightarrow> (artifact_row \<Rightarrow> artifact_row) \<Rightarrow> db \<Rightarrow> db" where
  "settle_deployment P f g d =
     (case find P (deployments d) of
        None \<Rightarrow> d
      | Some r \<Rightarrow> d\<lparr>deployments := update_where P f (deployments d),
                    artifacts := update_where (\<lambda>a. ar_artifact_id a = dp_artifact_id r) g (artifacts d)\<rparr>)"

definition settle_artifacts :: "timestamp \<Rightarrow> pending_action \<Rightarrow> action_result \<Rightarrow> db \<Rightarrow> db" where
  "settle_artifacts now p r d =
     (let ok = (ar_status r = ''SUCCESS'') in
      if pa_action_type p = ''PLACE_ARTIFACT'' then
        let st = (if ok then ''DEPLOYED'' else ''FAILED'') in
        settle_deployment (\<lambda>q. dp_sandbox_action_id q = pa_action_id p)
          (\<lambda>q. q\<lparr>dp_status := st, dp_observed_sha256 := (if ok then Some (dp_expected_sha256 q) else None),
                  dp_rollback_action_id := ar_rollback_action_id r, dp_completed_at := Some now\<rparr>)
          (\<lambda>a. a\<lparr>ar_deployment_status := st, ar_deployed_at := (if ok then Some now else ar_deployed_at a)\<rparr>) d
      else if pa_action_type p = ''ROLLBACK_ACTION'' then
        let st = (if ok then ''REVOKED'' else ''ROLLBACK_FAILED'') in
        settle_deployment (\<lambda>q. dp_rollback_action_id q = Some (pa_action_id p) \<and> dp_status q = ''ROLLBACK_PENDING'')
          (\<lambda>q. q\<lparr>dp_status := st, dp_completed_at := Some now\<rparr>)
          (\<lambda>a. a\<lparr>ar_deployment_status := st, ar_approved := False\<rparr>) d
      else d)"

definition record_action_result ::
  "env \<Rightarrow> pending_action \<Rightarrow> action_result \<Rightarrow> db \<Rightarrow> (sandbox_error svc_error + int) \<times> db" where
  "record_action_result e p r d =
     (case complete_action (env_now e) (pa_action_id p) r d of
        Inl err \<Rightarrow> (Inl err, d)
      | Inr d1 \<Rightarrow>
          let d2 = bump_version p r d1 in
          if mutates p r \<and> row_count (at_expected p) (sandboxes d1) \<noteq> 1
          then (Inl (App (StateVersionConflictError (pa_sandbox_id p) (pa_expected_version p) (pa_expected_version p))), d2)
          else
            (case publish_validated e 0 (result_event_args p r) d2 of
               Inl err \<Rightarrow> (Inl err, d2)
             | Inr d3 \<Rightarrow>
                 (Inr (new_state_version p r),
                  settle_artifacts (env_now e) p r (insert_audit (result_audit_row p r) d3))))"

section \<open>What the two transactions write\<close>

lemma subject_sandbox_command: "subject_for_command_type ''sandbox.command'' = Inr ''sandbox.command''"
  and subject_command_result: "subject_for_event_type ''sandbox.command_result'' = Inr ''sandbox.result''"
  by code_simp+

lemma open_pending_action_ok:
  assumes "open_pending_action e a d = (Inr p, d')"
  shows "p = new_pending e a \<and>
    (\<exists>row. lookup_by sb_sandbox_id (sandboxes d) (op_sandbox_id a) = Some row \<and> sb_state_version row = op_expected_version a) \<and>
    pa_action_id p \<notin> ac_action_id ` set (actions d) \<and> op_action_type a \<in> ALLOWED_ACTION_TYPES \<and>
    actions d' = actions d @ [pending_row p] \<and> sandboxes d' = sandboxes d \<and>
    d'\<lparr>actions := actions d, outbox := outbox d\<rparr> = d"
  using assms
  by (auto simp: open_pending_action_def Let_def insert_action_def pending_row_def new_pending_def
      split: option.splits if_splits sum.splits dest!: insert_outbox_ok)

lemma settle_deployment_frame [frame_simps]:
  "cases (settle_deployment P f g d) = cases d" "transitions (settle_deployment P f g d) = transitions d"
  "audits (settle_deployment P f g d) = audits d" "outbox (settle_deployment P f g d) = outbox d"
  "processed (settle_deployment P f g d) = processed d" "routings (settle_deployment P f g d) = routings d"
  "snapshots (settle_deployment P f g d) = snapshots d" "sandboxes (settle_deployment P f g d) = sandboxes d"
  "actions (settle_deployment P f g d) = actions d"
  by (auto simp: settle_deployment_def split: option.splits)

lemma settle_artifacts_frame [frame_simps]:
  "cases (settle_artifacts now p r d) = cases d" "transitions (settle_artifacts now p r d) = transitions d"
  "audits (settle_artifacts now p r d) = audits d" "outbox (settle_artifacts now p r d) = outbox d"
  "processed (settle_artifacts now p r d) = processed d" "routings (settle_artifacts now p r d) = routings d"
  "snapshots (settle_artifacts now p r d) = snapshots d" "sandboxes (settle_artifacts now p r d) = sandboxes d"
  "actions (settle_artifacts now p r d) = actions d"
  by (simp_all add: settle_artifacts_def Let_def frame_simps)

lemma bump_version_frame [frame_simps]:
  "cases (bump_version p r d) = cases d" "transitions (bump_version p r d) = transitions d"
  "audits (bump_version p r d) = audits d" "outbox (bump_version p r d) = outbox d"
  "actions (bump_version p r d) = actions d" "deployments (bump_version p r d) = deployments d"
  "artifacts (bump_version p r d) = artifacts d"
  by (simp_all add: bump_version_def)

lemma complete_action_ok:
  assumes "complete_action now aid r d = Inr d'"
  shows "d' = d\<lparr>actions := update_where (\<lambda>q. ac_action_id q = aid) (complete_row now r) (actions d)\<rparr>"
proof (cases "aid \<in> ac_action_id ` set (actions d)")
  case True
  with assms show ?thesis by (auto simp: complete_action_def split: if_splits)
next
  case False
  then have "update_where (\<lambda>q. ac_action_id q = aid) (complete_row now r) (actions d) = actions d"
    by (auto simp: update_where_def intro!: map_idI)
  with False assms show ?thesis by (simp add: complete_action_def)
qed

lemma complete_row_id [simp]: "ac_action_id (complete_row now r q) = ac_action_id q"
  by (simp add: complete_row_def)

lemma settle_artifacts_cong:
  assumes "deployments x = deployments y" and "artifacts x = artifacts y"
  shows "deployments (settle_artifacts now p r x) = deployments (settle_artifacts now p r y)"
    and "artifacts (settle_artifacts now p r x) = artifacts (settle_artifacts now p r y)"
  using assms by (simp_all add: settle_artifacts_def settle_deployment_def Let_def split: option.splits)

lemma record_action_result_ok:
  assumes "record_action_result e p r d = (Inr v, d')"
  shows "v = new_state_version p r \<and> (mutates p r \<longrightarrow> row_count (at_expected p) (sandboxes d) = 1) \<and>
    actions d' = update_where (\<lambda>q. ac_action_id q = pa_action_id p) (complete_row (env_now e) r) (actions d) \<and>
    sandboxes d' = (if mutates p r
      then update_where (at_expected p) (\<lambda>q. q\<lparr>sb_state_version := pa_expected_version p + 1\<rparr>) (sandboxes d)
      else sandboxes d) \<and>
    audits d' = audits d @ [result_audit_row p r] \<and>
    outbox d' = outbox d @ [event_row e 0 (result_event_args p r) ''sandbox.result''] \<and>
    cases d' = cases d \<and> transitions d' = transitions d \<and>
    deployments d' = deployments (settle_artifacts (env_now e) p r d) \<and>
    artifacts d' = artifacts (settle_artifacts (env_now e) p r d)"
proof -
  from assms obtain d1 d3 where
    c: "complete_action (env_now e) (pa_action_id p) r d = (Inr d1 :: sandbox_error svc_error + db)" and
    one: "mutates p r \<Longrightarrow> row_count (at_expected p) (sandboxes d1) = 1" and
    pub: "publish_validated e 0 (result_event_args p r) (bump_version p r d1) = (Inr d3 :: sandbox_error svc_error + db)" and
    v: "v = new_state_version p r" and
    d': "d' = settle_artifacts (env_now e) p r (insert_audit (result_audit_row p r) d3)"
    by (auto simp: record_action_result_def Let_def split: sum.splits if_splits)
  have d1: "d1 = d\<lparr>actions := update_where (\<lambda>q. ac_action_id q = pa_action_id p) (complete_row (env_now e) r) (actions d)\<rparr>"
    by (rule complete_action_ok [OF c])
  from publish_validated_ok [OF pub]
  have d3: "d3 = (bump_version p r d1)\<lparr>outbox := outbox d @ [event_row e 0 (result_event_args p r) ''sandbox.result'']\<rparr>"
    by (auto simp: result_event_args_def subject_command_result frame_simps d1)
  have "deployments (insert_audit (result_audit_row p r) d3) = deployments d"
    "artifacts (insert_audit (result_audit_row p r) d3) = artifacts d"
    by (simp_all add: d3 d1 insert_audit_def frame_simps)
  from settle_artifacts_cong [OF this] have "deployments d' = deployments (settle_artifacts (env_now e) p r d)"
    "artifacts d' = artifacts (settle_artifacts (env_now e) p r d)" by (simp_all add: d')
  moreover have "row_count (at_expected p) (sandboxes d) = 1" if "mutates p r" using one [OF that] by (simp add: d1)
  moreover have "sandboxes d' = sandboxes (bump_version p r d1)" by (simp add: d' d3 insert_audit_def frame_simps)
  moreover have "sandboxes (bump_version p r d1) = (if mutates p r
      then update_where (at_expected p) (\<lambda>q. q\<lparr>sb_state_version := pa_expected_version p + 1\<rparr>) (sandboxes d)
      else sandboxes d)" by (simp add: bump_version_def d1)
  moreover have "actions d' = actions d1" "audits d' = audits d @ [result_audit_row p r]"
    "outbox d' = outbox d @ [event_row e 0 (result_event_args p r) ''sandbox.result'']"
    "cases d' = cases d" "transitions d' = transitions d" "actions d1 = update_where (\<lambda>q. ac_action_id q = pa_action_id p) (complete_row (env_now e) r) (actions d)"
    by (simp_all add: d' d3 d1 insert_audit_def frame_simps)
  ultimately show ?thesis using v by metis
qed

section \<open>Optimistic locking\<close>

definition sandbox_ver :: "db \<Rightarrow> string \<Rightarrow> int option" where
  "sandbox_ver d sid = map_option sb_state_version (lookup_by sb_sandbox_id (sandboxes d) sid)"

text \<open>A successful result of a state-mutating command for version v of a sandbox, in its transaction, on a table that
  keeps its primary key.\<close>

definition sandbox_exec ::
  "db \<Rightarrow> string \<Rightarrow> int \<Rightarrow> env \<times> pending_action \<times> action_result \<Rightarrow> int option \<times> db" where
  "sandbox_exec d sid v x = (case x of (e, p, r) \<Rightarrow>
     let p' = p\<lparr>pa_sandbox_id := sid, pa_expected_version := v\<rparr> in
     if \<not> mutates p' r \<or> \<not> distinct (map sb_sandbox_id (sandboxes d)) then (None, d)
     else (case run_tx (record_action_result e p' r) d of (Inl _, d') \<Rightarrow> (None, d') | (Inr n, d') \<Rightarrow> (Some n, d')))"

lemma row_count_lookup:
  assumes "row_count P rows = 1" and "\<And>q. P q \<Longrightarrow> key q = k" and "distinct (map key rows)"
  shows "\<exists>q. lookup_by key rows k = Some q \<and> P q"
proof -
  from assms(1) obtain q where q: "q \<in> set rows" "P q"
    by (metis One_nat_def filter_False length_0_conv row_count_def zero_neq_one)
  with assms(2) have "key q = k" by blast
  moreover have "lookup_by key rows (key q) = Some q"
    using assms(3) q(1) by (induction rows) auto
  ultimately show ?thesis using q(2) by blast
qed

lemma sandbox_ver_bump:
  assumes "mutates p r" and "record_action_result e p r d = (Inr n, d')"
  shows "sandbox_ver d' k = map_option (\<lambda>q. if at_expected p q then pa_expected_version p + 1 else sb_state_version q)
    (lookup_by sb_sandbox_id (sandboxes d) k)"
  using record_action_result_ok [OF assms(2)] assms(1)
  by (cases "lookup_by sb_sandbox_id (sandboxes d) k") (auto simp: sandbox_ver_def)

lemma sandbox_exec_Some:
  assumes "sandbox_exec d sid v (e, p, r) = (Some n, d')"
  shows "mutates (p\<lparr>pa_sandbox_id := sid, pa_expected_version := v\<rparr>) r \<and> distinct (map sb_sandbox_id (sandboxes d)) \<and>
    record_action_result e (p\<lparr>pa_sandbox_id := sid, pa_expected_version := v\<rparr>) r d = (Inr n, d')"
  using assms by (auto simp: sandbox_exec_def Let_def run_tx_def split: if_splits prod.splits sum.splits)

lemma sandbox_exec_None: "sandbox_exec d sid v x = (None, d') \<Longrightarrow> d' = d"
  by (auto simp: sandbox_exec_def Let_def split: if_splits prod.splits sum.splits dest: run_tx_error)

interpretation sandbox_lock: optimistic_store sandbox_ver sandbox_exec
proof
  fix d sid v x n d' assume ex: "sandbox_exec d sid v x = (Some n, d')"
  obtain e p r where x: "x = (e, p, r)" by (cases x) auto
  let ?p = "p\<lparr>pa_sandbox_id := sid, pa_expected_version := v\<rparr>"
  from sandbox_exec_Some [OF ex [unfolded x]] have m: "mutates ?p r" "distinct (map sb_sandbox_id (sandboxes d))"
    and rec: "record_action_result e ?p r d = (Inr n, d')" by auto
  have "row_count (at_expected ?p) (sandboxes d) = 1" using record_action_result_ok [OF rec] m(1) by blast
  from row_count_lookup [OF this _ m(2), of sid] obtain q
    where q: "lookup_by sb_sandbox_id (sandboxes d) sid = Some q" "at_expected ?p q" by (auto simp: at_expected_def)
  with sandbox_ver_bump [OF m(1) rec, of sid] show "sandbox_ver d sid = Some v \<and> sandbox_ver d' sid = Some (v + 1)"
    by (simp add: sandbox_ver_def [of d]) (simp add: at_expected_def)
next
  fix d sid v x d' assume "sandbox_exec d sid v x = (None, d')"
  then show "d' = d" by (rule sandbox_exec_None)
next
  fix d sid v x q d' k assume ex: "sandbox_exec d sid v x = (q, d')" and k: "k \<noteq> sid"
  show "sandbox_ver d' k = sandbox_ver d k"
  proof (cases q)
    case None
    with ex show ?thesis by (auto dest: sandbox_exec_None)
  next
    case (Some n)
    obtain e p r where x: "x = (e, p, r)" by (cases x) auto
    let ?p = "p\<lparr>pa_sandbox_id := sid, pa_expected_version := v\<rparr>"
    from sandbox_exec_Some [OF ex [unfolded x Some]] have m: "mutates ?p r"
      and rec: "record_action_result e ?p r d = (Inr n, d')" by auto
    show ?thesis
    proof (cases "lookup_by sb_sandbox_id (sandboxes d) k")
      case None
      then show ?thesis using sandbox_ver_bump [OF m rec, of k] by (simp add: sandbox_ver_def [of d])
    next
      case (Some r)
      then have "\<not> at_expected ?p r" using k lookup_by_key [OF Some] by (auto simp: at_expected_def)
      with Some show ?thesis using sandbox_ver_bump [OF m rec, of k] by (simp add: sandbox_ver_def [of d])
    qed
  qed
qed

text \<open>Opening a command does not advance the version, so two commands can be open for it; the second result then has no row to update.\<close>

lemma second_result_refused:
  assumes first: "record_action_result e p r d = (Inr n, d')" "mutates p r"
    and second: "pa_sandbox_id p' = pa_sandbox_id p" "pa_expected_version p' = pa_expected_version p" "mutates p' r'"
  shows "\<exists>err. run_tx (record_action_result e' p' r') d' = (Inl err, d')"
proof -
  have "\<not> at_expected p' q" if "q \<in> set (sandboxes d')" for q
    using that record_action_result_ok [OF first(1)] first(2) second(1,2)
    by (auto simp: set_update_where at_expected_def)
  then have none: "row_count (at_expected p') (sandboxes d') = 0" by (simp add: row_count_def filter_empty_conv)
  have "fst (record_action_result e' p' r' d') \<noteq> Inr m" for m
  proof
    assume ok: "fst (record_action_result e' p' r' d') = Inr m"
    obtain t where "record_action_result e' p' r' d' = (Inr m, t)" using ok by (metis prod.collapse)
    from record_action_result_ok [OF this] second(3) none show False by simp
  qed
  then obtain err where "fst (record_action_result e' p' r' d') = Inl err" by (metis sum.exhaust)
  then show ?thesis by (auto simp: run_tx_def split: prod.splits)
qed

lemma record_action_result_progress:
  assumes "complete_action (env_now e) (pa_action_id p) r d = (Inr d1 :: sandbox_error svc_error + db)"
    and "mutates p r \<Longrightarrow> row_count (at_expected p) (sandboxes d1) = 1"
    and "publishable e 0 (result_event_args p r) d"
  shows "\<exists>d'. record_action_result e p r d = (Inr (new_state_version p r), d')"
proof -
  have "publishable e 0 (result_event_args p r) (bump_version p r d1)"
    using assms(3) complete_action_ok [OF assms(1)] by (simp add: publishable_def frame_simps)
  from publishable_ok [OF this] obtain d3 where
    "publish_validated e 0 (result_event_args p r) (bump_version p r d1) = (Inr d3 :: sandbox_error svc_error + db)" by blast
  with assms(1,2) show ?thesis by (auto simp: record_action_result_def Let_def)
qed

section \<open>Properties\<close>

definition sample_sandbox :: sandbox_row where
  "sample_sandbox = \<lparr>sb_sandbox_id = ''S'', sb_case_id = ''C'', sb_image_id = ''win'', sb_state_version = 4, sb_network_identity = None\<rparr>"

definition sample_action :: "string \<Rightarrow> pending_action" where
  "sample_action i = \<lparr>pa_action_id = i, pa_command_id = i, pa_sandbox_id = ''S'', pa_case_id = ''C'',
     pa_action_type = ''PLACE_ARTIFACT'', pa_action_params = JNull, pa_expected_version = 4, pa_issued_by = ''AI'', pa_policy_decision_id = ''P''\<rparr>"

definition sample_result :: action_result where
  "sample_result = \<lparr>ar_status = ''SUCCESS'', ar_output_tag = Some ''REAL_OS_OUTPUT'', ar_rollback_action_id = None, ar_error_detail = None\<rparr>"

definition sample_sandbox_db :: db where
  "sample_sandbox_db = empty_db\<lparr>sandboxes := [sample_sandbox], actions := [pending_row (sample_action ''A''), pending_row (sample_action ''B'')]\<rparr>"

definition sample_sandbox_env :: env where
  "sample_sandbox_env = sample_env [''sandbox.command_result'']"

lemma sample_mutates: "mutates (sample_action i) sample_result"
  by (simp add: mutates_def sample_action_def sample_result_def STATE_MUTATING_ACTIONS_def ALLOWED_ACTION_TYPES_def)

lemma sample_record_ok: "\<exists>d'. record_action_result sample_sandbox_env (sample_action ''A'') sample_result sample_sandbox_db = (Inr 5, d')"
proof -
  have c: "\<exists>d1. complete_action (env_now sample_sandbox_env) (pa_action_id (sample_action ''A'')) sample_result sample_sandbox_db
      = (Inr d1 :: sandbox_error svc_error + db)"
    by (simp add: complete_action_def sample_sandbox_db_def pending_row_def sample_action_def sample_result_def
        FINAL_STATUSES_def OUTPUT_TAGS_def)
  then obtain d1 where c: "complete_action (env_now sample_sandbox_env) (pa_action_id (sample_action ''A'')) sample_result sample_sandbox_db
      = (Inr d1 :: sandbox_error svc_error + db)" by blast
  have "length (canonical_json_bytes (\<lambda>_. ''0.5'') (be_payload (result_event_args (sample_action ''A'') sample_result))) \<le> 900"
    by code_simp
  then have "publishable sample_sandbox_env 0 (result_event_args (sample_action ''A'') sample_result) sample_sandbox_db"
    unfolding sample_sandbox_env_def
    by (intro sample_publishable) (simp_all add: result_event_args_def subject_command_result sample_sandbox_db_def empty_db_def)
  moreover have "row_count (at_expected (sample_action ''A'')) (sandboxes d1) = 1"
    using complete_action_ok [OF c]
    by (simp add: sample_sandbox_db_def row_count_def at_expected_def sample_action_def sample_sandbox_def)
  moreover have "new_state_version (sample_action ''A'') sample_result = 5"
    unfolding new_state_version_def using sample_mutates [of "''A''"] by (simp add: sample_action_def)
  ultimately show ?thesis using record_action_result_progress [OF c] by simp
qed

text \<open>What recording a command's result writes: the command's row gets the result and a completion time and no other
  command changes; the sandbox's version goes from the expected one to the next exactly for a successful
  state-mutating command, and no other sandbox changes; one \<^verbatim>\<open>sandbox.result\<close> event, numbered by the new version, and
  one audit row are added; deployments and artifacts only change for \<^verbatim>\<open>PLACE_ARTIFACT\<close> and \<^verbatim>\<open>ROLLBACK_ACTION\<close>.\<close>

theorem record_action_result_effect:
  assumes "record_action_result e p r d = (Inr v, d')" and "distinct (map sb_sandbox_id (sandboxes d))"
  shows "v = (if ar_status r = ''SUCCESS'' \<and> pa_action_type p \<in> STATE_MUTATING_ACTIONS
              then pa_expected_version p + 1 else pa_expected_version p) \<and>
    (\<forall>k. lookup_by ac_action_id (actions d') k =
       map_option (if k = pa_action_id p then complete_row (env_now e) r else id) (lookup_by ac_action_id (actions d) k)) \<and>
    (if v = pa_expected_version p then sandboxes d' = sandboxes d
     else (\<exists>q. lookup_by sb_sandbox_id (sandboxes d) (pa_sandbox_id p) = Some q \<and> sb_state_version q = pa_expected_version p \<and>
            lookup_by sb_sandbox_id (sandboxes d') (pa_sandbox_id p) = Some (q\<lparr>sb_state_version := v\<rparr>)) \<and>
          (\<forall>k. k \<noteq> pa_sandbox_id p \<longrightarrow> lookup_by sb_sandbox_id (sandboxes d') k = lookup_by sb_sandbox_id (sandboxes d) k)) \<and>
    audits d' = audits d @ [result_audit_row p r] \<and>
    outbox d' = outbox d @ [event_row e 0 (result_event_args p r) ''sandbox.result''] \<and>
    (pa_action_type p \<notin> {''PLACE_ARTIFACT'', ''ROLLBACK_ACTION''} \<longrightarrow>
       deployments d' = deployments d \<and> artifacts d' = artifacts d)"
proof -
  note ok = record_action_result_ok [OF assms(1)]
  have v: "v = (if mutates p r then pa_expected_version p + 1 else pa_expected_version p)"
    using ok by (simp add: new_state_version_def)
  have acts: "lookup_by ac_action_id (actions d') k =
       map_option (if k = pa_action_id p then complete_row (env_now e) r else id) (lookup_by ac_action_id (actions d) k)" for k
    using ok by (cases "lookup_by ac_action_id (actions d) k") (auto dest: lookup_by_key)
  have sand: "if v = pa_expected_version p then sandboxes d' = sandboxes d
     else (\<exists>q. lookup_by sb_sandbox_id (sandboxes d) (pa_sandbox_id p) = Some q \<and> sb_state_version q = pa_expected_version p \<and>
            lookup_by sb_sandbox_id (sandboxes d') (pa_sandbox_id p) = Some (q\<lparr>sb_state_version := v\<rparr>)) \<and>
          (\<forall>k. k \<noteq> pa_sandbox_id p \<longrightarrow> lookup_by sb_sandbox_id (sandboxes d') k = lookup_by sb_sandbox_id (sandboxes d) k)"
  proof (cases "mutates p r")
    case False
    with v ok show ?thesis by simp
  next
    case True
    with ok have "row_count (at_expected p) (sandboxes d) = 1" by blast
    from row_count_lookup [OF this _ assms(2), of "pa_sandbox_id p"] obtain q
      where q: "lookup_by sb_sandbox_id (sandboxes d) (pa_sandbox_id p) = Some q" "at_expected p q"
      by (auto simp: at_expected_def)
    have sb: "sandboxes d' = update_where (at_expected p) (\<lambda>q. q\<lparr>sb_state_version := v\<rparr>) (sandboxes d)"
      using ok True v by simp
    have "lookup_by sb_sandbox_id (sandboxes d') k = lookup_by sb_sandbox_id (sandboxes d) k" if "k \<noteq> pa_sandbox_id p" for k
      using that by (cases "lookup_by sb_sandbox_id (sandboxes d) k") (auto simp: sb at_expected_def dest: lookup_by_key)
    with q True v show ?thesis by (simp add: sb) (simp add: at_expected_def)
  qed
  have "pa_action_type p \<notin> {''PLACE_ARTIFACT'', ''ROLLBACK_ACTION''} \<longrightarrow>
       deployments d' = deployments d \<and> artifacts d' = artifacts d"
    using ok by (simp add: settle_artifacts_def Let_def)
  with v acts sand ok show ?thesis unfolding mutates_def by blast
qed

theorem record_action_result_effect_witness:
  "\<exists>d' :: db. record_action_result sample_sandbox_env (sample_action ''A'') sample_result sample_sandbox_db = (Inr 5, d') \<and>
     map_option ac_status (lookup_by ac_action_id (actions d') ''A'') = Some ''SUCCESS'' \<and>
     map_option ac_status (lookup_by ac_action_id (actions d') ''B'') = Some ''PENDING''"
proof -
  obtain d' where run: "record_action_result sample_sandbox_env (sample_action ''A'') sample_result sample_sandbox_db = (Inr 5, d')"
    using sample_record_ok by blast
  have "distinct (map sb_sandbox_id (sandboxes sample_sandbox_db))" by (simp add: sample_sandbox_db_def)
  from record_action_result_effect [OF run this]
  have "\<forall>k. lookup_by ac_action_id (actions d') k =
       map_option (if k = pa_action_id (sample_action ''A'') then complete_row (env_now sample_sandbox_env) sample_result else id)
         (lookup_by ac_action_id (actions sample_sandbox_db) k)" by blast
  then have "map_option ac_status (lookup_by ac_action_id (actions d') ''A'') = Some ''SUCCESS''"
    "map_option ac_status (lookup_by ac_action_id (actions d') ''B'') = Some ''PENDING''"
    by (simp_all add: sample_sandbox_db_def pending_row_def sample_action_def complete_row_def sample_result_def)
  with run show ?thesis by blast
qed



end
