(* ===== verification/Mirage_Gateway.thy ===== *)
theory Mirage_Gateway
  imports Mirage_Sandbox Mirage_Ingestion
begin

text \<open>
  \<^verbatim>\<open>services/mirage-sandbox-gateway/mirage_sandbox_gateway/app.py\<close> and
  \<^verbatim>\<open>libs/mirage_common/oidc.py\<close>: the sandbox controllers' connections, the
  futures a command waits on, and the handler that issues a command in two
  transactions around that wait. A WebSocket is a number; the future of a
  command is named by its action id, which is generated. What arrives while the
  handler waits is the argument \<open>reply\<close>. Token signatures are checked by the
  parameter \<open>decode\<close>; role claims are arrays of strings, as the realm issues
  them, and any other shape is malformed. The fields of an action request have
  the types the API documents. Other handlers run while one waits:
  \<open>issue_open\<close>, \<open>dispatch_begin\<close>, \<open>dispatch_end\<close> and \<open>issue_close\<close> are the
  atomic parts such an interleaving is made of.
\<close>

section \<open>Bearer tokens (oidc.py)\<close>

datatype oidc_error = TokenInvalidError string | MalformedClaims string

record auth_principal =
  ap_subject :: string
  ap_username :: string
  ap_roles :: "string list"

definition has_any_role :: "auth_principal \<Rightarrow> string list \<Rightarrow> bool" where
  "has_any_role p roles = list_ex (\<lambda>r. r \<in> set roles) (ap_roles p)"

fun json_strings :: "json list \<Rightarrow> string list option" where
  "json_strings [] = Some []"
| "json_strings (JStr s # js) = map_option (Cons s) (json_strings js)"
| "json_strings (_ # js) = None"

definition claim_roles :: "json \<Rightarrow> string list option" where
  "claim_roles claims =
     (case py_get_default (py_get_default claims ''realm_access'' (JObj [])) ''roles'' (JArr []) of
        JArr xs \<Rightarrow> json_strings xs | _ \<Rightarrow> None)"

definition verify :: "(string \<Rightarrow> string + json) \<Rightarrow> string \<Rightarrow> oidc_error + auth_principal" where
  "verify decode token =
     (case decode token of
        Inl err \<Rightarrow> Inl (TokenInvalidError err)
      | Inr claims \<Rightarrow>
          (case (claim_roles claims, jget claims ''sub'') of
             (Some roles, Some (JStr sub)) \<Rightarrow>
               (case py_get_default claims ''preferred_username'' (JStr sub) of
                  JStr u \<Rightarrow> Inr \<lparr>ap_subject = sub, ap_username = u, ap_roles = roles\<rparr>
                | _ \<Rightarrow> Inl (MalformedClaims ''preferred_username''))
           | (None, _) \<Rightarrow> Inl (MalformedClaims ''realm_access'')
           | (_, _) \<Rightarrow> Inl (MalformedClaims ''sub'')))"

text \<open>\<open>Some msg\<close> is the message of the \<^verbatim>\<open>InsufficientRoleError\<close> raised.\<close>

definition require_any_role :: "auth_principal \<Rightarrow> string list \<Rightarrow> string option" where
  "require_any_role p roles =
     (if has_any_role p roles then None
      else Some (''requires one of '' @ py_repr_list (sort (remdups roles)) @ '', token has '' @
                 py_repr_list (sort (remdups (ap_roles p)))))"

definition require_platform_admin ::
  "(string \<Rightarrow> string + json) \<Rightarrow> string option \<Rightarrow> api_error + auth_principal" where
  "require_platform_admin decode creds =
     (case creds of
        None \<Rightarrow> Inl (HTTPException 401 ''missing bearer token'')
      | Some token \<Rightarrow>
          (case verify decode token of
             Inl (TokenInvalidError err) \<Rightarrow> Inl (HTTPException 401 (''invalid token: '' @ err))
           | Inl (MalformedClaims k) \<Rightarrow> Inl (Unhandled (Contract (TypeError k)))
           | Inr p \<Rightarrow> (case require_any_role p [''platform_admin''] of
                          Some msg \<Rightarrow> Inl (HTTPException 403 msg) | None \<Rightarrow> Inr p)))"

section \<open>Connections and futures\<close>

datatype future = Waiting | Done json | Failed string

record gateway =
  live_connections :: "(string \<times> nat) list"
  pending_by_sandbox :: "(string \<times> string list) list"
  futures :: "(string \<times> future) list"

definition empty_gateway :: gateway where
  "empty_gateway = \<lparr>live_connections = [], pending_by_sandbox = [], futures = []\<rparr>"

definition pending_of :: "gateway \<Rightarrow> string \<Rightarrow> string list" where
  "pending_of g sid = (case map_of (pending_by_sandbox g) sid of None \<Rightarrow> [] | Some xs \<Rightarrow> xs)"

definition settle_future :: "string \<Rightarrow> future \<Rightarrow> gateway \<Rightarrow> gateway" where
  "settle_future aid f g =
     (if map_of (futures g) aid = Some Waiting then g\<lparr>futures := AList.update aid f (futures g)\<rparr> else g)"

definition drop_pending :: "string \<Rightarrow> string \<Rightarrow> gateway \<Rightarrow> gateway" where
  "drop_pending sid aid g =
     (case map_of (pending_by_sandbox g) sid of
        None \<Rightarrow> g
      | Some xs \<Rightarrow> g\<lparr>pending_by_sandbox := AList.update sid (removeAll aid xs) (pending_by_sandbox g)\<rparr>)"

datatype ws_outcome = WsClosed nat | WsFailed "unit svc_error" | WsAccepted

definition controller_allowed :: "agent_row list \<Rightarrow> string \<Rightarrow> bool" where
  "controller_allowed agents serial =
     (case lookup_by ag_certificate_serial agents serial of
        None \<Rightarrow> False
      | Some a \<Rightarrow> ag_status a = ''ACTIVE'' \<and> ag_role a = ''ENV_CONTROLLER'')"

definition accept_ws :: "string \<Rightarrow> nat \<Rightarrow> gateway \<Rightarrow> gateway" where
  "accept_ws sid ws g = g\<lparr>live_connections := AList.update sid ws (live_connections g)\<rparr>"

definition sandbox_connect ::
  "string \<Rightarrow> string option \<Rightarrow> string option \<Rightarrow> agent_row list \<Rightarrow> string \<Rightarrow> string \<Rightarrow> string \<Rightarrow> nat \<Rightarrow>
   gateway \<Rightarrow> db \<Rightarrow> ws_outcome \<times> gateway \<times> db" where
  "sandbox_connect secret proxy_auth serial agents sid cid img ws g d =
     (case require_client_certificate_serial proxy_auth serial secret of
        Inl _ \<Rightarrow> (WsClosed 4401, g, d)
      | Inr s \<Rightarrow>
          if \<not> controller_allowed agents s then (WsClosed 4403, g, d)
          else (case run_tx (ensure_sandbox_instance sid cid img None) d of
                  (Inl err, d') \<Rightarrow> (WsFailed (map_svc_error (\<lambda>_. ()) err), g, d')
                | (Inr _, d') \<Rightarrow> (WsAccepted, accept_ws sid ws g, d')))"

text \<open>One frame from the controller of \<open>sid\<close>.\<close>

definition receive_frame :: "string \<Rightarrow> json \<Rightarrow> gateway \<Rightarrow> gateway" where
  "receive_frame sid result g =
     (case py_get result ''action_id'' of
        JStr aid \<Rightarrow>
          if aid = [] \<or> aid \<notin> set (pending_of g sid) then g
          else settle_future aid (Done result) (drop_pending sid aid g)
      | _ \<Rightarrow> g)"

definition disconnect_msg :: "string \<Rightarrow> string" where
  "disconnect_msg sid = ''sandbox '' @ py_repr sid @ '' controller disconnected mid-command''"

definition disconnect :: "string \<Rightarrow> nat \<Rightarrow> gateway \<Rightarrow> gateway" where
  "disconnect sid ws g =
     (let g1 = (if map_of (live_connections g) sid = Some ws
                then g\<lparr>live_connections := AList.delete sid (live_connections g)\<rparr> else g);
          g2 = g1\<lparr>pending_by_sandbox := AList.delete sid (pending_by_sandbox g1)\<rparr> in
      fold (\<lambda>aid. settle_future aid (Failed (disconnect_msg sid))) (pending_of g1 sid) g2)"

section \<open>Dispatching a command\<close>

definition command_frame :: "pending_action \<Rightarrow> json" where
  "command_frame p = JObj
     [(''action_id'', JStr (pa_action_id p)), (''command_id'', JStr (pa_command_id p)), (''case_id'', JStr (pa_case_id p)),
      (''sandbox_id'', JStr (pa_sandbox_id p)), (''expected_state_version'', JInt (pa_expected_version p)),
      (''issued_by'', JStr (pa_issued_by p)), (''policy_decision_id'', JStr (pa_policy_decision_id p)),
      (''action_type'', JStr (pa_action_type p)), (''action_params'', pa_action_params p)]"

text \<open>\<open>None\<close>: no live connection; else the socket the frame goes to, and the future to wait on.\<close>

definition dispatch_begin :: "pending_action \<Rightarrow> gateway \<Rightarrow> (nat \<times> json) option \<times> gateway" where
  "dispatch_begin p g =
     (case map_of (live_connections g) (pa_sandbox_id p) of
        None \<Rightarrow> (None, g)
      | Some ws \<Rightarrow> (Some (ws, command_frame p),
          g\<lparr>pending_by_sandbox := AList.update (pa_sandbox_id p) (removeAll (pa_action_id p) (pending_of g (pa_sandbox_id p)) @ [pa_action_id p])
                                    (pending_by_sandbox g),
            futures := AList.update (pa_action_id p) Waiting (futures g)\<rparr>))"

text \<open>How the wait ended: the future was settled, the timeout fired first, or the send failed.\<close>

datatype wait_end = Settled future | TimedOut | SendFailed string

type_synonym dispatch_result = "string \<times> string option \<times> string option"

fun json_opt :: "json \<Rightarrow> string option option" where
  "json_opt JNull = Some None"
| "json_opt (JStr s) = Some (Some s)"
| "json_opt _ = None"

definition reply_fields :: "json \<Rightarrow> api_error + dispatch_result" where
  "reply_fields j =
     (case jget j ''status'' of
        None \<Rightarrow> Inl (Unhandled (Contract (TypeError ''status'')))
      | Some (JStr st) \<Rightarrow>
          (case (json_opt (py_get j ''output_tag''), json_opt (py_get j ''error_detail'')) of
             (Some tag, Some err) \<Rightarrow> Inr (st, tag, err)
           | _ \<Rightarrow> Inl (Unhandled (Db (DatabaseError ''sandbox_actions''))))
      | Some _ \<Rightarrow> Inl (Unhandled (Db (DatabaseError ''status''))))"

definition dispatch_end :: "wait_end \<Rightarrow> api_error + dispatch_result" where
  "dispatch_end w = (case w of
      Settled (Done j) \<Rightarrow> reply_fields j
    | Settled (Failed msg) \<Rightarrow> Inr (''FAILED'', None, Some msg)
    | Settled Waiting \<Rightarrow> Inr (''TIMEOUT'', None, Some ''no result received from the sandbox controller within the command timeout'')
    | TimedOut \<Rightarrow> Inr (''TIMEOUT'', None, Some ''no result received from the sandbox controller within the command timeout'')
    | SendFailed msg \<Rightarrow> Inr (''FAILED'', None, Some msg))"

definition no_live_controller :: "pending_action \<Rightarrow> dispatch_result" where
  "no_live_controller p = (''FAILED'', None, Some (''no live controller connection for sandbox_id='' @ py_repr (pa_sandbox_id p)))"

definition dispatch_finally :: "pending_action \<Rightarrow> gateway \<Rightarrow> gateway" where
  "dispatch_finally p g = drop_pending (pa_sandbox_id p) (pa_action_id p) g"

section \<open>Issuing a command\<close>

record action_request =
  rq_sandbox_id :: "string option"
  rq_action_type :: "string option"
  rq_expected_version :: "int option"
  rq_issued_by :: "string option"
  rq_action_params :: "(string \<times> json) list"

definition check_request :: "string \<Rightarrow> action_request \<Rightarrow> api_error + open_args" where
  "check_request cid rq =
     (let issued = (case rq_issued_by rq of None \<Rightarrow> ''ANALYST'' | Some i \<Rightarrow> i) in
      case (rq_sandbox_id rq, rq_action_type rq, rq_expected_version rq) of
        (Some sid, Some t, Some v) \<Rightarrow>
          if t \<notin> ALLOWED_ACTION_TYPES then Inl (HTTPException 400 (''unknown action_type: '' @ py_repr t))
          else if issued \<notin> {''AI'', ''ANALYST'', ''SYSTEM''}
          then Inl (HTTPException 400 (''issued_by must be AI/ANALYST/SYSTEM, got '' @ py_repr issued))
          else Inr \<lparr>op_sandbox_id = sid, op_case_id = cid, op_action_type = t, op_action_params = JObj (rq_action_params rq),
                    op_expected_version = v, op_issued_by = issued, op_policy_decision_id = None\<rparr>
      | (None, _, _) \<Rightarrow> Inl (HTTPException 400 ''missing required field: sandbox_id'')
      | (_, None, _) \<Rightarrow> Inl (HTTPException 400 ''missing required field: action_type'')
      | (_, _, None) \<Rightarrow> Inl (HTTPException 400 ''missing required field: expected_state_version''))"

definition sandbox_error_status :: "sandbox_error svc_error \<Rightarrow> api_error" where
  "sandbox_error_status err = (case err of
      App (SandboxNotFoundError sid) \<Rightarrow> HTTPException 404 (''no sandbox_instance with sandbox_id='' @ py_repr sid)
    | App (StateVersionConflictError sid x v) \<Rightarrow>
        HTTPException 409 (''sandbox '' @ py_repr sid @ '': expected_state_version='' @ show_int x @
          '' does not match current state_version='' @ show_int v @ '' (concurrent modification or stale command)'')
    | _ \<Rightarrow> Unhandled (map_svc_error (\<lambda>_. ()) err))"

text \<open>The first transaction, the second one, and the handler around the wait.\<close>

definition issue_open :: "env \<Rightarrow> string \<Rightarrow> action_request \<Rightarrow> db \<Rightarrow> (api_error + pending_action) \<times> db" where
  "issue_open e cid rq d =
     (case check_request cid rq of
        Inl err \<Rightarrow> (Inl err, d)
      | Inr a \<Rightarrow> (case run_tx (open_pending_action e a) d of
                     (Inl err, d') \<Rightarrow> (Inl (sandbox_error_status err), d')
                   | (Inr p, d') \<Rightarrow> (Inr p, d')))"

record issue_response =
  ir_action_id :: string
  ir_command_id :: string
  ir_status :: string
  ir_output_tag :: "string option"
  ir_error_detail :: "string option"
  ir_new_state_version :: int
  ir_rollback_action_id :: json

definition rollback_target :: "pending_action \<Rightarrow> string \<Rightarrow> json" where
  "rollback_target p st =
     (if pa_action_type p = ''ROLLBACK_ACTION'' \<and> st = ''SUCCESS'' then py_get (pa_action_params p) ''target_action_id'' else JNull)"

definition issue_close :: "env \<Rightarrow> pending_action \<Rightarrow> dispatch_result \<Rightarrow> db \<Rightarrow> (api_error + issue_response) \<times> db" where
  "issue_close e p res d = (case res of (st, tag, err) \<Rightarrow>
     case json_opt (rollback_target p st) of
       None \<Rightarrow> (Inl (Unhandled (Db (DatabaseError ''rollback_action_id''))), d)
     | Some rb \<Rightarrow>
         (case run_tx (record_action_result e p \<lparr>ar_status = st, ar_output_tag = tag, ar_rollback_action_id = rb, ar_error_detail = err\<rparr>) d of
            (Inl er, d') \<Rightarrow> (Inl (Unhandled (map_svc_error (\<lambda>_. ()) er)), d')
          | (Inr v, d') \<Rightarrow>
              (Inr \<lparr>ir_action_id = pa_action_id p, ir_command_id = pa_command_id p, ir_status = st, ir_output_tag = tag,
                    ir_error_detail = err, ir_new_state_version = v, ir_rollback_action_id = rollback_target p st\<rparr>, d')))"

definition issue_sandbox_action ::
  "env \<Rightarrow> env \<Rightarrow> (string \<Rightarrow> string + json) \<Rightarrow> string option \<Rightarrow> string \<Rightarrow> action_request \<Rightarrow>
   (pending_action \<Rightarrow> wait_end) \<Rightarrow> gateway \<Rightarrow> db \<Rightarrow> (api_error + issue_response) \<times> gateway \<times> db" where
  "issue_sandbox_action e1 e2 decode creds cid rq reply g d =
     (case require_platform_admin decode creds of
        Inl err \<Rightarrow> (Inl err, g, d)
      | Inr _ \<Rightarrow>
          (case issue_open e1 cid rq d of
             (Inl err, d1) \<Rightarrow> (Inl err, g, d1)
           | (Inr p, d1) \<Rightarrow>
               (case dispatch_begin p g of
                  (None, g1) \<Rightarrow> (case issue_close e2 p (no_live_controller p) d1 of (r, d2) \<Rightarrow> (r, g1, d2))
                | (Some _, g1) \<Rightarrow>
                    (case dispatch_end (reply p) of
                       Inl err \<Rightarrow> (Inl err, dispatch_finally p g1, d1)
                     | Inr res \<Rightarrow> (case issue_close e2 p res d1 of (r, d2) \<Rightarrow> (r, dispatch_finally p g1, d2))))))"

section \<open>Which result a command gets\<close>

datatype gw_event = Connect string nat | Frame string json | Gone string nat | Send pending_action | Return pending_action

fun gw_apply :: "gw_event \<Rightarrow> gateway \<Rightarrow> gateway" where
  "gw_apply (Connect sid ws) g = accept_ws sid ws g"
| "gw_apply (Frame sid j) g = receive_frame sid j g"
| "gw_apply (Gone sid ws) g = disconnect sid ws g"
| "gw_apply (Send p) g = snd (dispatch_begin p g)"
| "gw_apply (Return p) g = dispatch_finally p g"

definition gw_run :: "gw_event list \<Rightarrow> gateway" where
  "gw_run es = fold gw_apply es empty_gateway"

definition done_by :: "gateway \<Rightarrow> string \<Rightarrow> json option" where
  "done_by g aid = (case map_of (futures g) aid of Some (Done j) \<Rightarrow> Some j | _ \<Rightarrow> None)"

lemma pending_of_update [simp]:
  "pending_of (g\<lparr>pending_by_sandbox := AList.update sid xs (pending_by_sandbox g)\<rparr>) k = (if k = sid then xs else pending_of g k)"
  by (simp add: pending_of_def)

lemma pending_of_settle [simp]: "pending_of (settle_future aid f g) sid = pending_of g sid"
  by (simp add: settle_future_def pending_of_def)

lemma pending_of_drop: "set (pending_of (drop_pending sid aid g) k) \<subseteq> set (pending_of g k)"
  by (auto simp: drop_pending_def pending_of_def split: option.splits if_splits)

lemma futures_drop [simp]: "futures (drop_pending sid aid g) = futures g"
  by (simp add: drop_pending_def split: option.splits)

lemma done_by_drop [simp]: "done_by (drop_pending sid aid g) k = done_by g k"
  by (simp add: done_by_def)

lemma done_by_settle_failed [simp]: "done_by (settle_future aid (Failed m) g) k = done_by g k"
  by (auto simp: done_by_def settle_future_def)

lemma pending_of_settle_all [simp]: "pending_of (fold (\<lambda>aid. settle_future aid f) xs g) sid = pending_of g sid"
  by (induction xs arbitrary: g) simp_all

lemma done_by_settle_all [simp]: "done_by (fold (\<lambda>aid. settle_future aid (Failed m)) xs g) k = done_by g k"
  by (induction xs arbitrary: g) simp_all

lemma frame_done:
  assumes "done_by (receive_frame sid j g) aid = Some j'"
  shows "done_by g aid = Some j' \<or> j' = j \<and> py_get j ''action_id'' = JStr aid \<and> aid \<in> set (pending_of g sid)"
  using assms by (auto simp: receive_frame_def done_by_def settle_future_def split: json.splits if_splits)

lemma frame_pending: "set (pending_of (receive_frame sid j g) k) \<subseteq> set (pending_of g k)"
  using pending_of_drop [of sid _ g k] by (auto simp: receive_frame_def split: json.splits)

lemma disconnect_done [simp]: "done_by (disconnect sid ws g) aid = done_by g aid"
  by (simp add: disconnect_def Let_def) (simp add: done_by_def)

lemma disconnect_pending: "set (pending_of (disconnect sid ws g) k) \<subseteq> set (pending_of g k)"
  by (auto simp: disconnect_def Let_def) (auto simp: pending_of_def delete_conv' split: option.splits if_splits)

lemma send_done: "done_by (snd (dispatch_begin p g)) aid = Some j \<Longrightarrow> done_by g aid = Some j"
  by (auto simp: dispatch_begin_def done_by_def split: option.splits if_splits)

lemma send_pending:
  "aid \<in> set (pending_of (snd (dispatch_begin p g)) sid) \<Longrightarrow>
   aid \<in> set (pending_of g sid) \<or> aid = pa_action_id p \<and> sid = pa_sandbox_id p"
  by (auto simp: dispatch_begin_def pending_of_def split: option.splits if_splits)

lemma accept_frame [simp]: "pending_of (accept_ws sid ws g) k = pending_of g k" "done_by (accept_ws sid ws g) aid = done_by g aid"
  by (simp_all add: accept_ws_def pending_of_def done_by_def)

lemma gw_run_snoc: "gw_run (es @ [ev]) = gw_apply ev (gw_run es)"
  by (simp add: gw_run_def)

lemma pending_was_sent:
  "aid \<in> set (pending_of (gw_run es) sid) \<Longrightarrow> \<exists>p. Send p \<in> set es \<and> pa_action_id p = aid \<and> pa_sandbox_id p = sid"
proof (induction es rule: rev_induct)
  case Nil
  then show ?case by (simp add: gw_run_def empty_gateway_def pending_of_def)
next
  case (snoc ev es)
  have "aid \<in> set (pending_of (gw_run es) sid) \<or> (\<exists>p. ev = Send p \<and> pa_action_id p = aid \<and> pa_sandbox_id p = sid)"
  proof (cases ev)
    case (Frame s j)
    then show ?thesis using snoc.prems frame_pending [of s j "gw_run es" sid] by (auto simp: gw_run_snoc)
  next
    case (Gone s ws)
    then show ?thesis using snoc.prems disconnect_pending [of s ws "gw_run es" sid] by (auto simp: gw_run_snoc)
  next
    case (Send p)
    then show ?thesis using snoc.prems send_pending [of aid p "gw_run es" sid] by (auto simp: gw_run_snoc)
  next
    case (Return p)
    then show ?thesis
      using snoc.prems pending_of_drop [of "pa_sandbox_id p" "pa_action_id p" "gw_run es" sid]
      by (auto simp: gw_run_snoc dispatch_finally_def)
  qed (use snoc.prems in \<open>simp add: gw_run_snoc\<close>)
  then show ?case using snoc.IH by auto
qed

lemma gw_run_done:
  "done_by (gw_run es) aid = Some j \<Longrightarrow>
   \<exists>p es1 es2 es3. es = es1 @ Send p # es2 @ Frame (pa_sandbox_id p) j # es3 \<and> pa_action_id p = aid \<and>
     py_get j ''action_id'' = JStr aid"
proof (induction es rule: rev_induct)
  case Nil
  then show ?case by (simp add: gw_run_def empty_gateway_def done_by_def)
next
  case (snoc ev es)
  show ?case
  proof (cases "done_by (gw_run es) aid = Some j")
    case True
    from snoc.IH [OF this] obtain p es1 es2 es3 where
      "es = es1 @ Send p # es2 @ Frame (pa_sandbox_id p) j # es3" "pa_action_id p = aid" "py_get j ''action_id'' = JStr aid" by blast
    then have "es @ [ev] = es1 @ Send p # es2 @ Frame (pa_sandbox_id p) j # (es3 @ [ev]) \<and> pa_action_id p = aid \<and>
      py_get j ''action_id'' = JStr aid" by simp
    then show ?thesis by blast
  next
    case False
    with snoc.prems obtain sid where ev: "ev = Frame sid j" and j: "py_get j ''action_id'' = JStr aid"
      and pend: "aid \<in> set (pending_of (gw_run es) sid)"
      by (cases ev) (auto simp: gw_run_snoc dispatch_finally_def dest: send_done frame_done)
    from pending_was_sent [OF pend] obtain p where p: "Send p \<in> set es" "pa_action_id p = aid" "pa_sandbox_id p = sid" by blast
    from p(1) obtain es1 es2 where "es = es1 @ Send p # es2" by (auto dest: split_list)
    then have "es @ [ev] = es1 @ Send p # es2 @ Frame (pa_sandbox_id p) j # [] \<and> pa_action_id p = aid \<and>
      py_get j ''action_id'' = JStr aid" using ev j p by simp
    then show ?thesis by blast
  qed
qed

section \<open>Two commands open for one version\<close>

lemma issue_open_ok:
  assumes "issue_open e cid rq d = (Inr p, d')"
  shows "\<exists>a. check_request cid rq = Inr a \<and> open_pending_action e a d = (Inr p, d')"
  using assms by (auto simp: issue_open_def run_tx_ok split: sum.splits prod.splits)

lemma check_request_ok:
  "check_request cid rq = Inr a \<Longrightarrow>
   rq_sandbox_id rq = Some (op_sandbox_id a) \<and> rq_action_type rq = Some (op_action_type a) \<and>
   rq_expected_version rq = Some (op_expected_version a)"
  by (auto simp: check_request_def Let_def split: option.splits if_splits)

lemma issue_close_ok:
  assumes "issue_close e p (st, tag, err) d = (Inr resp, d')"
  shows "\<exists>r v. ar_status r = st \<and> record_action_result e p r d = (Inr v, d')"
  using assms by (auto simp: issue_close_def run_tx_ok split: option.splits sum.splits prod.splits) (metis action_result.select_convs(1))

lemma issue_close_refused:
  assumes "\<And>r. ar_status r = st \<Longrightarrow> \<exists>er. run_tx (record_action_result e p r) d = (Inl er, d)"
  shows "\<exists>er. issue_close e p (st, tag, err) d = (Inl (Unhandled er), d)"
proof (cases "json_opt (rollback_target p st)")
  case None
  then show ?thesis by (simp add: issue_close_def)
next
  case (Some rb)
  obtain er where "run_tx (record_action_result e p
     \<lparr>ar_status = st, ar_output_tag = tag, ar_rollback_action_id = rb, ar_error_detail = err\<rparr>) d = (Inl er, d)"
    using assms [of "\<lparr>ar_status = st, ar_output_tag = tag, ar_rollback_action_id = rb, ar_error_detail = err\<rparr>"] by auto
  with Some show ?thesis by (simp add: issue_close_def)
qed

section \<open>Properties\<close>

text \<open>C35. A command is answered only by a frame that carries its own action id and that arrived on its own sandbox's
  connection after it was sent, whatever connections, frames, disconnects and other commands come in between: late,
  foreign and repeated frames never settle it.\<close>

theorem command_result_provenance:
  assumes "map_of (futures (gw_run es)) aid = Some (Done j)"
  shows "\<exists>p es1 es2 es3. es = es1 @ Send p # es2 @ Frame (pa_sandbox_id p) j # es3 \<and> pa_action_id p = aid \<and>
     py_get j ''action_id'' = JStr aid"
  using assms by (intro gw_run_done) (simp add: done_by_def)

theorem command_result_provenance_witness:
  "\<exists>p es1 es2 es3. [Connect ''S'' 7, Send (sample_action ''A''), Frame ''T'' (JObj [(''action_id'', JStr ''A'')]),
       Frame ''S'' (JObj [(''action_id'', JStr ''A''), (''status'', JStr ''SUCCESS'')])] =
     es1 @ Send p # es2 @ Frame (pa_sandbox_id p) (JObj [(''action_id'', JStr ''A''), (''status'', JStr ''SUCCESS'')]) # es3 \<and>
     pa_action_id p = ''A'' \<and> py_get (JObj [(''action_id'', JStr ''A''), (''status'', JStr ''SUCCESS'')]) ''action_id'' = JStr ''A''"
  by (rule command_result_provenance)
    (simp add: gw_run_def empty_gateway_def accept_ws_def dispatch_begin_def receive_frame_def py_get_def pending_of_def
      sample_action_def drop_pending_def settle_future_def)

text \<open>Opening a command checks the state version but does not advance it, so two state-mutating commands can be
  sent to the controller for one version. When both succeed there, the second result cannot be recorded: the
  request fails with an unhandled error, and the command's row says \<^verbatim>\<open>PENDING\<close> for an action that was carried out.\<close>

theorem second_command_stranded:
  assumes "issue_open e1 cid rq d = (Inr p, d1)" and "issue_open e2 cid' rq' d1 = (Inr p', d2)"
    and "rq_sandbox_id rq' = rq_sandbox_id rq"
    and "pa_action_type p \<in> STATE_MUTATING_ACTIONS" and "pa_action_type p' \<in> STATE_MUTATING_ACTIONS"
    and "issue_close e3 p (''SUCCESS'', tag, None) d2 = (Inr resp, d3)"
  shows "(\<exists>err. issue_close e4 p' (''SUCCESS'', tag', None) d3 = (Inl (Unhandled err), d3)) \<and>
    lookup_by ac_action_id (actions d3) (pa_action_id p') = Some (pending_row p')"
proof -
  from issue_open_ok [OF assms(1)] obtain a where a: "check_request cid rq = Inr a" "open_pending_action e1 a d = (Inr p, d1)" by blast
  from issue_open_ok [OF assms(2)] obtain b where b: "check_request cid' rq' = Inr b" "open_pending_action e2 b d1 = (Inr p', d2)" by blast
  note oa = open_pending_action_ok [OF a(2)] and ob = open_pending_action_ok [OF b(2)]
  have sid: "op_sandbox_id b = op_sandbox_id a"
    using check_request_ok [OF a(1)] check_request_ok [OF b(1)] assms(3) by simp
  with oa ob have ver: "op_expected_version b = op_expected_version a" by auto
  have same: "pa_sandbox_id p' = pa_sandbox_id p" "pa_expected_version p' = pa_expected_version p"
    using oa ob sid ver by (simp_all add: new_pending_def)
  from issue_close_ok [OF assms(6)] obtain r v where
    r: "ar_status r = ''SUCCESS''" and rec: "record_action_result e3 p r d2 = (Inr v, d3)" by blast
  have "\<exists>er. run_tx (record_action_result e4 p' r') d3 = (Inl er, d3)" if "ar_status r' = ''SUCCESS''" for r'
    using rec r that assms(4,5) same by (intro second_result_refused) (simp_all add: mutates_def)
  then have "\<exists>err. issue_close e4 p' (''SUCCESS'', tag', None) d3 = (Inl (Unhandled err), d3)" by (rule issue_close_refused)
  moreover have "lookup_by ac_action_id (actions d3) (pa_action_id p') = Some (pending_row p')"
  proof -
    have new: "pa_action_id p' \<notin> ac_action_id ` set (actions d1)" and d2: "actions d2 = actions d1 @ [pending_row p']" using ob by auto
    have "pa_action_id p \<in> ac_action_id ` set (actions d1)" using oa by (simp add: pending_row_def)
    with new have ne: "pa_action_id p' \<noteq> pa_action_id p" by metis
    have "lookup_by ac_action_id (actions d2) (pa_action_id p') = Some (pending_row p')"
      using new by (simp add: d2 lookup_by_None [THEN iffD2] pending_row_def)
    with record_action_result_ok [OF rec] ne show ?thesis by (simp add: pending_row_def)
  qed
  ultimately show ?thesis ..
qed

definition sample_gateway_db :: db where
  "sample_gateway_db = empty_db\<lparr>cases := [\<lparr>case_id = ''C'', case_state = ENGAGING, case_version = 6, severity = ''HIGH'',
     owner = None, correlation_key = None, updated_at = 0\<rparr>], sandboxes := [sample_sandbox]\<rparr>"

definition sample_request :: action_request where
  "sample_request = \<lparr>rq_sandbox_id = Some ''S'', rq_action_type = Some ''SOFT_RESET'', rq_expected_version = Some 4,
     rq_issued_by = None, rq_action_params = []\<rparr>"

lemma sample_open_ok:
  assumes "sandboxes d = [sample_sandbox]" and "case_id ` set (cases d) = {''C''}" and "env_ids e 0 \<notin> ac_action_id ` set (actions d)"
    and "env_ids e 1 \<notin> ac_command_id ` set (actions d)" and "env_ids e 1 \<notin> ob_event_id ` set (outbox d)"
  shows "\<exists>p d'. issue_open e ''C'' sample_request d = (Inr p, d') \<and> pa_action_id p = env_ids e 0 \<and> pa_command_id p = env_ids e 1 \<and>
    pa_action_type p = ''SOFT_RESET'' \<and> pa_case_id p = ''C'' \<and> pa_sandbox_id p = ''S'' \<and> pa_expected_version p = 4 \<and>
    sandboxes d' = sandboxes d \<and> cases d' = cases d \<and> actions d' = actions d @ [pending_row p] \<and>
    map ob_event_id (outbox d') = map ob_event_id (outbox d) @ [env_ids e 1]"
  using assms
  by (simp add: issue_open_def check_request_def sample_request_def ALLOWED_ACTION_TYPES_def run_tx_def open_pending_action_def
      sample_sandbox_def insert_action_def pending_row_def new_pending_def Let_def subject_sandbox_command insert_outbox_def)

theorem second_command_stranded_witness:
  "\<exists>(p' :: pending_action) (d3 :: db) err. issue_close sample_sandbox_env p' (''SUCCESS'', None, None) d3 = (Inl (Unhandled err), d3) \<and>
     map_option ac_status (lookup_by ac_action_id (actions d3) (pa_action_id p')) = Some ''PENDING''"
proof -
  let ?e = "sample_sandbox_env"
  have ids: "env_ids (shift_ids k ?e) n = CHR ''I'' # show_nat (n + k)" "env_ids ?e n = CHR ''I'' # show_nat n" for k n
    by (simp_all add: sample_sandbox_env_def sample_env_def)
  have base: "sandboxes sample_gateway_db = [sample_sandbox]" "case_id ` set (cases sample_gateway_db) = {''C''}"
    "actions sample_gateway_db = []" "outbox sample_gateway_db = []" by (simp_all add: sample_gateway_db_def empty_db_def)
  obtain p d1 where o1: "issue_open (shift_ids 5 ?e) ''C'' sample_request sample_gateway_db = (Inr p, d1)"
    and p: "pa_action_id p = ''I5''" "pa_command_id p = ''I6''" "pa_action_type p = ''SOFT_RESET''" "pa_case_id p = ''C''" "pa_sandbox_id p = ''S''" "pa_expected_version p = 4"
    and d1: "sandboxes d1 = [sample_sandbox]" "cases d1 = cases sample_gateway_db" "actions d1 = [pending_row p]"
      "map ob_event_id (outbox d1) = [''I6'']"
    using sample_open_ok [of sample_gateway_db "shift_ids 5 ?e"] by (auto simp: base ids show_nat.simps digit_char_table)
  have out1: "ob_event_id ` set (outbox d1) = {''I6''}" using d1(4) by (metis list.set_map list.simps(15) list.set(1))
  obtain p' d2 where o2: "issue_open (shift_ids 7 ?e) ''C'' sample_request d1 = (Inr p', d2)"
    and p': "pa_action_id p' = ''I7''" "pa_action_type p' = ''SOFT_RESET''" "pa_command_id p' = ''I8''"
    and d2: "sandboxes d2 = [sample_sandbox]" "actions d2 = [pending_row p, pending_row p']" "map ob_event_id (outbox d2) = [''I6'', ''I8'']"
    using sample_open_ok [of d1 "shift_ids 7 ?e"] by (auto simp: base d1 out1 ids p pending_row_def show_nat.simps digit_char_table)
  have out2: "ob_event_id ` set (outbox d2) = {''I6'', ''I8''}" using d2(3) by (metis list.set_map list.simps(15) list.set(1))
  let ?r = "\<lparr>ar_status = ''SUCCESS'', ar_output_tag = None, ar_rollback_action_id = None, ar_error_detail = None\<rparr>"
  have mut: "''SOFT_RESET'' \<in> STATE_MUTATING_ACTIONS" by (simp add: STATE_MUTATING_ACTIONS_def ALLOWED_ACTION_TYPES_def)
  have c: "\<exists>t. complete_action (env_now ?e) (pa_action_id p) ?r d2 = (Inr t :: sandbox_error svc_error + db)"
    by (simp add: complete_action_def d2 pending_row_def FINAL_STATUSES_def)
  then obtain t where c: "complete_action (env_now ?e) (pa_action_id p) ?r d2 = (Inr t :: sandbox_error svc_error + db)" by blast
  have "length (canonical_json_bytes (\<lambda>_. ''0.5'') (be_payload (result_event_args p ?r))) \<le> 900"
    by (simp only: result_event_args_def p build_args.select_convs) code_simp
  then have "publishable ?e 0 (result_event_args p ?r) d2" unfolding sample_sandbox_env_def
    by (intro sample_publishable) (simp_all add: result_event_args_def subject_command_result out2 show_nat.simps digit_char_table)
  moreover have "row_count (at_expected p) (sandboxes t) = 1"
    using complete_action_ok [OF c] by (simp add: d2 row_count_def at_expected_def p sample_sandbox_def)
  ultimately obtain d3 where "record_action_result ?e p ?r d2 = (Inr (new_state_version p ?r), d3)"
    using record_action_result_progress [OF c] by blast
  then have "\<exists>resp. issue_close ?e p (''SUCCESS'', None, None) d2 = (Inr resp, d3)"
    by (simp add: issue_close_def rollback_target_def p run_tx_def)
  then obtain resp where close: "issue_close ?e p (''SUCCESS'', None, None) d2 = (Inr resp, d3)" by blast
  have "pa_action_type p \<in> STATE_MUTATING_ACTIONS" "pa_action_type p' \<in> STATE_MUTATING_ACTIONS" using mut by (simp_all add: p p')
  from second_command_stranded [OF o1 o2 HOL.refl this close, of ?e None] obtain err where
    "issue_close ?e p' (''SUCCESS'', None, None) d3 = (Inl (Unhandled err), d3)"
    "map_option ac_status (lookup_by ac_action_id (actions d3) (pa_action_id p')) = Some ''PENDING''"
    by (auto simp: pending_row_def)
  then show ?thesis by blast
qed

text \<open>A controller that reconnects can lose its commands to its old connection: when the old socket's handler ends, it
  fails every command pending for the sandbox, also one sent on the new socket, which stays the live connection; the
  request is then recorded as \<^verbatim>\<open>FAILED\<close> while the controller still executes it.\<close>

theorem stale_disconnect_fails_command:
  assumes "dispatch_begin p g = (Some (ws, frame), g')" and "old \<noteq> ws"
  shows "map_of (live_connections (disconnect (pa_sandbox_id p) old g')) (pa_sandbox_id p) = Some ws \<and>
    map_of (futures (disconnect (pa_sandbox_id p) old g')) (pa_action_id p) = Some (Failed (disconnect_msg (pa_sandbox_id p))) \<and>
    receive_frame (pa_sandbox_id p) j (disconnect (pa_sandbox_id p) old g') = disconnect (pa_sandbox_id p) old g'"
proof -
  let ?sid = "pa_sandbox_id p" and ?aid = "pa_action_id p"
  from assms(1) have live: "map_of (live_connections g') ?sid = Some ws" and w: "map_of (futures g') ?aid = Some Waiting"
    and pend: "?aid \<in> set (pending_of g' ?sid)"
    by (auto simp: dispatch_begin_def split: option.splits) (simp add: pending_of_def)
  let ?g2 = "g'\<lparr>pending_by_sandbox := AList.delete ?sid (pending_by_sandbox g')\<rparr>"
  have dis: "disconnect ?sid old g' = fold (\<lambda>aid. settle_future aid (Failed (disconnect_msg ?sid))) (pending_of g' ?sid) ?g2"
    using live assms(2) by (simp add: disconnect_def Let_def)
  have keep: "map_of (futures (fold (\<lambda>aid. settle_future aid (Failed m)) xs h)) k = Some (Failed m')"
    if "map_of (futures h) k = Some (Failed m')" for m m' xs h k
    using that
  proof (induction xs arbitrary: h)
    case (Cons a xs)
    then have "map_of (futures (settle_future a (Failed m) h)) k = Some (Failed m')" by (auto simp: settle_future_def)
    then show ?case using Cons.IH by simp
  qed simp
  have fail: "map_of (futures (fold (\<lambda>aid. settle_future aid (Failed m)) xs h)) k = Some (Failed m)"
    if "k \<in> set xs" "map_of (futures h) k = Some Waiting" for m xs h k
    using that
  proof (induction xs arbitrary: h)
    case (Cons a xs)
    show ?case
    proof (cases "a = k")
      case True
      with Cons.prems have "map_of (futures (settle_future a (Failed m) h)) k = Some (Failed m)" by (simp add: settle_future_def)
      then show ?thesis by (simp add: keep)
    next
      case False
      with Cons show ?thesis by (simp add: settle_future_def)
    qed
  qed simp
  have lives: "live_connections (fold (\<lambda>aid. settle_future aid f) xs h) = live_connections h" for f xs h
    by (induction xs arbitrary: h) (simp_all add: settle_future_def)
  have "pending_of (disconnect ?sid old g') ?sid = []" by (simp add: dis) (simp add: pending_of_def delete_conv')
  then have "receive_frame ?sid j (disconnect ?sid old g') = disconnect ?sid old g'"
    by (simp add: receive_frame_def split: json.splits)
  moreover have "map_of (futures (disconnect ?sid old g')) ?aid = Some (Failed (disconnect_msg ?sid))"
    unfolding dis using pend w by (intro fail) simp_all
  ultimately show ?thesis using live by (simp add: dis lives)
qed

definition reconnected_gateway :: gateway where
  "reconnected_gateway = gw_run [Connect ''S'' 1, Connect ''S'' 2]"

theorem stale_disconnect_fails_command_witness:
  "map_of (futures (disconnect ''S'' 1 (snd (dispatch_begin (sample_action ''A'') reconnected_gateway)))) ''A'' =
     Some (Failed (disconnect_msg ''S''))"
proof -
  have ids: "pa_sandbox_id (sample_action ''A'') = ''S''" "pa_action_id (sample_action ''A'') = ''A''" by (simp_all add: sample_action_def)
  have run: "dispatch_begin (sample_action ''A'') reconnected_gateway =
    (Some (2, command_frame (sample_action ''A'')), snd (dispatch_begin (sample_action ''A'') reconnected_gateway))"
    by (simp add: dispatch_begin_def reconnected_gateway_def gw_run_def empty_gateway_def accept_ws_def ids)
  show ?thesis using stale_disconnect_fails_command [OF run, of 1] by (simp add: ids)
qed

end
