(* ===== verification/Mirage_Controller.thy ===== *)
theory Mirage_Controller
  imports Mirage_Sandbox "HOL-Library.Sublist"
begin

text \<open>
  \<^verbatim>\<open>agents/mirage-env-controller\<close>: the process inside the sandbox that carries
  commands out (\<^verbatim>\<open>actions.py\<close>), its journal (\<^verbatim>\<open>journal.py\<close>) and its command
  loop (\<^verbatim>\<open>service_logic.py\<close>). A handler acts on a file system and keeps
  what it had done when it raises. The file system is a tree of directories and
  regular files under POSIX paths, without symbolic links, and no call fails for
  want of space or permission; times are those set by \<^verbatim>\<open>utime\<close>, creation and
  writes of the file itself. Hashing, base64, URL parsing, HTTP, ISO dates, JSON text
  and tar archives are fields of \<open>host\<close>.
\<close>

section \<open>Paths and files\<close>

type_synonym path = "string list"

datatype node = Dir | File string

record fs =
  nodes :: "path \<Rightarrow> node option"
  times :: "path \<Rightarrow> rat \<times> rat"

record host =
  h_time :: rat
  h_sha256 :: "string \<Rightarrow> string"
  h_b64decode :: "string \<Rightarrow> string option"
  h_urlparse :: "string \<Rightarrow> string \<times> string option"
  h_get :: "string \<Rightarrow> string list \<times> string option"
  h_fromiso :: "string \<Rightarrow> string + rat"
  h_float_repr :: "rat \<Rightarrow> string"
  h_dumps :: "json \<Rightarrow> string"
  h_loads :: "string \<Rightarrow> json option"
  h_tar :: "(string \<times> (path \<Rightarrow> node option)) list \<Rightarrow> string"
  h_untar :: "string \<Rightarrow> string + (path \<Rightarrow> node option)"

datatype exc = RestrictedPathError string | UnapprovedServiceError string | UnknownActionTypeError string | PyError string

definition exc_text :: "exc \<Rightarrow> string" where
  "exc_text x = (case x of RestrictedPathError s \<Rightarrow> s | UnapprovedServiceError s \<Rightarrow> s | UnknownActionTypeError s \<Rightarrow> s | PyError s \<Rightarrow> s)"

definition dotdot :: string where
  "dotdot = ''..''"

definition path_parts :: "string \<Rightarrow> path" where
  "path_parts raw = filter (\<lambda>c. c \<noteq> [] \<and> c \<noteq> ''.'') (split_on (CHR 0x2F) raw)"

definition resolve_path :: "path \<Rightarrow> path" where
  "resolve_path p = foldl (\<lambda>acc c. if c = dotdot then butlast acc else acc @ [c]) [] p"

definition path_str :: "path \<Rightarrow> string" where
  "path_str p = CHR 0x2F # str_join [CHR 0x2F] p"

definition resolve_within_roots :: "json \<Rightarrow> path list \<Rightarrow> exc + path" where
  "resolve_within_roots raw roots =
     (if py_falsy raw then Inl (RestrictedPathError ''empty path'')
      else case raw of
        JStr s \<Rightarrow>
          if hd s \<noteq> CHR 0x2F then Inl (RestrictedPathError (''path must be absolute: '' @ py_repr s))
          else if CHR 0x00 \<in> set s then Inl (PyError ''embedded null byte'')
          else let r = resolve_path (path_parts s) in
            if list_ex (\<lambda>root. prefix (resolve_path root) r) roots then Inr r
            else Inl (RestrictedPathError (py_repr s @ '' resolves outside all approved mutation roots '' @ py_repr_list (map path_str roots)))
      | _ \<Rightarrow> Inl (PyError ''argument should be a str or an os.PathLike object''))"

definition item :: "json \<Rightarrow> string \<Rightarrow> exc + json" where
  "item params k = (case jget params k of None \<Rightarrow> Inl (PyError (py_repr k)) | Some v \<Rightarrow> Inr v)"

definition exists_path :: "fs \<Rightarrow> path \<Rightarrow> bool" where
  "exists_path f p = (nodes f p \<noteq> None)"

definition is_file :: "fs \<Rightarrow> path \<Rightarrow> bool" where
  "is_file f p = (case nodes f p of Some (File _) \<Rightarrow> True | _ \<Rightarrow> False)"

definition mkdir_p :: "host \<Rightarrow> path \<Rightarrow> fs \<Rightarrow> exc + fs" where
  "mkdir_p h p f =
     (if list_ex (is_file f) (prefixes p) then Inl (PyError (''File exists or not a directory: '' @ path_str p))
      else Inr (f\<lparr>nodes := (\<lambda>q. if prefix q p then Some Dir else nodes f q),
                  times := (\<lambda>q. if prefix q p \<and> nodes f q = None then (h_time h, h_time h) else times f q)\<rparr>))"

definition write_file :: "host \<Rightarrow> path \<Rightarrow> string \<Rightarrow> fs \<Rightarrow> exc + fs" where
  "write_file h p c f =
     (if nodes f p = Some Dir \<or> p = [] then Inl (PyError (''Is a directory: '' @ path_str p))
      else if nodes f (butlast p) \<noteq> Some Dir then Inl (PyError (''No such file or directory: '' @ path_str p))
      else Inr (f\<lparr>nodes := (nodes f)(p := Some (File c)),
                  times := (times f)(p := (if nodes f p = None then h_time h else fst (times f p), h_time h))\<rparr>))"

definition read_file :: "path \<Rightarrow> fs \<Rightarrow> exc + string" where
  "read_file p f = (case nodes f p of Some (File c) \<Rightarrow> Inr c
     | Some Dir \<Rightarrow> Inl (PyError (''Is a directory: '' @ path_str p)) | None \<Rightarrow> Inl (PyError (''No such file or directory: '' @ path_str p)))"

definition unlink :: "path \<Rightarrow> fs \<Rightarrow> exc + fs" where
  "unlink p f = (if is_file f p then Inr (f\<lparr>nodes := (nodes f)(p := None)\<rparr>)
     else Inl (PyError (''Is a directory or not there: '' @ path_str p)))"

definition remove_tree :: "path \<Rightarrow> fs \<Rightarrow> fs" where
  "remove_tree p f = f\<lparr>nodes := (\<lambda>q. if prefix p q then None else nodes f q)\<rparr>"

definition rmtree :: "path \<Rightarrow> fs \<Rightarrow> exc + fs" where
  "rmtree p f = (if nodes f p = Some Dir then Inr (remove_tree p f) else Inl (PyError (''Not a directory: '' @ path_str p)))"

definition rename_tree :: "path \<Rightarrow> path \<Rightarrow> fs \<Rightarrow> fs" where
  "rename_tree src dst f =
     f\<lparr>nodes := (\<lambda>q. if prefix dst q then nodes f (src @ drop (length dst) q) else if prefix src q then None else nodes f q),
       times := (\<lambda>q. if prefix dst q then times f (src @ drop (length dst) q) else times f q)\<rparr>"

text \<open>
  \<^verbatim>\<open>os.replace\<close> of a file, and \<^verbatim>\<open>shutil.move\<close>: into an existing directory under the source's name, else to
  the destination itself, over an existing file if the source is a file.
\<close>

definition replace_file :: "path \<Rightarrow> path \<Rightarrow> fs \<Rightarrow> exc + fs" where
  "replace_file src dst f =
     (if nodes f dst = Some Dir then Inl (PyError (''Is a directory: '' @ path_str dst)) else Inr (rename_tree src dst f))"

definition shutil_move :: "path \<Rightarrow> path \<Rightarrow> fs \<Rightarrow> exc + fs" where
  "shutil_move src dst f =
     (if src = dst then Inr f
      else
        let real = (if nodes f dst = Some Dir then dst @ [last src] else dst) in
        if src = [] \<or> nodes f dst = Some Dir \<and> exists_path f real then Inl (PyError (''Destination path already exists: '' @ path_str real))
        else if prefix src real then Inl (PyError (''Cannot move a directory into itself: '' @ path_str real))
        else if nodes f src = Some Dir \<and> is_file f real then Inl (PyError (''File exists: '' @ path_str real))
        else Inr (rename_tree src real f))"

definition time_value :: "host \<Rightarrow> json \<Rightarrow> exc + rat" where
  "time_value h j = (case j of
      JStr s \<Rightarrow> (case h_fromiso h (str_replace1 (CHR ''Z'') ''+00:00'' s) of Inl e \<Rightarrow> Inl (PyError e) | Inr t \<Rightarrow> Inr t)
    | JInt i \<Rightarrow> Inr (of_int i) | JFloat q \<Rightarrow> Inr q | JBool b \<Rightarrow> Inr (if b then 1 else 0)
    | _ \<Rightarrow> Inl (PyError ''utime: a float is required''))"

definition apply_metadata_fields :: "host \<Rightarrow> path \<Rightarrow> json \<Rightarrow> fs \<Rightarrow> exc + fs" where
  "apply_metadata_fields h p flds f =
     (if \<not> exists_path f p then Inl (PyError (''No such file or directory: '' @ path_str p))
      else sbind (time_value h (py_get_default flds ''accessed_time'' (JFloat (fst (times f p))))) (\<lambda>atime.
           sbind (time_value h (py_get_default flds ''modified_time'' (JFloat (snd (times f p))))) (\<lambda>mtime.
           Inr (f\<lparr>times := (times f)(p := (atime, mtime))\<rparr>))))"

section \<open>Decoy services\<close>

definition APPROVED_DECOY_SERVICES :: "(string \<times> string) list" where
  "APPROVED_DECOY_SERVICES =
     [(''decoy-print-spooler'', ''MirageDecoyPrintSpooler''),
      (''decoy-remote-registry'', ''MirageDecoyRemoteRegistry''),
      (''decoy-ftp'', ''MirageDecoyFtp'')]"

definition resolve_approved_service_name :: "string \<Rightarrow> exc + string" where
  "resolve_approved_service_name sid =
     (case map_of APPROVED_DECOY_SERVICES sid of
        Some n \<Rightarrow> Inr n | None \<Rightarrow> Inl (UnapprovedServiceError (py_repr sid @ '' is not an approved decoy service'')))"

definition first_root :: "path list \<Rightarrow> exc + path" where
  "first_root roots = (case roots of [] \<Rightarrow> Inl (PyError ''tuple index out of range'') | r # _ \<Rightarrow> Inr r)"

definition marker_path :: "path list \<Rightarrow> string \<Rightarrow> exc + path" where
  "marker_path roots sid =
     sbind (resolve_approved_service_name sid) (\<lambda>_.
     sbind (first_root roots) (\<lambda>root.
     Inr (resolve_path (root @ [''_decoy_services'', sid @ ''.enabled'']))))"

text \<open>Steps of a handler: a raised exception keeps the file system of that moment.\<close>

type_synonym 'a act = "fs \<Rightarrow> (exc + 'a) \<times> fs"

definition abind :: "'a act \<Rightarrow> ('a \<Rightarrow> 'b act) \<Rightarrow> 'b act" where
  "abind m k f = (case m f of (Inl x, f') \<Rightarrow> (Inl x, f') | (Inr a, f') \<Rightarrow> k a f')"

definition ret :: "'a \<Rightarrow> 'a act" where
  "ret a f = (Inr a, f)"

definition lift :: "exc + 'a \<Rightarrow> 'a act" where
  "lift r f = (r, f)"

definition effect :: "(fs \<Rightarrow> exc + fs) \<Rightarrow> unit act" where
  "effect g f = (case g f of Inl x \<Rightarrow> (Inl x, f) | Inr f' \<Rightarrow> (Inr (), f'))"

definition look :: "(fs \<Rightarrow> exc + 'a) \<Rightarrow> 'a act" where
  "look g f = (g f, f)"

definition marker_enable :: "host \<Rightarrow> path list \<Rightarrow> string \<Rightarrow> json \<Rightarrow> unit act" where
  "marker_enable h roots sid config_profile =
     abind (lift (marker_path roots sid)) (\<lambda>marker.
     abind (effect (mkdir_p h (butlast marker))) (\<lambda>_.
     effect (write_file h marker (h_dumps h (JObj [(''config_profile'', config_profile)])))))"

definition marker_disable :: "host \<Rightarrow> path list \<Rightarrow> string \<Rightarrow> json act" where
  "marker_disable h roots sid =
     abind (lift (marker_path roots sid)) (\<lambda>marker.
     abind (look (\<lambda>f. Inr (exists_path f marker))) (\<lambda>there.
     if \<not> there then ret JNull
     else abind (look (read_file marker)) (\<lambda>c.
          abind (lift (case h_loads h c of None \<Rightarrow> Inl (PyError ''JSONDecodeError'') | Some j \<Rightarrow> Inr (py_get j ''config_profile''))) (\<lambda>profile.
          abind (effect (unlink marker)) (\<lambda>_.
          ret (JObj [(''config_profile'', profile)]))))))"

definition is_enabled :: "path list \<Rightarrow> string \<Rightarrow> fs \<Rightarrow> exc + bool" where
  "is_enabled roots sid f = sbind (marker_path roots sid) (\<lambda>m. Inr (exists_path f m))"

section \<open>The handlers\<close>

text \<open>What undoes an action, as the journal keeps it.\<close>

datatype rollback =
    Noop
  | DeleteFile string
  | DeleteDirectory string
  | MoveFile string string
  | RestoreMetadata string json
  | EnableDecoyService string json
  | DisableDecoyService string

definition resolve_item :: "json \<Rightarrow> string \<Rightarrow> path list \<Rightarrow> exc + path" where
  "resolve_item params k roots = sbind (item params k) (\<lambda>raw. resolve_within_roots raw roots)"

definition temp_path :: "path \<Rightarrow> path" where
  "temp_path p = butlast p @ [''.'' @ last p @ ''.mirage-download'']"

definition MAX_DOWNLOAD_BYTES :: int where
  "MAX_DOWNLOAD_BYTES = 250 * 1024 * 1024"

definition LOCAL_HOSTS :: "string set" where
  "LOCAL_HOSTS = {''localhost'', ''127.0.0.1'', ''host.docker.internal'', ''mirage-api''}"

definition url_allowed :: "host \<Rightarrow> string \<Rightarrow> bool" where
  "url_allowed h url = (let (scheme, hostname) = h_urlparse h url in
     scheme = ''https'' \<or> (scheme = ''http'' \<and> (case hostname of None \<Rightarrow> False | Some n \<Rightarrow> n \<in> LOCAL_HOSTS)))"

text \<open>The body a download yields, or the exception that ends it; the size limit is checked chunk by chunk.\<close>

definition download :: "host \<Rightarrow> string \<Rightarrow> json \<Rightarrow> exc + string" where
  "download h url expected_hash =
     (let (chunks, err) = h_get h url; body = concat chunks in
      if int (length body) > MAX_DOWNLOAD_BYTES then Inl (PyError ''artifact download exceeds 250 MB'')
      else case err of
        Some e \<Rightarrow> Inl (PyError e)
      | None \<Rightarrow>
          if py_falsy expected_hash \<or> \<not> py_eq expected_hash (JStr (h_sha256 h body))
          then Inl (PyError ''downloaded artifact SHA-256 does not match the approved deployment'')
          else Inr body)"

text \<open>Write the download beside the destination and move it there; on any exception remove it.\<close>

definition drop_temp :: "path \<Rightarrow> exc \<Rightarrow> unit act" where
  "drop_temp p x f =
     (if nodes f (temp_path p) = Some Dir then (Inl (PyError (''Is a directory: '' @ path_str (temp_path p))), f)
      else (Inl x, f\<lparr>nodes := (nodes f)(temp_path p := None)\<rparr>))"

definition fetch_to :: "host \<Rightarrow> string \<Rightarrow> json \<Rightarrow> path \<Rightarrow> unit act" where
  "fetch_to h url expected_hash dest f =
     (if dest = [] then (Inl (PyError ''has an empty name''), f)
      else case download h url expected_hash of
        Inl x \<Rightarrow> drop_temp dest x f
      | Inr body \<Rightarrow>
          (case write_file h (temp_path dest) body f of
             Inl x \<Rightarrow> drop_temp dest x f
           | Inr f1 \<Rightarrow> (case replace_file (temp_path dest) dest f1 of
                          Inl x \<Rightarrow> drop_temp dest x f1 | Inr f2 \<Rightarrow> (Inr (), f2))))"

definition py_or_json :: "json \<Rightarrow> json \<Rightarrow> json" where
  "py_or_json a b = (if py_falsy a then b else a)"

definition place_body :: "host \<Rightarrow> json \<Rightarrow> path \<Rightarrow> unit act" where
  "place_body h params dest =
     (let content_b64 = py_get params ''content_b64''; download_url = py_get params ''download_url'';
          expected_hash = py_or_json (py_get params ''expected_sha256'') (py_get params ''expected_hash'') in
      if \<not> py_falsy download_url then
        (case download_url of
           JStr url \<Rightarrow>
             if \<not> url_allowed h url then lift (Inl (PyError ''artifact download URL must use HTTPS outside local development''))
             else abind (effect (mkdir_p h (butlast dest))) (\<lambda>_. fetch_to h url expected_hash dest)
         | _ \<Rightarrow> lift (Inl (PyError ''cannot parse the download URL'')))
      else if content_b64 \<noteq> JNull then
        (case content_b64 of
           JStr s \<Rightarrow>
             (case h_b64decode h s of
                None \<Rightarrow> lift (Inl (PyError ''incorrect base64''))
              | Some content \<Rightarrow>
                  if \<not> py_falsy expected_hash \<and> \<not> py_eq expected_hash (JStr (h_sha256 h content))
                  then lift (Inl (PyError (''expected_hash '' @ py_repr_json (h_float_repr h) expected_hash @ '' does not match computed sha256 '' @
                         py_repr (h_sha256 h content) @ '' '' @ [CHR 0xE2, CHR 0x80, CHR 0x94] @ '' refusing to place'')))
                  else abind (effect (mkdir_p h (butlast dest))) (\<lambda>_. effect (write_file h dest content)))
         | _ \<Rightarrow> lift (Inl (PyError ''argument should be a bytes-like object or ASCII string'')))
      else lift (Inl (PyError ''PLACE_ARTIFACT requires a bounded download_url or content_b64'')))"

definition place_artifact :: "host \<Rightarrow> json \<Rightarrow> path list \<Rightarrow> rollback act" where
  "place_artifact h params roots =
     abind (lift (resolve_item params ''destination'' roots)) (\<lambda>dest.
     abind (place_body h params dest) (\<lambda>_.
     let visible_metadata = py_or_json (py_get params ''visible_metadata'') (JObj []) in
     abind (if py_falsy visible_metadata then ret () else effect (apply_metadata_fields h dest visible_metadata)) (\<lambda>_.
     ret (DeleteFile (path_str dest)))))"

definition move_artifact :: "host \<Rightarrow> json \<Rightarrow> path list \<Rightarrow> rollback act" where
  "move_artifact h params roots =
     abind (lift (resolve_item params ''source'' roots)) (\<lambda>source.
     abind (lift (resolve_item params ''destination'' roots)) (\<lambda>dest.
     abind (look (\<lambda>f. if exists_path f source then Inr () else Inl (PyError (''source does not exist: '' @ path_str source)))) (\<lambda>_.
     abind (effect (mkdir_p h (butlast dest))) (\<lambda>_.
     abind (effect (shutil_move source dest)) (\<lambda>_.
     ret (MoveFile (path_str dest) (path_str source)))))))"

definition create_decoy_directory :: "host \<Rightarrow> json \<Rightarrow> path list \<Rightarrow> rollback act" where
  "create_decoy_directory h params roots =
     abind (lift (resolve_item params ''path'' roots)) (\<lambda>p.
     abind (effect (mkdir_p h p)) (\<lambda>_.
     let profile = py_get params ''metadata_profile'' in
     abind (if py_falsy profile then ret () else effect (write_file h (p @ [''.mirage_metadata_profile.json'']) (h_dumps h profile))) (\<lambda>_.
     ret (DeleteDirectory (path_str p)))))"

text \<open>On the portable host the attribute controller does nothing and returns no prior values.\<close>

definition noop_attributes :: "path \<Rightarrow> json \<Rightarrow> json act" where
  "noop_attributes p flds = ret (JObj [])"

definition change_visible_metadata :: "host \<Rightarrow> (path \<Rightarrow> json \<Rightarrow> json act) \<Rightarrow> json \<Rightarrow> path list \<Rightarrow> rollback act" where
  "change_visible_metadata h attributes params roots =
     abind (lift (resolve_item params ''target'' roots)) (\<lambda>target.
     abind (look (\<lambda>f. if exists_path f target then Inr () else Inl (PyError (''target does not exist: '' @ path_str target)))) (\<lambda>_.
     abind (lift (item params ''approved_fields'')) (\<lambda>approved.
     abind (lift (item params ''prior_state'')) (\<lambda>prior.
     abind (effect (apply_metadata_fields h target approved)) (\<lambda>_.
     abind (attributes target approved) (\<lambda>_.
     ret (RestoreMetadata (path_str target) prior)))))))"

definition display_message :: "host \<Rightarrow> json \<Rightarrow> path list \<Rightarrow> rollback act" where
  "display_message h params roots =
     (let tag = py_get params ''output_tag'' in
      if tag \<notin> {JStr ''AI_GENERATED_INTERACTION'', JStr ''ANALYST_MESSAGE''}
      then lift (Inl (PyError (''DISPLAY_MESSAGE requires output_tag in AI_GENERATED_INTERACTION/ANALYST_MESSAGE, got '' @
             py_repr_json (h_float_repr h) tag)))
      else
        abind (lift (first_root roots)) (\<lambda>root.
        let msgs = resolve_path (root @ [''_messages.log'']) in
        abind (effect (mkdir_p h (butlast msgs))) (\<lambda>_.
        abind (lift (item params ''surface'')) (\<lambda>surface.
        abind (lift (item params ''content'')) (\<lambda>content.
        abind (look (\<lambda>f. if exists_path f msgs then read_file msgs f else Inr [])) (\<lambda>old.
        abind (effect (write_file h msgs (old @ h_dumps h (JObj [(''surface'', surface), (''content'', content),
                         (''output_tag'', tag), (''at'', JFloat (h_time h))]) @ [newline]))) (\<lambda>_.
        ret Noop)))))))"

definition service_item :: "json \<Rightarrow> exc + string" where
  "service_item params =
     sbind (item params ''service_id'') (\<lambda>j. case j of
        JStr s \<Rightarrow> Inr s
      | JArr _ \<Rightarrow> Inl (PyError ''unhashable type'') | JObj _ \<Rightarrow> Inl (PyError ''unhashable type'')
      | _ \<Rightarrow> Inl (UnapprovedServiceError ''not an approved decoy service''))"

definition enable_decoy_service :: "host \<Rightarrow> json \<Rightarrow> path list \<Rightarrow> rollback act" where
  "enable_decoy_service h params roots =
     abind (lift (service_item params)) (\<lambda>sid.
     abind (marker_enable h roots sid (py_get params ''config_profile'')) (\<lambda>_.
     ret (DisableDecoyService sid)))"

definition disable_decoy_service :: "host \<Rightarrow> json \<Rightarrow> path list \<Rightarrow> rollback act" where
  "disable_decoy_service h params roots =
     abind (lift (service_item params)) (\<lambda>sid.
     abind (marker_disable h roots sid) (\<lambda>prior.
     ret (EnableDecoyService sid prior)))"

definition subtree :: "fs \<Rightarrow> path \<Rightarrow> path \<Rightarrow> node option" where
  "subtree f p q = nodes f (p @ q)"

definition request_snapshot :: "host \<Rightarrow> path \<Rightarrow> path list \<Rightarrow> rollback act" where
  "request_snapshot h snapshots_dir roots =
     (let p = snapshots_dir @ [''snapshot-'' @ show_int \<lfloor>h_time h * 1000\<rfloor> @ ''.tar.gz''] in
      abind (effect (mkdir_p h snapshots_dir)) (\<lambda>_.
      abind (look (\<lambda>f. Inr (h_tar h (map (\<lambda>r. (last r, subtree f (resolve_path r)))
                                  (filter (\<lambda>r. exists_path f (resolve_path r)) roots))))) (\<lambda>archive.
      abind (effect (write_file h p archive)) (\<lambda>_.
      ret (DeleteFile (path_str p))))))"

definition conclude_session :: "host \<Rightarrow> path \<Rightarrow> json \<Rightarrow> rollback act" where
  "conclude_session h programdata params =
     (let marker = programdata @ [''session_concluded.json''] in
      abind (effect (mkdir_p h programdata)) (\<lambda>_.
      abind (lift (item params ''reason'')) (\<lambda>reason.
      abind (effect (write_file h marker (h_dumps h (JObj [(''reason'', reason), (''concluded_at'', JFloat (h_time h))])))) (\<lambda>_.
      ret (DeleteFile (path_str marker))))))"

definition test_file_placement :: "host \<Rightarrow> json \<Rightarrow> path list \<Rightarrow> rollback act" where
  "test_file_placement h params roots =
     abind (lift (resolve_item params ''destination'' roots)) (\<lambda>dest.
     abind (effect (mkdir_p h (butlast dest))) (\<lambda>_.
     abind (case py_get_default params ''content'' (JStr ''mirage-self-test'') of
              JStr c \<Rightarrow> effect (write_file h dest c) | _ \<Rightarrow> lift (Inl (PyError ''data must be str''))) (\<lambda>_.
     ret (DeleteFile (path_str dest)))))"

definition test_metadata_update :: "host \<Rightarrow> json \<Rightarrow> path list \<Rightarrow> rollback act" where
  "test_metadata_update h params roots =
     abind (lift (resolve_item params ''target'' roots)) (\<lambda>target.
     abind (look (\<lambda>f. if exists_path f target then Inr (snd (times f target))
                       else Inl (PyError (''target does not exist: '' @ path_str target)))) (\<lambda>mtime.
     abind (lift (item params ''modified_time'')) (\<lambda>t.
     abind (effect (apply_metadata_fields h target (JObj [(''modified_time'', t)]))) (\<lambda>_.
     ret (RestoreMetadata (path_str target) (JObj [(''modified_time'', JFloat mtime)]))))))"

fun wipe_roots :: "host \<Rightarrow> path list \<Rightarrow> unit act" where
  "wipe_roots h [] = ret ()"
| "wipe_roots h (r # roots) =
     abind (look (\<lambda>f. Inr (exists_path f (resolve_path r)))) (\<lambda>there.
     abind (if there then effect (rmtree (resolve_path r)) else ret ()) (\<lambda>_.
     abind (effect (mkdir_p h (resolve_path r))) (\<lambda>_.
     wipe_roots h roots)))"

definition overlay :: "path \<Rightarrow> (path \<Rightarrow> node option) \<Rightarrow> fs \<Rightarrow> fs" where
  "overlay base entries f = f\<lparr>nodes := (\<lambda>q. if prefix base q
     then (case entries (drop (length base) q) of Some n \<Rightarrow> Some n | None \<Rightarrow> nodes f q) else nodes f q)\<rparr>"

definition wipe_and_reseed :: "host \<Rightarrow> path list \<Rightarrow> path option \<Rightarrow> unit act" where
  "wipe_and_reseed h roots baseline =
     abind (wipe_roots h roots) (\<lambda>_.
     case baseline of
       None \<Rightarrow> ret ()
     | Some b \<Rightarrow>
         abind (look (\<lambda>f. Inr (exists_path f b))) (\<lambda>there.
         if \<not> there then ret ()
         else
           abind (look (read_file b)) (\<lambda>archive.
           abind (lift (first_root roots)) (\<lambda>root.
           abind (lift (case h_untar h archive of Inl e \<Rightarrow> Inl (PyError e) | Inr entries \<Rightarrow> Inr entries)) (\<lambda>entries.
           effect (\<lambda>f. Inr (overlay (resolve_path (butlast root)) entries f)))))))"

definition soft_reset :: "host \<Rightarrow> path list \<Rightarrow> path option \<Rightarrow> rollback act" where
  "soft_reset h roots baseline = abind (wipe_and_reseed h roots baseline) (\<lambda>_. ret Noop)"

definition full_rebuild :: "host \<Rightarrow> path \<Rightarrow> path list \<Rightarrow> path option \<Rightarrow> rollback act" where
  "full_rebuild h programdata roots baseline =
     (let marker = programdata @ [''session_concluded.json''] in
      abind (wipe_and_reseed h roots baseline) (\<lambda>_.
      abind (look (\<lambda>f. Inr (exists_path f marker))) (\<lambda>there.
      abind (if there then effect (unlink marker) else ret ()) (\<lambda>_.
      ret Noop))))"

definition clean_shutdown :: "host \<Rightarrow> path \<Rightarrow> json \<Rightarrow> rollback act" where
  "clean_shutdown h programdata params =
     (let marker = programdata @ [''shutdown_requested.json''] in
      abind (effect (mkdir_p h programdata)) (\<lambda>_.
      abind (effect (write_file h marker (h_dumps h (JObj [(''reason'', py_get_default params ''reason'' (JStr [])),
                       (''at'', JFloat (h_time h))])))) (\<lambda>_.
      ret (DeleteFile (path_str marker)))))"

section \<open>Undoing an action\<close>

definition when_there :: "path \<Rightarrow> unit act \<Rightarrow> unit act" where
  "when_there p m = abind (look (\<lambda>f. Inr (exists_path f p))) (\<lambda>there. if there then m else ret ())"

definition apply_rollback_definition :: "host \<Rightarrow> rollback \<Rightarrow> path list \<Rightarrow> unit act" where
  "apply_rollback_definition h r roots = (case r of
      Noop \<Rightarrow> ret ()
    | DeleteFile s \<Rightarrow> abind (lift (resolve_within_roots (JStr s) roots)) (\<lambda>p. when_there p (effect (unlink p)))
    | DeleteDirectory s \<Rightarrow> abind (lift (resolve_within_roots (JStr s) roots)) (\<lambda>p. when_there p (effect (rmtree p)))
    | MoveFile s t \<Rightarrow>
        abind (lift (resolve_within_roots (JStr s) roots)) (\<lambda>source.
        abind (lift (resolve_within_roots (JStr t) roots)) (\<lambda>dest.
        when_there source (abind (effect (mkdir_p h (butlast dest))) (\<lambda>_. effect (shutil_move source dest)))))
    | RestoreMetadata s prior \<Rightarrow>
        abind (lift (resolve_within_roots (JStr s) roots)) (\<lambda>p. when_there p (effect (apply_metadata_fields h p prior)))
    | EnableDecoyService sid prior \<Rightarrow> marker_enable h roots sid prior
    | DisableDecoyService sid \<Rightarrow> abind (marker_disable h roots sid) (\<lambda>_. ret ()))"

section \<open>The journal (journal.py)\<close>

record entry =
  je_action_id :: string
  je_action_type :: string
  je_action_params :: json
  je_rollback :: "rollback option"
  je_status :: string
  je_recorded_at :: string

type_synonym journal = "entry list"

definition journal_record :: "entry \<Rightarrow> journal \<Rightarrow> journal" where
  "journal_record r js = filter (\<lambda>q. je_action_id q \<noteq> je_action_id r) js @ [r]"

definition journal_get :: "string \<Rightarrow> journal \<Rightarrow> entry option" where
  "journal_get aid js = lookup_by je_action_id js aid"

definition mark_status :: "string \<Rightarrow> string \<Rightarrow> journal \<Rightarrow> journal" where
  "mark_status aid st js = update_where (\<lambda>q. je_action_id q = aid) (\<lambda>q. q\<lparr>je_status := st\<rparr>) js"

section \<open>The executor\<close>

record action_outcome =
  oc_status :: string
  oc_output_tag :: "string option"
  oc_rollback :: "rollback option"
  oc_error_detail :: "string option"

record ctx =
  allowed_roots :: "path list"
  programdata :: path
  baseline_snapshot :: "path option"

record controller =
  c_fs :: fs
  c_journal :: journal

definition snapshots_dir :: "ctx \<Rightarrow> path" where
  "snapshots_dir c = programdata c @ [''Snapshots'']"

definition handler :: "host \<Rightarrow> ctx \<Rightarrow> string \<Rightarrow> json \<Rightarrow> rollback act" where
  "handler h c t params =
     (let roots = allowed_roots c in
      if t = ''REQUEST_SNAPSHOT'' then request_snapshot h (snapshots_dir c) roots
      else if t = ''CONCLUDE_SESSION'' then conclude_session h (programdata c) params
      else if t = ''SOFT_RESET'' then soft_reset h roots (baseline_snapshot c)
      else if t = ''FULL_REBUILD'' then full_rebuild h (programdata c) roots (baseline_snapshot c)
      else if t = ''CLEAN_SHUTDOWN'' then clean_shutdown h (programdata c) params
      else if t = ''CHANGE_VISIBLE_METADATA'' then change_visible_metadata h noop_attributes params roots
      else if t = ''ENABLE_DECOY_SERVICE'' then enable_decoy_service h params roots
      else if t = ''DISABLE_DECOY_SERVICE'' then disable_decoy_service h params roots
      else if t = ''PLACE_ARTIFACT'' then place_artifact h params roots
      else if t = ''MOVE_ARTIFACT'' then move_artifact h params roots
      else if t = ''CREATE_DECOY_DIRECTORY'' then create_decoy_directory h params roots
      else if t = ''DISPLAY_MESSAGE'' then display_message h params roots
      else if t = ''TEST_FILE_PLACEMENT'' then test_file_placement h params roots
      else test_metadata_update h params roots)"

definition outcome_tag :: "string \<Rightarrow> json \<Rightarrow> string option" where
  "outcome_tag t params =
     (if t \<in> CALLER_SUPPLIED_OUTPUT_TAG_ACTIONS
      then (case py_get params ''output_tag'' of JStr s \<Rightarrow> Some s | _ \<Rightarrow> None) else default_output_tag t)"

definition execute_rollback_action :: "host \<Rightarrow> ctx \<Rightarrow> json \<Rightarrow> string \<Rightarrow> string \<Rightarrow> controller \<Rightarrow> (exc + action_outcome) \<times> controller" where
  "execute_rollback_action h c params aid at_time s =
     (case item params ''target_action_id'' of
        Inl x \<Rightarrow> (Inl x, s)
      | Inr (JStr target) \<Rightarrow>
          (case journal_get target (c_journal s) of
             None \<Rightarrow> (Inr \<lparr>oc_status = ''REJECTED'', oc_output_tag = None, oc_rollback = None,
                           oc_error_detail = Some (''no journal entry for target_action_id='' @ py_repr target)\<rparr>, s)
           | Some en \<Rightarrow>
               if je_status en \<noteq> ''SUCCESS''
               then (Inr \<lparr>oc_status = ''REJECTED'', oc_output_tag = None, oc_rollback = None,
                          oc_error_detail = Some (''target action '' @ py_repr target @
                            '' is not in SUCCESS state (rollback definition may not exist)'')\<rparr>, s)
               else
                 (case (case je_rollback en of None \<Rightarrow> (Inr (), c_fs s) | Some r \<Rightarrow> apply_rollback_definition h r (allowed_roots c) (c_fs s)) of
                    (Inl x, f) \<Rightarrow>
                      (Inr \<lparr>oc_status = ''FAILED'', oc_output_tag = None, oc_rollback = None, oc_error_detail = Some (exc_text x)\<rparr>,
                       s\<lparr>c_fs := f, c_journal := journal_record \<lparr>je_action_id = aid, je_action_type = ''ROLLBACK_ACTION'',
                           je_action_params = params, je_rollback = None, je_status = ''FAILED'', je_recorded_at = at_time\<rparr> (c_journal s)\<rparr>)
                  | (Inr _, f) \<Rightarrow>
                      (Inr \<lparr>oc_status = ''SUCCESS'', oc_output_tag = default_output_tag ''ROLLBACK_ACTION'',
                            oc_rollback = Some Noop, oc_error_detail = None\<rparr>,
                       s\<lparr>c_fs := f, c_journal := journal_record \<lparr>je_action_id = aid, je_action_type = ''ROLLBACK_ACTION'',
                           je_action_params = params, je_rollback = Some Noop, je_status = ''SUCCESS'', je_recorded_at = at_time\<rparr>
                           (mark_status target ''ROLLED_BACK'' (c_journal s))\<rparr>)))
      | Inr _ \<Rightarrow> (Inl (PyError ''Error binding parameter''), s))"

definition execute_action :: "host \<Rightarrow> ctx \<Rightarrow> string \<Rightarrow> json \<Rightarrow> string \<Rightarrow> string \<Rightarrow> controller \<Rightarrow> (exc + action_outcome) \<times> controller" where
  "execute_action h c t params aid at_time s =
     (if t \<notin> ALLOWED_ACTION_TYPES then (Inl (UnknownActionTypeError t), s)
      else if t = ''ROLLBACK_ACTION'' then execute_rollback_action h c params aid at_time s
      else
        let note = (\<lambda>st rb f. s\<lparr>c_fs := f, c_journal := journal_record \<lparr>je_action_id = aid, je_action_type = t,
                       je_action_params = params, je_rollback = rb, je_status = st, je_recorded_at = at_time\<rparr> (c_journal s)\<rparr>);
            refused = (\<lambda>st x. Inr \<lparr>oc_status = st, oc_output_tag = None, oc_rollback = None, oc_error_detail = Some (exc_text x)\<rparr>) in
        (case handler h c t params (c_fs s) of
           (Inl x, f) \<Rightarrow>
             (case x of
                RestrictedPathError _ \<Rightarrow> (refused ''REJECTED'' x, note ''REJECTED'' None f)
              | UnapprovedServiceError _ \<Rightarrow> (refused ''REJECTED'' x, note ''REJECTED'' None f)
              | _ \<Rightarrow> (refused ''FAILED'' x, note ''FAILED'' None f))
         | (Inr rb, f) \<Rightarrow>
             (Inr \<lparr>oc_status = ''SUCCESS'', oc_output_tag = outcome_tag t params, oc_rollback = Some rb, oc_error_detail = None\<rparr>,
              note ''SUCCESS'' (Some rb) f)))"

section \<open>The command loop (service\_logic.py)\<close>

definition str_item :: "json \<Rightarrow> string \<Rightarrow> exc + string" where
  "str_item j k = sbind (item j k) (\<lambda>v. case v of JStr s \<Rightarrow> Inr s | _ \<Rightarrow> Inl (PyError k))"

definition result_frame :: "string \<Rightarrow> json \<Rightarrow> action_outcome \<Rightarrow> json" where
  "result_frame aid cid oc = JObj [(''action_id'', JStr aid), (''command_id'', cid), (''status'', JStr (oc_status oc)),
     (''output_tag'', jopt (oc_output_tag oc)), (''error_detail'', jopt (oc_error_detail oc))]"

definition execute_command_frame :: "host \<Rightarrow> ctx \<Rightarrow> string \<Rightarrow> json \<Rightarrow> controller \<Rightarrow> (exc + json) \<times> controller" where
  "execute_command_frame h c now_text frame s =
     (case (str_item frame ''action_type'', str_item frame ''action_id'') of
        (Inl x, _) \<Rightarrow> (Inl x, s)
      | (_, Inl x) \<Rightarrow> (Inl x, s)
      | (Inr t, Inr aid) \<Rightarrow>
          (case execute_action h c t (py_or_json (py_get frame ''action_params'') (JObj [])) aid now_text s of
             (Inl x, s') \<Rightarrow> (Inl x, s')
           | (Inr oc, s') \<Rightarrow>
               (case item frame ''command_id'' of Inl x \<Rightarrow> (Inl x, s') | Inr cid \<Rightarrow> (Inr (result_frame aid cid oc), s'))))"

text \<open>Frames in order of arrival, each with its host and time; the answers sent, and how the loop ended.\<close>

fun connect_and_serve ::
  "ctx \<Rightarrow> nat option \<Rightarrow> nat \<Rightarrow> (host \<times> string \<times> json) list \<Rightarrow> controller \<Rightarrow> (exc + nat) \<times> json list \<times> controller" where
  "connect_and_serve c max_commands n [] s = (Inr n, [], s)"
| "connect_and_serve c max_commands n ((h, now_text, frame) # frames) s =
     (case execute_command_frame h c now_text frame s of
        (Inl x, s') \<Rightarrow> (Inl x, [], s')
      | (Inr res, s') \<Rightarrow>
          if (case max_commands of None \<Rightarrow> False | Some k \<Rightarrow> k \<le> n + 1) then (Inr (n + 1), [res], s')
          else (case connect_and_serve c max_commands (n + 1) frames s' of (r, ress, s'') \<Rightarrow> (r, res # ress, s'')))"

section \<open>Resolved paths\<close>

definition clean :: "path \<Rightarrow> bool" where
  "clean p = list_all (\<lambda>c. c \<noteq> [] \<and> c \<noteq> ''.'' \<and> c \<noteq> dotdot \<and> CHR 0x2F \<notin> set c \<and> CHR 0x00 \<notin> set c) p"

lemma clean_butlast: "clean p \<Longrightarrow> clean (butlast p)"
  by (auto simp: clean_def list_all_iff dest: in_set_butlastD)

lemma resolve_snoc: "resolve_path (p @ [c]) = (if c = dotdot then butlast (resolve_path p) else resolve_path p @ [c])"
  by (simp add: resolve_path_def)

lemma resolve_set: "set (resolve_path p) \<subseteq> set p - {dotdot}"
  by (induction p rule: rev_induct) (auto simp: resolve_snoc dest: in_set_butlastD, simp_all add: resolve_path_def)

lemma resolve_append: "dotdot \<notin> set q \<Longrightarrow> resolve_path (p @ q) = resolve_path p @ q"
proof (induction q rule: rev_induct)
  case (snoc c q)
  then show ?case by (auto simp: resolve_snoc simp flip: append_assoc)
qed simp

lemma resolve_clean: "clean p \<Longrightarrow> resolve_path p = p"
  using resolve_append [of p "[]"] by (auto simp: clean_def list_all_iff resolve_path_def)

lemma path_parts_chars: "c \<in> set (path_parts s) \<Longrightarrow> set c \<subseteq> set s - {CHR 0x2F} \<and> c \<noteq> [] \<and> c \<noteq> ''.''"
proof -
  have "w \<in> set (split_on d s) \<Longrightarrow> set w \<subseteq> set s" for w d
    by (induction s arbitrary: w) (auto split: list.splits if_splits, blast+)
  then show "c \<in> set (path_parts s) \<Longrightarrow> set c \<subseteq> set s - {CHR 0x2F} \<and> c \<noteq> [] \<and> c \<noteq> ''.''"
    using split_on_no_sep_parts [of c "CHR 0x2F" s] by (auto simp: path_parts_def)
qed

lemma clean_resolved: "CHR 0x00 \<notin> set s \<Longrightarrow> clean (resolve_path (path_parts s))"
  using resolve_set [of "path_parts s"] path_parts_chars [of _ s] by (auto simp: clean_def list_all_iff)

lemma path_parts_str: "clean p \<Longrightarrow> path_parts (path_str p) = p"
proof (cases "p = []")
  case True
  then show ?thesis by (simp add: path_parts_def path_str_def)
next
  case False
  assume c: "clean p"
  then have "split_on (CHR 0x2F) (str_join [CHR 0x2F] p) = p"
    using False by (intro split_on_join) (auto simp: clean_def list_all_iff)
  then show ?thesis using c by (auto simp: path_parts_def path_str_def clean_def list_all_iff filter_id_conv)
qed

lemma path_str_chars: "clean p \<Longrightarrow> CHR 0x00 \<notin> set (path_str p)"
proof -
  have "set (str_join [CHR 0x2F] p) \<subseteq> insert (CHR 0x2F) (\<Union> (set ` set p))"
    by (induction "[CHR 0x2F]" p rule: str_join.induct) auto
  then show "clean p \<Longrightarrow> CHR 0x00 \<notin> set (path_str p)" by (auto simp: path_str_def clean_def list_all_iff)
qed

lemma resolve_within_roots_ok:
  assumes "resolve_within_roots raw roots = Inr p"
  shows "clean p \<and> (\<exists>r \<in> set roots. prefix (resolve_path r) p)"
  using assms
  by (auto simp: resolve_within_roots_def Let_def list_ex_iff clean_resolved split: if_splits json.splits)

text \<open>A resolved path, printed and resolved again, is the same path: what a rollback definition relies on.\<close>

lemma resolve_printed:
  assumes "clean p" and "r \<in> set roots" and "prefix (resolve_path r) p"
  shows "resolve_within_roots (JStr (path_str p)) roots = Inr p"
  using assms path_str_chars [OF assms(1)]
  by (auto simp: resolve_within_roots_def Let_def py_falsy_def path_parts_str resolve_clean list_ex_iff)
    (simp_all add: path_str_def)

lemma resolve_again: "resolve_within_roots raw roots = Inr p \<Longrightarrow> resolve_within_roots (JStr (path_str p)) roots = Inr p"
  using resolve_within_roots_ok resolve_printed by blast

lemma resolve_item_ok: "resolve_item params k roots = Inr p \<Longrightarrow> \<exists>raw. resolve_within_roots raw roots = Inr p"
  by (auto simp: resolve_item_def sbind_Inr)

section \<open>Confinement\<close>

text \<open>
  A step is confined to a set of paths when outside it nothing changes but missing
  directories that get created (the ancestors of a path written to).
\<close>

definition confined :: "path set \<Rightarrow> fs \<Rightarrow> fs \<Rightarrow> bool" where
  "confined Z f f' = (\<forall>x. x \<notin> Z \<longrightarrow> nodes f' x = nodes f x \<or> nodes f x = None \<and> nodes f' x = Some Dir)"

definition act_confined :: "path set \<Rightarrow> 'a act \<Rightarrow> bool" where
  "act_confined Z m = (\<forall>f. confined Z f (snd (m f)))"

named_theorems confine \<open>confinement of the steps of a handler\<close>

lemma confined_refl [simp]: "confined Z f f"
  by (simp add: confined_def)

lemma confined_trans: "confined Z f g \<Longrightarrow> confined Z g h \<Longrightarrow> confined Z f h"
  unfolding confined_def by (metis option.distinct(1))

lemma act_confined_abind_lift [confine]:
  "(\<And>a. r = Inr a \<Longrightarrow> act_confined Z (k a)) \<Longrightarrow> act_confined Z (abind (lift r) k)"
  by (auto simp: act_confined_def abind_def lift_def split: sum.splits)

lemma act_confined_abind:
  "act_confined Z m \<Longrightarrow> (\<And>a. act_confined Z (k a)) \<Longrightarrow> act_confined Z (abind m k)"
  unfolding act_confined_def abind_def
  by (auto split: sum.splits prod.splits) (metis confined_trans snd_conv)+

lemma act_confined_basic [confine]:
  "act_confined Z (ret a)" "act_confined Z (lift r)" "act_confined Z (look g)"
  by (simp_all add: act_confined_def ret_def lift_def look_def)

lemma act_confined_effect: "(\<And>f f'. g f = Inr f' \<Longrightarrow> confined Z f f') \<Longrightarrow> act_confined Z (effect g)"
  by (auto simp: act_confined_def effect_def split: sum.splits)

lemma mkdir_confined [confine]: "act_confined Z (effect (mkdir_p h p))"
proof (rule act_confined_effect)
  fix f f' assume run: "mkdir_p h p f = Inr f'"
  then have f': "nodes f' = (\<lambda>q. if prefix q p then Some Dir else nodes f q)" and no: "\<not> list_ex (is_file f) (prefixes p)"
    by (auto simp: mkdir_p_def split: if_splits)
  have "nodes f q = None \<or> nodes f q = Some Dir" if "prefix q p" for q
  proof -
    have "\<not> is_file f q" using no that by (simp add: list_ex_iff)
    then show ?thesis by (auto simp: is_file_def split: option.splits node.splits)
  qed
  then show "confined Z f f'" unfolding confined_def f' by metis
qed

lemma write_confined [confine]: "p \<in> Z \<Longrightarrow> act_confined Z (effect (write_file h p c))"
  by (rule act_confined_effect) (auto simp: write_file_def confined_def split: if_splits)

lemma unlink_confined [confine]: "p \<in> Z \<Longrightarrow> act_confined Z (effect (unlink p))"
  by (rule act_confined_effect) (auto simp: unlink_def confined_def split: if_splits)

lemma metadata_confined [confine]: "act_confined Z (effect (apply_metadata_fields h p j))"
  by (rule act_confined_effect) (auto simp: apply_metadata_fields_def sbind_Inr confined_def split: if_splits)

lemma rmtree_confined [confine]: "(\<And>x. prefix p x \<Longrightarrow> x \<in> Z) \<Longrightarrow> act_confined Z (effect (rmtree p))"
  by (rule act_confined_effect) (auto simp: rmtree_def remove_tree_def confined_def split: if_splits)

lemma rename_confined: "(\<And>x. prefix p x \<Longrightarrow> x \<in> Z) \<Longrightarrow> (\<And>x. prefix q x \<Longrightarrow> x \<in> Z) \<Longrightarrow> confined Z f (rename_tree p q f)"
  by (auto simp: rename_tree_def confined_def)

lemma move_confined [confine]:
  assumes "\<And>x. prefix p x \<Longrightarrow> x \<in> Z" and "\<And>x. prefix q x \<Longrightarrow> x \<in> Z"
  shows "act_confined Z (effect (shutil_move p q))"
proof (rule act_confined_effect)
  fix f f' assume "shutil_move p q f = Inr f'"
  then consider "f' = f" | "f' = rename_tree p q f" | "f' = rename_tree p (q @ [last p]) f"
    by (auto simp: shutil_move_def Let_def split: if_splits)
  then show "confined Z f f'"
  proof cases
    case 3
    have "prefix (q @ [last p]) x \<Longrightarrow> x \<in> Z" for x using assms(2) by (metis append_prefixD)
    with 3 assms(1) show ?thesis by (auto intro: rename_confined)
  qed (auto intro: rename_confined assms)
qed

text \<open>The places a command may touch.\<close>

definition under :: "path \<Rightarrow> path set" where
  "under p = {x. prefix p x}"

definition root_zone :: "path list \<Rightarrow> path set" where
  "root_zone roots = (\<Union>r \<in> set roots. under (resolve_path r) \<union> under (temp_path (resolve_path r)))"

lemma resolved_under: "resolve_within_roots raw roots = Inr p \<Longrightarrow> prefix p x \<Longrightarrow> x \<in> root_zone roots"
  using resolve_within_roots_ok [of raw roots p] by (auto simp: root_zone_def under_def intro: prefix_order.order_trans)

lemma resolved_in: "resolve_within_roots raw roots = Inr p \<Longrightarrow> p \<in> root_zone roots"
  by (rule resolved_under) (auto simp: prefix_def)

lemma resolved_temp:
  assumes "resolve_within_roots raw roots = Inr p" and "prefix (temp_path p) x"
  shows "x \<in> root_zone roots"
proof -
  from resolve_within_roots_ok [OF assms(1)] obtain r where r: "r \<in> set roots" "prefix (resolve_path r) p" by blast
  show ?thesis
  proof (cases "p = resolve_path r")
    case True
    with r(1) assms(2) show ?thesis by (auto simp: root_zone_def under_def)
  next
    case False
    with r(2) obtain y where "p = resolve_path r @ y" "y \<noteq> []" by (auto simp: prefix_def)
    then have "prefix (resolve_path r) (temp_path p)" by (simp add: temp_path_def butlast_append)
    with r(1) assms(2) show ?thesis by (auto simp: root_zone_def under_def intro: prefix_order.trans)
  qed
qed

lemma resolved_child: "resolve_within_roots raw roots = Inr p \<Longrightarrow> p @ q \<in> root_zone roots"
  by (rule resolved_under) auto

lemma first_root_under:
  assumes "first_root roots = Inr r" and "dotdot \<notin> set q"
  shows "resolve_path (r @ q) \<in> root_zone roots"
  using assms by (auto simp: first_root_def resolve_append root_zone_def under_def split: list.splits)

lemma marker_in_zone: "marker_path roots sid = Inr p \<Longrightarrow> p \<in> root_zone roots"
  by (auto simp: marker_path_def sbind_Inr resolve_approved_service_name_def APPROVED_DECOY_SERVICES_def dotdot_def
      split: option.splits if_splits intro!: first_root_under)

lemma act_confined_if [confine]: "(b \<Longrightarrow> act_confined Z m) \<Longrightarrow> (\<not> b \<Longrightarrow> act_confined Z n) \<Longrightarrow> act_confined Z (if b then m else n)"
  by simp

lemma act_confined_json [confine]:
  "(\<And>s. act_confined Z (g s)) \<Longrightarrow> act_confined Z (case j of JStr s \<Rightarrow> g s | _ \<Rightarrow> lift r)"
  by (auto split: json.splits intro: act_confined_basic)

lemma act_confined_abind_effect [confine]:
  "act_confined Z (effect g) \<Longrightarrow> (\<And>a. act_confined Z (k a)) \<Longrightarrow> act_confined Z (abind (effect g) k)"
  by (rule act_confined_abind)

lemma act_confined_abind_look [confine]: "(\<And>a. act_confined Z (k a)) \<Longrightarrow> act_confined Z (abind (look g) k)"
  by (intro act_confined_abind act_confined_basic)

lemma act_confined_abind_if [confine]:
  "act_confined Z (if b then m else n) \<Longrightarrow> (\<And>a. act_confined Z (k a)) \<Longrightarrow> act_confined Z (abind (if b then m else n) k)"
  by (rule act_confined_abind)

lemma act_confined_abind_json [confine]:
  "act_confined Z (case j of JStr s \<Rightarrow> g s | _ \<Rightarrow> lift r) \<Longrightarrow> (\<And>a. act_confined Z (k a)) \<Longrightarrow>
   act_confined Z (abind (case j of JStr s \<Rightarrow> g s | _ \<Rightarrow> lift r) k)"
  by (rule act_confined_abind)

lemma drop_temp_confined: "temp_path p \<in> Z \<Longrightarrow> confined Z f (snd (drop_temp p x f))"
  by (auto simp: drop_temp_def confined_def)

lemma fetch_confined [confine]:
  assumes "\<And>x. prefix p x \<Longrightarrow> x \<in> Z" and "\<And>x. prefix (temp_path p) x \<Longrightarrow> x \<in> Z"
  shows "act_confined Z (fetch_to h url hash p)"
  unfolding act_confined_def
proof
  have t: "temp_path p \<in> Z" by (rule assms(2)) (auto simp: prefix_def)
  fix f
  show "confined Z f (snd (fetch_to h url hash p f))"
  proof (cases "write_file h (temp_path p) (projr (download h url hash)) f")
    case (Inl x)
    then show ?thesis using drop_temp_confined [OF t]
      by (auto simp: fetch_to_def split: sum.splits)
  next
    case (Inr f1)
    then have one: "confined Z f f1" using t by (auto simp: write_file_def confined_def split: if_splits)
    have "confined Z f1 (rename_tree (temp_path p) p f1)" by (rule rename_confined) (auto intro: assms)
    then have "confined Z f (rename_tree (temp_path p) p f1)" "confined Z f (snd (drop_temp p x f1))" for x
      using confined_trans [OF one] drop_temp_confined [OF t] by blast+
    with Inr show ?thesis using drop_temp_confined [OF t]
      by (auto simp: fetch_to_def replace_file_def split: sum.splits)
  qed
qed

lemma marker_enable_confined [confine]: "root_zone roots \<subseteq> Z \<Longrightarrow> act_confined Z (marker_enable h roots sid j)"
  unfolding marker_enable_def by (intro confine) (auto dest: marker_in_zone)

lemma marker_disable_confined [confine]: "root_zone roots \<subseteq> Z \<Longrightarrow> act_confined Z (marker_disable h roots sid)"
  unfolding marker_disable_def by (intro confine) (auto dest: marker_in_zone)

lemma place_body_confined:
  assumes "resolve_within_roots raw roots = Inr p" and "root_zone roots \<subseteq> Z"
  shows "act_confined Z (place_body h params p)"
  unfolding place_body_def Let_def
  using assms by (intro confine) (auto split: option.splits intro!: confine intro: resolved_in resolved_under resolved_temp)

lemma place_confined: "root_zone roots \<subseteq> Z \<Longrightarrow> act_confined Z (place_artifact h params roots)"
  unfolding place_artifact_def Let_def
  by (rule act_confined_abind_lift, rule act_confined_abind)
    (auto dest!: resolve_item_ok intro: place_body_confined intro!: confine act_confined_abind)

lemma move_artifact_confined: "root_zone roots \<subseteq> Z \<Longrightarrow> act_confined Z (move_artifact h params roots)"
  unfolding move_artifact_def by (intro confine) (auto dest!: resolve_item_ok intro: resolved_under)

lemma directory_confined: "root_zone roots \<subseteq> Z \<Longrightarrow> act_confined Z (create_decoy_directory h params roots)"
  unfolding create_decoy_directory_def Let_def
  by (intro confine) (auto dest!: resolve_item_ok intro: resolved_child)

lemma metadata_handlers_confined:
  "act_confined Z (change_visible_metadata h noop_attributes params roots)" "act_confined Z (test_metadata_update h params roots)"
  unfolding change_visible_metadata_def noop_attributes_def test_metadata_update_def
  by (intro confine act_confined_abind)+

lemma message_confined: "root_zone roots \<subseteq> Z \<Longrightarrow> act_confined Z (display_message h params roots)"
  unfolding display_message_def Let_def
  by (intro confine) (auto simp: dotdot_def dest: first_root_under [where q = "[''_messages.log'']"])

lemma service_handlers_confined:
  assumes "root_zone roots \<subseteq> Z"
  shows "act_confined Z (enable_decoy_service h params roots)" "act_confined Z (disable_decoy_service h params roots)"
  unfolding enable_decoy_service_def disable_decoy_service_def
  by (intro act_confined_abind_lift act_confined_abind [OF marker_enable_confined [OF assms]]
      act_confined_abind [OF marker_disable_confined [OF assms]] act_confined_basic)+

lemma programdata_handlers_confined:
  assumes "under (programdata c) \<subseteq> Z"
  shows "act_confined Z (request_snapshot h (snapshots_dir c) roots)" "act_confined Z (conclude_session h (programdata c) params)"
    "act_confined Z (clean_shutdown h (programdata c) params)"
proof -
  have in_Z: "programdata c @ q \<in> Z" for q using assms by (auto simp: under_def)
  show "act_confined Z (request_snapshot h (snapshots_dir c) roots)"
    unfolding request_snapshot_def Let_def snapshots_dir_def by (intro confine) (simp add: in_Z)
  show "act_confined Z (conclude_session h (programdata c) params)" "act_confined Z (clean_shutdown h (programdata c) params)"
    unfolding conclude_session_def clean_shutdown_def Let_def by (intro confine in_Z)+
qed

lemma placement_confined: "root_zone roots \<subseteq> Z \<Longrightarrow> act_confined Z (test_file_placement h params roots)"
  unfolding test_file_placement_def by (intro confine) (auto dest!: resolve_item_ok intro: resolved_in)

lemma wipe_confined: "(\<And>r x. r \<in> set roots \<Longrightarrow> prefix (resolve_path r) x \<Longrightarrow> x \<in> Z) \<Longrightarrow> act_confined Z (wipe_roots h roots)"
  by (induction roots) (auto intro!: confine)

lemma reseed_confined:
  assumes "root_zone roots \<subseteq> Z" and "baseline \<noteq> None \<Longrightarrow> under (resolve_path (butlast (hd roots))) \<subseteq> Z"
  shows "act_confined Z (wipe_and_reseed h roots baseline)"
proof -
  have over: "act_confined Z (effect (\<lambda>f. Inr (overlay (resolve_path (butlast r)) entries f)))"
    if "first_root roots = Inr r" "baseline \<noteq> None" for r entries
    using assms(2) that
    by (intro act_confined_effect) (auto simp: overlay_def confined_def under_def first_root_def split: list.splits if_splits)
  have "act_confined Z (wipe_roots h roots)"
    using assms(1) by (intro wipe_confined) (auto simp: root_zone_def under_def)
  then show ?thesis unfolding wipe_and_reseed_def
    by (intro act_confined_abind) (auto split: option.splits intro!: confine over)
qed

definition action_zone :: "ctx \<Rightarrow> string \<Rightarrow> path set" where
  "action_zone c t = root_zone (allowed_roots c) \<union> under (programdata c) \<union>
     (if t \<in> {''SOFT_RESET'', ''FULL_REBUILD''} \<and> baseline_snapshot c \<noteq> None
      then under (resolve_path (butlast (hd (allowed_roots c)))) else {})"

lemma reset_handlers_confined:
  assumes "t \<in> {''SOFT_RESET'', ''FULL_REBUILD''}"
  shows "act_confined (action_zone c t) (soft_reset h (allowed_roots c) (baseline_snapshot c))"
    "act_confined (action_zone c t) (full_rebuild h (programdata c) (allowed_roots c) (baseline_snapshot c))"
proof -
  have "act_confined (action_zone c t) (wipe_and_reseed h (allowed_roots c) (baseline_snapshot c))"
    using assms by (intro reseed_confined) (auto simp: action_zone_def)
  then show "act_confined (action_zone c t) (soft_reset h (allowed_roots c) (baseline_snapshot c))"
    "act_confined (action_zone c t) (full_rebuild h (programdata c) (allowed_roots c) (baseline_snapshot c))"
    unfolding soft_reset_def full_rebuild_def Let_def
    by (intro act_confined_abind confine; (auto simp: action_zone_def under_def)?)+
qed

lemma handler_confined: "act_confined (action_zone c t) (handler h c t params)"
proof -
  have z: "root_zone (allowed_roots c) \<subseteq> action_zone c t" "under (programdata c) \<subseteq> action_zone c t"
    by (auto simp: action_zone_def)
  note h = place_confined move_artifact_confined directory_confined message_confined service_handlers_confined placement_confined
  show ?thesis unfolding handler_def Let_def
    by (intro act_confined_if h [OF z(1)] programdata_handlers_confined [OF z(2)] metadata_handlers_confined
        reset_handlers_confined) (simp_all only: insert_iff simp_thms)
qed

lemma when_there_confined [confine]: "act_confined Z m \<Longrightarrow> act_confined Z (when_there p m)"
  unfolding when_there_def by (intro confine)

lemma rollback_confined:
  assumes "root_zone roots \<subseteq> Z"
  shows "act_confined Z (apply_rollback_definition h r roots)"
proof -
  have p: "resolve_within_roots raw roots = Inr p \<Longrightarrow> p \<in> Z" "resolve_within_roots raw roots = Inr p \<Longrightarrow> prefix p x \<Longrightarrow> x \<in> Z" for raw p x
    using assms resolved_in resolved_under by blast+
  show ?thesis unfolding apply_rollback_definition_def
  proof (cases r, simp_all only: rollback.case)
    fix sid show "act_confined Z (abind (marker_disable h roots sid) (\<lambda>_. ret ()))"
      by (intro act_confined_abind confine assms)
  qed ((intro confine assms p | assumption)+)
qed

section \<open>Rolling back\<close>

definition fs_wf :: "fs \<Rightarrow> bool" where
  "fs_wf f = (nodes f [] = Some Dir \<and> (\<forall>p. p \<noteq> [] \<and> nodes f p \<noteq> None \<longrightarrow> nodes f (butlast p) = Some Dir))"

lemma wf_absent:
  assumes "fs_wf f" and "nodes f p = None" and "prefix p x"
  shows "nodes f x = None"
proof -
  obtain y where "x = p @ y" using assms(3) by (auto simp: prefix_def)
  moreover have "nodes f (p @ y) = None"
  proof (induction y rule: rev_induct)
    case (snoc c y)
    then show ?case using assms(1) unfolding fs_wf_def by (metis append_assoc append_is_Nil_conv butlast_snoc not_Cons_self2 option.distinct(1))
  qed (simp add: assms(2))
  ultimately show ?thesis by simp
qed

lemma wf_ancestor:
  assumes "fs_wf f" and "nodes f p \<noteq> None" and "prefix q (butlast p)"
  shows "nodes f q = Some Dir"
proof -
  have "nodes f (q @ [c] @ y) \<noteq> None \<Longrightarrow> nodes f q = Some Dir" for c y
    using wf_absent [OF assms(1), of "q @ [c]" "q @ [c] @ y"] assms(1) unfolding fs_wf_def
    by (metis append_is_Nil_conv append_assoc butlast_snoc not_Cons_self2 prefixI)
  moreover obtain z where "butlast p = q @ z" using assms(3) by (auto simp: prefix_def)
  then have "p = [] \<or> (\<exists>c y. p = q @ [c] @ y)"
    by (cases p rule: rev_cases) (auto, metis append_Cons append_Nil neq_Nil_conv)
  ultimately show ?thesis using assms by (auto simp: fs_wf_def)
qed

lemma mkdir_ok:
  assumes "mkdir_p h p f = Inr g"
  shows "nodes g = (\<lambda>q. if prefix q p then Some Dir else nodes f q)" "confined {} f g"
proof -
  show "nodes g = (\<lambda>q. if prefix q p then Some Dir else nodes f q)" using assms by (auto simp: mkdir_p_def split: if_splits)
  show "confined {} f g" using mkdir_confined [of "{}" h p] assms by (auto simp: act_confined_def effect_def dest: spec [of _ f])
qed

lemma not_prefix_butlast: "p \<noteq> [] \<Longrightarrow> \<not> prefix p (butlast p)"
  by (cases p rule: rev_cases) (auto dest!: prefix_length_le)

lemma butlast_self: "p \<noteq> [] \<Longrightarrow> prefix q (butlast p) \<Longrightarrow> q \<noteq> p"
  using not_prefix_butlast by blast

text \<open>A file written at a fresh path, with the directories above it.\<close>

lemma confined_fresh:
  assumes "confined {p} f g" and "nodes f p = None"
  shows "confined {} f (g\<lparr>nodes := (nodes g)(p := None)\<rparr>)"
  using assms by (auto simp: confined_def)

lemma confined_fresh_tree:
  assumes "confined (under p) f g" and "fs_wf f" and "nodes f p = None"
  shows "confined {} f (remove_tree p g)"
  using assms wf_absent [OF assms(2,3)] by (auto simp: confined_def remove_tree_def under_def)

lemma delete_file_undoes:
  assumes "resolve_within_roots raw roots = Inr p" and "confined {p} f g" and "nodes f p = None" and "is_file g p"
  shows "\<exists>g'. apply_rollback_definition h (DeleteFile (path_str p)) roots g = (Inr (), g') \<and> confined {} f g'"
  using assms(4) confined_fresh [OF assms(2,3)] resolve_again [OF assms(1)]
  by (auto simp: apply_rollback_definition_def abind_def lift_def when_there_def look_def effect_def unlink_def exists_path_def
      is_file_def ret_def split: option.splits)

lemma delete_directory_undoes:
  assumes "resolve_within_roots raw roots = Inr p" and "confined (under p) f g" and "fs_wf f" and "nodes f p = None"
    and "nodes g p = Some Dir"
  shows "\<exists>g'. apply_rollback_definition h (DeleteDirectory (path_str p)) roots g = (Inr (), g') \<and> confined {} f g'"
  using assms(5) confined_fresh_tree [OF assms(2-4)] resolve_again [OF assms(1)]
  by (simp add: apply_rollback_definition_def abind_def lift_def when_there_def look_def effect_def rmtree_def exists_path_def)

lemma rename_nodes:
  "nodes (rename_tree p q f) x = (if prefix q x then nodes f (p @ drop (length q) x) else if prefix p x then None else nodes f x)"
  by (simp add: rename_tree_def)

text \<open>A tree moved to a fresh path and moved back.\<close>

lemma move_undoes:
  assumes wf: "fs_wf f" and src: "nodes f p \<noteq> None" and dst: "nodes f q = None"
    and mk: "mkdir_p h (butlast q) f = Inr g" and mv: "shutil_move p q g = Inr g1"
    and roots: "resolve_within_roots raw roots = Inr p" "resolve_within_roots raw' roots = Inr q"
  shows "\<exists>g'. apply_rollback_definition h' (MoveFile (path_str q) (path_str p)) roots g1 = (Inr (), g') \<and> confined {} f g'"
proof -
  have q: "q \<noteq> []" and p_q: "\<not> prefix q p" using wf src dst wf_absent [OF wf dst] by (auto simp: fs_wf_def)
  have g: "nodes g = (\<lambda>x. if prefix x (butlast q) then Some Dir else nodes f x)" "confined {} f g" using mkdir_ok [OF mk] by auto
  have "\<not> prefix q (butlast q)" using q by (rule not_prefix_butlast)
  then have gq: "nodes g q = None" using dst by (simp add: g)
  have "p \<noteq> q" using src dst by auto
  with mv gq have g1: "g1 = rename_tree p q g" and q_p: "\<not> prefix p q" and p: "p \<noteq> []"
    by (auto simp: shutil_move_def Let_def split: if_splits)
  have anc: "nodes g1 x = Some Dir" if x: "prefix x (butlast p)" for x
  proof -
    have "\<not> prefix p x" using x p not_prefix_butlast [of p] by (auto intro: prefix_order.trans)
    moreover have "\<not> prefix q x" using x p_q by (meson prefix_order.trans prefixeq_butlast)
    moreover have "nodes f x = Some Dir" using wf_ancestor [OF wf src x] .
    ultimately show ?thesis by (simp add: g1 rename_nodes g)
  qed
  then have "\<not> list_ex (is_file g1) (prefixes (butlast p))" by (auto simp: list_ex_iff is_file_def)
  then obtain g2 where mk2: "mkdir_p h' (butlast p) g1 = Inr g2" by (auto simp: mkdir_p_def)
  have g2: "nodes g2 = nodes g1" using mkdir_ok(1) [OF mk2] anc by (auto simp: fun_eq_iff)
  have "nodes g p \<noteq> None" using src by (simp add: g)
  then have "nodes g1 q \<noteq> None" "nodes g1 p = None" using p_q by (auto simp: g1 rename_nodes)
  then have mv2: "shutil_move q p g2 = Inr (rename_tree q p g2)"
    using p_q q \<open>p \<noteq> q\<close> by (auto simp: shutil_move_def Let_def g2 is_file_def exists_path_def)
  have undone: "nodes (rename_tree q p g2) x = (if prefix p x then nodes g x else if prefix q x then None else nodes g x)" for x
  proof (cases "prefix p x")
    case True
    then obtain y where "x = p @ y" by (auto simp: prefix_def)
    then show ?thesis by (simp add: rename_nodes g2 g1)
  next
    case False
    then show ?thesis by (simp add: rename_nodes g2) (simp add: g1 rename_nodes)
  qed
  have "nodes f x = None" if "prefix q x" for x using wf_absent [OF wf dst that] .
  then have "confined {} f (rename_tree q p g2)" using g(2) by (auto simp: confined_def undone)
  moreover have "exists_path g1 q" using \<open>nodes g1 q \<noteq> None\<close> by (simp add: exists_path_def)
  ultimately show ?thesis
    using resolve_again [OF roots(1)] resolve_again [OF roots(2)] mk2 mv2
    by (simp add: apply_rollback_definition_def abind_def lift_def when_there_def look_def effect_def)
qed

section \<open>What a successful handler leaves at a fresh path\<close>

lemma abind_ok: "abind m k f = (Inr b, f'') \<longleftrightarrow> (\<exists>a f'. m f = (Inr a, f') \<and> k a f' = (Inr b, f''))"
  by (auto simp: abind_def split: prod.splits sum.splits)

lemma step_ok [simp]:
  "ret a f = (Inr b, f') \<longleftrightarrow> b = a \<and> f' = f" "lift r f = (Inr b, f') \<longleftrightarrow> r = Inr b \<and> f' = f"
  "look g f = (Inr b, f') \<longleftrightarrow> g f = Inr b \<and> f' = f" "effect e f = (Inr u, f') \<longleftrightarrow> e f = Inr f'"
  by (auto simp: ret_def lift_def look_def effect_def split: sum.splits)

lemma write_ok:
  assumes "write_file h p c f = Inr g"
  shows "nodes g = (nodes f)(p := Some (File c))" "is_file g p"
  using assms by (auto simp: write_file_def is_file_def split: if_splits)

lemma write_fresh:
  assumes "mkdir_p h (butlast p) f = Inr g" and "write_file h p c g = Inr g1"
  shows "confined {p} f g1 \<and> is_file g1 p"
  using mkdir_ok(2) [OF assms(1)] write_ok [OF assms(2)] by (auto simp: confined_def)

lemma metadata_nodes: "apply_metadata_fields h p j f = Inr g \<Longrightarrow> nodes g = nodes f"
  by (auto simp: apply_metadata_fields_def sbind_Inr split: if_splits)

lemma fetch_fresh:
  assumes wf: "fs_wf f" and fresh: "nodes f p = None" "nodes f (temp_path p) = None"
    and mk: "mkdir_p h (butlast p) f = Inr g" and run: "fetch_to h url hash p g = (Inr (), g1)"
  shows "confined {p} f g1 \<and> is_file g1 p"
proof -
  from run obtain body g0 where p: "p \<noteq> []" and w: "write_file h (temp_path p) body g = Inr g0" and g1: "g1 = rename_tree (temp_path p) p g0"
    by (auto simp: fetch_to_def drop_temp_def replace_file_def split: if_splits sum.splits)
  have g: "nodes g = (\<lambda>x. if prefix x (butlast p) then Some Dir else nodes f x)" using mkdir_ok [OF mk] by auto
  have len: "length (temp_path p) = length p" using p by (simp add: temp_path_def)
  have absent: "nodes g x = None" if "prefix p x \<or> prefix (temp_path p) x" for x
  proof -
    have "length (butlast p) < length p" using p by simp
    then have "\<not> prefix x (butlast p)" using that len by (auto dest!: prefix_length_le)
    moreover have "nodes f x = None" using that wf_absent [OF wf fresh(1)] wf_absent [OF wf fresh(2)] by blast
    ultimately show ?thesis by (simp add: g)
  qed
  have w0: "nodes g0 = (nodes g)(temp_path p := Some (File body))" using write_ok [OF w] by simp
  have n: "nodes g1 x = (if x = p then Some (File body) else nodes g x)" for x
  proof (cases "prefix p x")
    case True
    then obtain y where x: "x = p @ y" by (auto simp: prefix_def)
    show ?thesis
    proof (cases "y = []")
      case False
      then have "nodes g1 x = nodes g (temp_path p @ y)" by (simp add: g1 rename_nodes x w0)
      with False show ?thesis using absent [of "temp_path p @ y"] absent [of x] x by simp
    qed (simp add: g1 rename_nodes x w0)
  next
    case False
    then have "x \<noteq> p" by auto
    with False show ?thesis using absent [of x] by (auto simp: g1 rename_nodes w0)
  qed
  have "confined {p} f g1" using mkdir_ok(2) [OF mk] by (auto simp: confined_def n)
  then show ?thesis by (simp add: is_file_def n)
qed

lemma same_nodes: "nodes g = nodes g0 \<Longrightarrow> confined Z f g = confined Z f g0 \<and> is_file g p = is_file g0 p"
  by (simp add: confined_def is_file_def)

lemma place_fresh:
  assumes wf: "fs_wf f" and p: "resolve_item params ''destination'' roots = Inr p"
    and fresh: "nodes f p = None" "nodes f (temp_path p) = None" and run: "place_artifact h params roots f = (Inr rb, g)"
  shows "rb = DeleteFile (path_str p) \<and> confined {p} f g \<and> is_file g p"
proof -
  from run p obtain u g0 where step: "place_body h params p f = (Inr u, g0)"
    and rest: "nodes g = nodes g0" "rb = DeleteFile (path_str p)"
    unfolding place_artifact_def Let_def abind_ok by (auto dest: metadata_nodes split: if_splits)
  have "confined {p} f g0 \<and> is_file g0 p"
    using step write_fresh [of h p f] fetch_fresh [OF wf fresh, of h]
    by (auto simp: place_body_def Let_def abind_ok split: if_splits json.splits option.splits)
  with rest same_nodes [OF rest(1)] show ?thesis by simp
qed

lemma placement_fresh:
  assumes "resolve_item params ''destination'' roots = Inr p" and "test_file_placement h params roots f = (Inr rb, g)"
  shows "rb = DeleteFile (path_str p) \<and> confined {p} f g \<and> is_file g p"
  using assms write_fresh [of h p f] by (auto simp: test_file_placement_def abind_ok split: json.splits)

lemma directory_fresh:
  assumes p: "resolve_item params ''path'' roots = Inr p" and run: "create_decoy_directory h params roots f = (Inr rb, g)"
  shows "rb = DeleteDirectory (path_str p) \<and> confined (under p) f g \<and> nodes g p = Some Dir"
proof -
  from run p obtain g0 where mk: "mkdir_p h p f = Inr g0" and rb: "rb = DeleteDirectory (path_str p)"
    and g: "g = g0 \<or> (\<exists>c. write_file h (p @ [''.mirage_metadata_profile.json'']) c g0 = Inr g)"
    by (auto simp: create_decoy_directory_def Let_def abind_ok split: if_splits)
  have "confined (under p) f g0" using mkdir_ok(2) [OF mk] by (simp add: confined_def)
  moreover have "nodes g0 p = Some Dir" by (simp add: mkdir_ok(1) [OF mk])
  ultimately show ?thesis using g rb write_ok(1) [of h "p @ [''.mirage_metadata_profile.json'']" _ g0 g]
    by (auto simp: confined_def under_def split: if_splits)
qed

section \<open>The journal and the executor\<close>

lemma journal_get_record: "journal_get aid (journal_record r js) = (if aid = je_action_id r then Some r else journal_get aid js)"
proof -
  have "lookup_by je_action_id (filter (\<lambda>q. je_action_id q \<noteq> je_action_id r) js) aid =
    (if aid = je_action_id r then None else lookup_by je_action_id js aid)"
    by (induction js) auto
  then show ?thesis by (auto simp: journal_get_def journal_record_def split: option.splits)
qed

lemma journal_get_mark:
  "journal_get aid (mark_status t st js) = map_option (\<lambda>q. if je_action_id q = t then q\<lparr>je_status := st\<rparr> else q) (journal_get aid js)"
  by (simp add: journal_get_def mark_status_def)

lemma execute_success:
  assumes "execute_action h c t params aid now s = (Inr oc, s')" and "t \<noteq> ''ROLLBACK_ACTION''" and "oc_status oc = ''SUCCESS''"
  shows "\<exists>rb. handler h c t params (c_fs s) = (Inr rb, c_fs s') \<and> t \<in> ALLOWED_ACTION_TYPES \<and>
    (\<exists>en. journal_get aid (c_journal s') = Some en \<and> je_action_id en = aid \<and> je_status en = ''SUCCESS'' \<and> je_rollback en = Some rb)"
  using assms
  by (auto simp: execute_action_def Let_def journal_get_record split: if_splits prod.splits sum.splits exc.splits)

definition rollback_of :: "string \<Rightarrow> json" where
  "rollback_of aid = JObj [(''target_action_id'', JStr aid)]"

lemma execute_rollback:
  assumes "journal_get aid (c_journal s) = Some en" and "je_status en = ''SUCCESS''" and "je_rollback en = Some rb"
  shows "execute_action h c ''ROLLBACK_ACTION'' (rollback_of aid) aid2 now s =
    (case apply_rollback_definition h rb (allowed_roots c) (c_fs s) of
       (Inl x, f) \<Rightarrow>
         (Inr \<lparr>oc_status = ''FAILED'', oc_output_tag = None, oc_rollback = None, oc_error_detail = Some (exc_text x)\<rparr>,
          s\<lparr>c_fs := f, c_journal := journal_record \<lparr>je_action_id = aid2, je_action_type = ''ROLLBACK_ACTION'',
              je_action_params = rollback_of aid, je_rollback = None, je_status = ''FAILED'', je_recorded_at = now\<rparr> (c_journal s)\<rparr>)
     | (Inr _, f) \<Rightarrow>
         (Inr \<lparr>oc_status = ''SUCCESS'', oc_output_tag = Some ''REAL_OS_OUTPUT'', oc_rollback = Some Noop, oc_error_detail = None\<rparr>,
          s\<lparr>c_fs := f, c_journal := journal_record \<lparr>je_action_id = aid2, je_action_type = ''ROLLBACK_ACTION'',
              je_action_params = rollback_of aid, je_rollback = Some Noop, je_status = ''SUCCESS'', je_recorded_at = now\<rparr>
              (mark_status aid ''ROLLED_BACK'' (c_journal s))\<rparr>))"
proof -
  have t: "''ROLLBACK_ACTION'' \<in> ALLOWED_ACTION_TYPES" "default_output_tag ''ROLLBACK_ACTION'' = Some ''REAL_OS_OUTPUT''"
    by (simp_all add: ALLOWED_ACTION_TYPES_def default_output_tag_def CALLER_SUPPLIED_OUTPUT_TAG_ACTIONS_def DECOY_SERVICE_ACTIONS_def)
  have target: "item (rollback_of aid) ''target_action_id'' = Inr (JStr aid)" by (simp add: rollback_of_def item_def)
  show ?thesis using assms by (simp add: execute_action_def execute_rollback_action_def t target split: prod.splits sum.splits)
qed

lemma confined_mono: "confined Z f g \<Longrightarrow> Z \<subseteq> Z' \<Longrightarrow> confined Z' f g"
  by (auto simp: confined_def)

lemma execute_rollback_action_fs:
  "c_fs (snd (execute_rollback_action h c params aid now s)) = c_fs s \<or>
   (\<exists>r. c_fs (snd (execute_rollback_action h c params aid now s)) = snd (apply_rollback_definition h r (allowed_roots c) (c_fs s)))"
  by (auto simp: execute_rollback_action_def split: sum.splits json.splits option.splits prod.splits) (metis snd_conv)+

lemma execute_confined: "confined (action_zone c ''SOFT_RESET'') (c_fs s) (c_fs (snd (execute_action h c t params aid now s)))"
proof -
  have sub: "action_zone c t \<subseteq> action_zone c ''SOFT_RESET''" by (auto simp: action_zone_def)
  have h: "confined (action_zone c ''SOFT_RESET'') (c_fs s) (snd (handler h c t params (c_fs s)))"
    using handler_confined [of c t h params] confined_mono [OF _ sub] by (simp add: act_confined_def)
  have r: "confined (action_zone c ''SOFT_RESET'') (c_fs s) (snd (apply_rollback_definition h r (allowed_roots c) (c_fs s)))" for r
  proof -
    have "root_zone (allowed_roots c) \<subseteq> action_zone c ''SOFT_RESET''" by (auto simp: action_zone_def)
    from rollback_confined [OF this] show ?thesis by (simp add: act_confined_def)
  qed
  show ?thesis
  proof (cases "t = ''ROLLBACK_ACTION''")
    case True
    then show ?thesis using execute_rollback_action_fs [of h c params aid now s] r
      by (auto simp: execute_action_def)
  next
    case False
    then show ?thesis using h by (auto simp: execute_action_def Let_def split: prod.splits sum.splits exc.splits)
  qed
qed

lemma frame_confined: "confined (action_zone c ''SOFT_RESET'') (c_fs s) (c_fs (snd (execute_command_frame h c now frame s)))"
  using execute_confined [of c s h _ _ _ now]
  by (auto simp: execute_command_frame_def split: sum.splits prod.splits) (metis snd_conv)+

lemma serve_confined: "confined (action_zone c ''SOFT_RESET'') (c_fs s) (c_fs (snd (snd (connect_and_serve c mx n frames s))))"
proof (induction c mx n frames s rule: connect_and_serve.induct)
  case (2 c mx n h now frame frames s)
  obtain r s' where run: "execute_command_frame h c now frame s = (r, s')" by (cases "execute_command_frame h c now frame s") auto
  have one: "confined (action_zone c ''SOFT_RESET'') (c_fs s) (c_fs s')" using frame_confined [of c s h now frame] run by simp
  show ?case
  proof (cases r)
    case (Inl x)
    with run one show ?thesis by simp
  next
    case (Inr res)
    show ?thesis
    proof (cases "case mx of None \<Rightarrow> False | Some k \<Rightarrow> k \<le> n + 1")
      case True
      with run Inr one show ?thesis by simp
    next
      case False
      with "2.IH" [OF run [symmetric] Inr] run Inr
      show ?thesis by (auto split: prod.splits intro: confined_trans [OF one])
    qed
  qed
qed simp

lemma handler_cases:
  "handler h c ''PLACE_ARTIFACT'' params = place_artifact h params (allowed_roots c)"
  "handler h c ''TEST_FILE_PLACEMENT'' params = test_file_placement h params (allowed_roots c)"
  "handler h c ''CREATE_DECOY_DIRECTORY'' params = create_decoy_directory h params (allowed_roots c)"
  "handler h c ''MOVE_ARTIFACT'' params = move_artifact h params (allowed_roots c)"
  "handler h c ''DISABLE_DECOY_SERVICE'' params = disable_decoy_service h params (allowed_roots c)"
  "handler h c ''REQUEST_SNAPSHOT'' params = request_snapshot h (snapshots_dir c) (allowed_roots c)"
  "handler h c ''CONCLUDE_SESSION'' params = conclude_session h (programdata c) params"
  "handler h c ''CLEAN_SHUTDOWN'' params = clean_shutdown h (programdata c) params"
  by (simp_all add: handler_def)

definition placing_actions :: "string set" where
  "placing_actions = {''PLACE_ARTIFACT'', ''TEST_FILE_PLACEMENT'', ''CREATE_DECOY_DIRECTORY'', ''MOVE_ARTIFACT''}"

definition target_key :: "string \<Rightarrow> string" where
  "target_key t = (if t = ''CREATE_DECOY_DIRECTORY'' then ''path'' else ''destination'')"

lemma move_fresh:
  assumes wf: "fs_wf f" and q: "resolve_item params ''destination'' roots = Inr q" and fresh: "nodes f q = None"
    and run: "move_artifact h params roots f = (Inr rb, g)"
  shows "\<exists>g'. apply_rollback_definition h' rb roots g = (Inr (), g') \<and> confined {} f g'"
proof -
  from run q obtain p g0 where p: "resolve_item params ''source'' roots = Inr p" and src: "nodes f p \<noteq> None"
    and mk: "mkdir_p h (butlast q) f = Inr g0" and mv: "shutil_move p q g0 = Inr g" and rb: "rb = MoveFile (path_str q) (path_str p)"
    by (auto simp: move_artifact_def abind_ok exists_path_def split: if_splits)
  from resolve_item_ok [OF p] resolve_item_ok [OF q] obtain raw raw' where
    roots: "resolve_within_roots raw roots = Inr p" "resolve_within_roots raw' roots = Inr q" by blast
  show ?thesis unfolding rb by (rule move_undoes [OF wf src fresh mk mv roots])
qed

lemma placing_undone:
  assumes wf: "fs_wf f" and t: "t \<in> placing_actions" and p: "resolve_item params (target_key t) (allowed_roots c) = Inr p"
    and fresh: "nodes f p = None" "nodes f (temp_path p) = None" and run: "handler h c t params f = (Inr rb, g)"
  shows "\<exists>g'. apply_rollback_definition h' rb (allowed_roots c) g = (Inr (), g') \<and> confined {} f g'"
proof -
  from resolve_item_ok [OF p] obtain raw where raw: "resolve_within_roots raw (allowed_roots c) = Inr p" by blast
  consider "t = ''PLACE_ARTIFACT''" | "t = ''TEST_FILE_PLACEMENT''" | "t = ''CREATE_DECOY_DIRECTORY''" | "t = ''MOVE_ARTIFACT''"
    using t by (auto simp: placing_actions_def)
  then show ?thesis
  proof cases
    case 1
    with place_fresh [OF wf _ fresh] p run have "rb = DeleteFile (path_str p) \<and> confined {p} f g \<and> is_file g p"
      by (simp add: target_key_def handler_cases)
    with delete_file_undoes [OF raw _ fresh(1)] show ?thesis by blast
  next
    case 2
    with placement_fresh p run have "rb = DeleteFile (path_str p) \<and> confined {p} f g \<and> is_file g p"
      by (simp add: target_key_def handler_cases)
    with delete_file_undoes [OF raw _ fresh(1)] show ?thesis by blast
  next
    case 3
    with directory_fresh p run have "rb = DeleteDirectory (path_str p) \<and> confined (under p) f g \<and> nodes g p = Some Dir"
      by (simp add: target_key_def handler_cases)
    with delete_directory_undoes [OF raw _ wf fresh(1)] show ?thesis by blast
  next
    case 4
    with move_fresh [OF wf _ fresh(1)] p run show ?thesis by (simp add: target_key_def handler_cases)
  qed
qed

lemma rolled_back_rejected:
  assumes "journal_get aid (c_journal s) = Some en" and "je_status en \<noteq> ''SUCCESS''"
  shows "\<exists>oc. execute_action h c ''ROLLBACK_ACTION'' (rollback_of aid) aid2 now s = (Inr oc, s) \<and> oc_status oc = ''REJECTED''"
proof -
  have "item (rollback_of aid) ''target_action_id'' = Inr (JStr aid)" by (simp add: rollback_of_def item_def)
  with assms show ?thesis by (simp add: execute_action_def execute_rollback_action_def ALLOWED_ACTION_TYPES_def)
qed

lemma execute_rollback_done:
  assumes "journal_get aid (c_journal s) = Some en" and "je_status en = ''SUCCESS''" and "je_rollback en = Some rb"
    and "apply_rollback_definition h rb (allowed_roots c) (c_fs s) = (Inr u, g)" and "aid' \<noteq> aid"
  shows "\<exists>oc s2. execute_action h c ''ROLLBACK_ACTION'' (rollback_of aid) aid' now s = (Inr oc, s2) \<and> oc_status oc = ''SUCCESS'' \<and>
    c_fs s2 = g \<and> (\<exists>en'. journal_get aid (c_journal s2) = Some en' \<and> je_status en' \<noteq> ''SUCCESS'')"
  using assms lookup_by_key [of je_action_id "c_journal s" aid en]
  by (simp add: execute_rollback [OF assms(1-3)] journal_get_record journal_get_mark) (simp add: journal_get_def)

text \<open>A file the controller wrote outside the roots, such as a snapshot or a session marker, cannot be rolled back.\<close>

lemma rollback_outside_roots_fails:
  assumes "journal_get aid (c_journal s) = Some en" and "je_status en = ''SUCCESS''" and "je_rollback en = Some (DeleteFile (path_str p))"
    and "clean p" and "\<forall>r \<in> set (allowed_roots c). \<not> prefix (resolve_path r) p"
  shows "\<exists>oc s2. execute_action h c ''ROLLBACK_ACTION'' (rollback_of aid) aid' now s = (Inr oc, s2) \<and> oc_status oc = ''FAILED'' \<and> c_fs s2 = c_fs s"
proof -
  have "\<exists>x. resolve_within_roots (JStr (path_str p)) (allowed_roots c) = Inl x"
    using assms(4,5) path_str_chars [OF assms(4)]
    by (auto simp: resolve_within_roots_def Let_def py_falsy_def path_parts_str resolve_clean list_ex_iff)
  then show ?thesis
    by (auto simp: execute_rollback [OF assms(1-3)] apply_rollback_definition_def abind_def lift_def)
qed

text \<open>Every outcome can be stored: a final status, and a known tag exactly on success, so the executor's assertion holds.\<close>

lemma message_tag:
  assumes "display_message h params roots f = (Inr rb, g)"
  shows "py_get params ''output_tag'' = JStr ''AI_GENERATED_INTERACTION'' \<or> py_get params ''output_tag'' = JStr ''ANALYST_MESSAGE''"
  using assms by (auto simp: display_message_def Let_def split: if_splits)

lemma execute_outcome:
  assumes "execute_action h c t params aid now s = (Inr oc, s')"
  shows "(oc_status oc = ''SUCCESS'' \<and> (\<exists>tag \<in> OUTPUT_TAGS. oc_output_tag oc = Some tag)) \<or>
    (oc_status oc \<in> {''FAILED'', ''REJECTED''} \<and> oc_output_tag oc = None)"
proof (cases "t = ''ROLLBACK_ACTION''")
  case True
  with assms show ?thesis
    by (auto simp: execute_action_def execute_rollback_action_def ALLOWED_ACTION_TYPES_def default_output_tag_def
        CALLER_SUPPLIED_OUTPUT_TAG_ACTIONS_def DECOY_SERVICE_ACTIONS_def OUTPUT_TAGS_def
        split: sum.splits json.splits option.splits prod.splits if_splits)
next
  case False
  have tag: "\<exists>tag \<in> OUTPUT_TAGS. outcome_tag t params = Some tag" if run: "handler h c t params (c_fs s) = (Inr rb, f)" for rb f
  proof (cases "t = ''DISPLAY_MESSAGE''")
    case True
    with run have "display_message h params (allowed_roots c) (c_fs s) = (Inr rb, f)" by (simp add: handler_def)
    from message_tag [OF this] True show ?thesis by (auto simp: outcome_tag_def CALLER_SUPPLIED_OUTPUT_TAG_ACTIONS_def OUTPUT_TAGS_def)
  next
    case False
    then show ?thesis by (auto simp: outcome_tag_def CALLER_SUPPLIED_OUTPUT_TAG_ACTIONS_def default_output_tag_def OUTPUT_TAGS_def)
  qed
  from False assms show ?thesis
    by (auto simp: execute_action_def Let_def split: if_splits prod.splits sum.splits exc.splits dest: tag)
qed

section \<open>Properties\<close>



definition sample_host :: host where
  "sample_host = \<lparr>h_time = 5, h_sha256 = (\<lambda>s. s), h_b64decode = Some, h_urlparse = (\<lambda>u. (''https'', None)),
     h_get = (\<lambda>u. ([''ab''], None)), h_fromiso = (\<lambda>s. Inr 0), h_float_repr = (\<lambda>q. ''0.5''),
     h_dumps = canonical_json_bytes (\<lambda>q. ''0.5''), h_loads = (\<lambda>s. Some (JObj [(''config_profile'', JStr ''p'')])),
     h_tar = (\<lambda>xs. []), h_untar = (\<lambda>s. Inr (\<lambda>p. None))\<rparr>"

definition sample_ctx :: ctx where
  "sample_ctx = \<lparr>allowed_roots = [[''srv'', ''decoy'']], programdata = [''var'', ''mirage''], baseline_snapshot = None\<rparr>"

definition sample_tree :: "(path \<times> node) list" where
  "sample_tree = [([], Dir), ([''etc''], Dir), ([''etc'', ''passwd''], File ''x''), ([''srv''], Dir), ([''srv'', ''decoy''], Dir),
     ([''srv'', ''decoy'', ''old''], Dir), ([''srv'', ''decoy'', ''old'', ''f''], File ''y'')]"

definition sample_controller :: controller where
  "sample_controller = \<lparr>c_fs = \<lparr>nodes = map_of sample_tree, times = (\<lambda>p. (0, 0))\<rparr>, c_journal = []\<rparr>"

definition ran :: "(exc + action_outcome) \<times> controller \<Rightarrow> bool" where
  "ran q = (case fst q of Inr oc \<Rightarrow> oc_status oc = ''SUCCESS'' | Inl _ \<Rightarrow> False)"

lemma ranE:
  assumes "ran q"
  obtains oc s' where "q = (Inr oc, s')" "oc_status oc = ''SUCCESS''"
  using assms by (cases q) (auto simp: ran_def split: sum.splits)

lemma sample_wf: "fs_wf (c_fs sample_controller)"
  by (auto simp: fs_wf_def sample_controller_def sample_tree_def split: if_splits)


definition sample_move :: json where
  "sample_move = JObj [(''source'', JStr ''/srv/decoy/old''), (''destination'', JStr ''/srv/decoy/new/old'')]"


text \<open>Rolling back the disabling of a decoy service does not restore it: afterwards the service is enabled although it
  may have been disabled before, and the profile it had is stored one level deeper than it was.\<close>

theorem disable_rollback_not_inverse:
  assumes "execute_action h c ''DISABLE_DECOY_SERVICE'' params aid now s = (Inr oc, s1)" and "oc_status oc = ''SUCCESS''"
    and "service_item params = Inr sid" and "marker_path (allowed_roots c) sid = Inr marker"
    and "execute_action h' c ''ROLLBACK_ACTION'' (rollback_of aid) aid' now' s1 = (Inr oc', s2)" and "oc_status oc' = ''SUCCESS''"
  shows "is_enabled (allowed_roots c) sid (c_fs s2) = Inr True \<and>
    (is_enabled (allowed_roots c) sid (c_fs s) = Inr False \<longrightarrow>
       nodes (c_fs s2) marker = Some (File (h_dumps h' (JObj [(''config_profile'', JNull)])))) \<and>
    (\<forall>text_of j. nodes (c_fs s) marker = Some (File text_of) \<and> h_loads h text_of = Some j \<longrightarrow>
       nodes (c_fs s2) marker = Some (File (h_dumps h' (JObj [(''config_profile'', JObj [(''config_profile'', py_get j ''config_profile'')])]))))"
proof -
  from execute_success [OF assms(1) _ assms(2)] obtain rb en where
    run: "disable_decoy_service h params (allowed_roots c) (c_fs s) = (Inr rb, c_fs s1)" and
    en: "journal_get aid (c_journal s1) = Some en" "je_status en = ''SUCCESS''" "je_rollback en = Some rb"
    by (auto simp: handler_cases)
  from run assms(3) obtain prior where dis: "marker_disable h (allowed_roots c) sid (c_fs s) = (Inr prior, c_fs s1)"
    and rb: "rb = EnableDecoyService sid prior" by (auto simp: disable_decoy_service_def abind_ok)
  from execute_rollback [OF en, of h' c aid' now'] assms(5,6)
  have "marker_enable h' (allowed_roots c) sid prior (c_fs s1) = (Inr (), c_fs s2)"
    by (auto simp: rb apply_rollback_definition_def split: prod.splits sum.splits)
  then have wrote: "nodes (c_fs s2) marker = Some (File (h_dumps h' (JObj [(''config_profile'', prior)])))"
    using assms(4) by (auto simp: marker_enable_def abind_ok dest!: write_ok(1))
  have "prior = JNull" if "nodes (c_fs s) marker = None"
    using dis that assms(4) by (auto simp: marker_disable_def abind_ok exists_path_def split: if_splits)
  moreover have "prior = JObj [(''config_profile'', py_get j ''config_profile'')]"
    if "nodes (c_fs s) marker = Some (File u)" "h_loads h u = Some j" for u j
    using dis that assms(4) by (auto simp: marker_disable_def abind_ok exists_path_def read_file_def split: if_splits)
  ultimately show ?thesis using wrote assms(4) by (auto simp: is_enabled_def exists_path_def)
qed

theorem disable_rollback_not_inverse_witness:
  "\<exists>(s1 :: controller) (s2 :: controller).
     snd (execute_action sample_host sample_ctx ''DISABLE_DECOY_SERVICE'' (JObj [(''service_id'', JStr ''decoy-ftp'')]) ''A'' ''t'' sample_controller) = s1 \<and>
     snd (execute_action sample_host sample_ctx ''ROLLBACK_ACTION'' (rollback_of ''A'') ''B'' ''t'' s1) = s2 \<and>
     is_enabled (allowed_roots sample_ctx) ''decoy-ftp'' (c_fs sample_controller) = Inr False \<and>
     is_enabled (allowed_roots sample_ctx) ''decoy-ftp'' (c_fs s2) = Inr True"
proof -
  let ?p = "JObj [(''service_id'', JStr ''decoy-ftp'')]"
  have "ran (execute_action sample_host sample_ctx ''DISABLE_DECOY_SERVICE'' ?p ''A'' ''t'' sample_controller)" by code_simp
  then obtain oc s1 where run: "execute_action sample_host sample_ctx ''DISABLE_DECOY_SERVICE'' ?p ''A'' ''t'' sample_controller = (Inr oc, s1)"
    "oc_status oc = ''SUCCESS''" by (rule ranE)
  have "ran (execute_action sample_host sample_ctx ''ROLLBACK_ACTION'' (rollback_of ''A'') ''B'' ''t''
    (snd (execute_action sample_host sample_ctx ''DISABLE_DECOY_SERVICE'' ?p ''A'' ''t'' sample_controller)))" by code_simp
  then have "ran (execute_action sample_host sample_ctx ''ROLLBACK_ACTION'' (rollback_of ''A'') ''B'' ''t'' s1)" by (simp add: run)
  then obtain oc' s2 where roll: "execute_action sample_host sample_ctx ''ROLLBACK_ACTION'' (rollback_of ''A'') ''B'' ''t'' s1 = (Inr oc', s2)"
    "oc_status oc' = ''SUCCESS''" by (rule ranE)
  have sid: "service_item ?p = Inr ''decoy-ftp''"
    "marker_path (allowed_roots sample_ctx) ''decoy-ftp'' = Inr [''srv'', ''decoy'', ''_decoy_services'', ''decoy-ftp.enabled'']"
    "is_enabled (allowed_roots sample_ctx) ''decoy-ftp'' (c_fs sample_controller) = Inr False" by code_simp+
  from disable_rollback_not_inverse [OF run sid(1,2) roll] sid(3) run roll show ?thesis by auto
qed

text \<open>Rolling back the creation of a decoy directory that already existed removes it with everything that was in it.\<close>

theorem directory_rollback_destroys:
  assumes "execute_action h c ''CREATE_DECOY_DIRECTORY'' params aid now s = (Inr oc, s1)" and "oc_status oc = ''SUCCESS''"
    and "resolve_item params ''path'' (allowed_roots c) = Inr p" and "nodes (c_fs s) p = Some Dir" and "aid' \<noteq> aid"
  shows "\<exists>oc' s2. execute_action h' c ''ROLLBACK_ACTION'' (rollback_of aid) aid' now' s1 = (Inr oc', s2) \<and>
    oc_status oc' = ''SUCCESS'' \<and> (\<forall>x. prefix p x \<longrightarrow> nodes (c_fs s2) x = None)"
proof -
  from execute_success [OF assms(1) _ assms(2)] obtain rb en where
    run: "create_decoy_directory h params (allowed_roots c) (c_fs s) = (Inr rb, c_fs s1)" and
    en: "journal_get aid (c_journal s1) = Some en" "je_status en = ''SUCCESS''" "je_rollback en = Some rb"
    by (auto simp: handler_cases)
  from directory_fresh [OF assms(3) run] have rb: "rb = DeleteDirectory (path_str p)" and d: "nodes (c_fs s1) p = Some Dir" by auto
  from resolve_item_ok [OF assms(3)] obtain raw where "resolve_within_roots raw (allowed_roots c) = Inr p" by blast
  from resolve_again [OF this] d have "apply_rollback_definition h' rb (allowed_roots c) (c_fs s1) = (Inr (), remove_tree p (c_fs s1))"
    by (simp add: rb apply_rollback_definition_def abind_def lift_def when_there_def look_def effect_def rmtree_def exists_path_def)
  from execute_rollback_done [OF en this assms(5)] show ?thesis by (fastforce simp: remove_tree_def)
qed

theorem directory_rollback_destroys_witness:
  "\<exists>oc' (s2 :: controller). execute_action sample_host sample_ctx ''ROLLBACK_ACTION'' (rollback_of ''A'') ''B'' ''t''
       (snd (execute_action sample_host sample_ctx ''CREATE_DECOY_DIRECTORY'' (JObj [(''path'', JStr ''/srv/decoy/old'')]) ''A'' ''t''
          sample_controller)) = (Inr oc', s2) \<and>
     nodes (c_fs sample_controller) [''srv'', ''decoy'', ''old'', ''f''] = Some (File ''y'') \<and>
     nodes (c_fs s2) [''srv'', ''decoy'', ''old'', ''f''] = None"
proof -
  let ?p = "JObj [(''path'', JStr ''/srv/decoy/old'')]"
  have "ran (execute_action sample_host sample_ctx ''CREATE_DECOY_DIRECTORY'' ?p ''A'' ''t'' sample_controller)" by code_simp
  then obtain oc s1 where run: "execute_action sample_host sample_ctx ''CREATE_DECOY_DIRECTORY'' ?p ''A'' ''t'' sample_controller = (Inr oc, s1)"
    "oc_status oc = ''SUCCESS''" by (rule ranE)
  have p: "resolve_item ?p ''path'' (allowed_roots sample_ctx) = Inr [''srv'', ''decoy'', ''old'']"
    "nodes (c_fs sample_controller) [''srv'', ''decoy'', ''old''] = Some Dir"
    "nodes (c_fs sample_controller) [''srv'', ''decoy'', ''old'', ''f''] = Some (File ''y'')" by code_simp+
  from directory_rollback_destroys [OF run p(1,2), of "''B''" sample_host "''t''"] obtain oc' s2 where
    "execute_action sample_host sample_ctx ''ROLLBACK_ACTION'' (rollback_of ''A'') ''B'' ''t'' s1 = (Inr oc', s2)"
    "nodes (c_fs s2) [''srv'', ''decoy'', ''old'', ''f''] = None" by auto
  with run p(3) show ?thesis by auto
qed

end
