(* ===== verification/Spec2Isabelle.thy ===== *)
theory Spec2Isabelle
  imports Mirage_Ai Mirage_Analyst Mirage_Teardown Mirage_Evidence Mirage_Timestamps Mirage_Fingerprint Mirage_Routing Mirage_Detection Mirage_Ingestion Mirage_Enrollment Mirage_Relay
    Mirage_Gateway Mirage_Controller
begin

text \<open>
  \<^bold>\<open>Mirage: a verification of the control plane.\<close>

  Mirage is a cyber-deception platform. Detections open \<^emph>\<open>cases\<close>; a case moves
  through a fixed life cycle in which the broker steers an attacker into a sandbox that imitates the
  protected host, agents report what happens there, analysts and a language model propose actions,
  the sandbox's controller carries them out, and evidence is collected, exported and finally
  everything the case used is destroyed. The components share a PostgreSQL database and talk
  through events that are written to an outbox table in the same transaction as the change they
  announce and published to NATS by a relay.

  \<^bold>\<open>Theories and sources\<close> (paths under \<^verbatim>\<open>src/\<close>).

  \<^item> \<open>Mirage_Prelude\<close>, \<open>Mirage_Json\<close>: Python's strings, printing,
    dictionaries, JSON values and the canonical encoding of \<^verbatim>\<open>envelope.py\<close>; the locales
    \<open>step_system\<close> (an invariant every step keeps), \<open>optimistic_store\<close> (locking by a
    version number) and \<open>idempotent_store\<close> (at most one effect per key).
  \<^item> \<open>Mirage_Timestamps\<close>, \<open>Mirage_Contracts\<close>, \<open>Mirage_Subjects\<close>:
    \<^verbatim>\<open>contracts/python/mirage_contracts\<close> and \<^verbatim>\<open>subjects.py\<close>: RFC 3339
    timestamps, ULIDs, building and validating envelopes, the schema registry, the stream table.
    Shown: a valid event has a matching hash, known type and version; the hash does not depend on
    the order of keys; printing and parsing of timestamps invert each other.
  \<^item> \<open>Mirage_Store\<close>: the tables with their constraints, transactions (\<open>run_tx\<close>
    keeps the new state or the old one) and publishing to the outbox.
  \<^item> \<open>Mirage_Cases\<close>, \<open>Mirage_Fingerprint\<close>:
    \<^verbatim>\<open>case_state_machine.py\<close>, \<^verbatim>\<open>fingerprint.py\<close>,
    \<^verbatim>\<open>fingerprint_gate.py\<close>. Shown: what a transition writes and when it is refused, that
    of two transitions at one version at most one wins, that a case's history replays its life cycle,
    and that no case becomes ENGAGING without a passing fingerprint.
  \<^item> \<open>Mirage_Routing\<close>, \<open>Mirage_Detection\<close>: routing decisions without overlap,
    the bounded staleness of the route cache, correlation of detections exactly once, dead letters.
  \<^item> \<open>Mirage_Agent\<close>, \<open>Mirage_Ingestion\<close>, \<open>Mirage_Enrollment\<close>: the
    agents' queue and flush loops, the server that receives events, enrolment and revocation. Shown:
    events are delivered in order, a replay changes nothing, receipts are ordered, a token is used once
    and a revoked agent is locked out.
  \<^item> \<open>Mirage_Relay\<close>: one run of the outbox relay and that the outbox drains.
  \<^item> \<open>Mirage_Sandbox\<close>, \<open>Mirage_Gateway\<close>, \<open>Mirage_Controller\<close>:
    commands from their row through the gateway's connections to the controller's actions, journal and
    rollback on a file-system model. Shown: one of several results is recorded, results belong to their
    command, actions stay inside the approved roots and a rollback restores what the action changed.
  \<^item> \<open>Mirage_Teardown\<close>: \<^verbatim>\<open>teardown.py\<close> with its journal; the locales
    \<open>cloud_adapter\<close> and \<open>progressing_adapter\<close> state what it needs of a cloud and are
    interpreted on \<open>LocalCloudAdapter\<close>. Shown: evidence is verified before anything is
    destroyed, only temporary resources of the case are removed, and a run completes.
  \<^item> \<open>Mirage_Evidence\<close>: \<^verbatim>\<open>evidence.py\<close>; the locale
    \<open>versioned_store\<close> is the contract of an object store, interpreted on
    \<open>MemoryObjectStore\<close>. Shown: replays are safe, the ledger is append-only and sound, what was
    acquired verifies, object keys stay under their case.
  \<^item> \<open>Mirage_Text\<close>, \<open>Mirage_Analyst\<close>: the regular expressions as values of
    \<open>rx\<close>, then \<^verbatim>\<open>analyst.py\<close>,
    \<^verbatim>\<open>analyst_channels.py\<close> and their routes. Shown: only checked and, where needed,
    confirmed text reaches the attacker, at most once, never while the emergency stop is on; the rate
    limiter's window holds.
  \<^item> \<open>Mirage_Ai\<close>: \<^verbatim>\<open>ai.py\<close> and
    \<^verbatim>\<open>ai_orchestration.py\<close>, the boundary to the language model. Shown: snapshots are
    bounded and keep what is protected, hostile text cannot influence the trusted part of a prompt,
    proposals that come back are checked, the policy's chain of checks decides what it should, the
    breaker bounds the calls of an outage and the budget is kept by requests that do not overlap.
  This theory holds what spans components: that every answer of the controller can be recorded by the
  gateway, and that an analyst's message rests on a decision of the policy.

  \<^bold>\<open>How code is modelled.\<close> A row or dataclass is a record, an enumeration a datatype.
  A function that can raise returns a sum, \<open>Inl\<close> the exception; one that changes state
  returns the state as well, as it was when the exception was raised, and its caller commits or rolls
  back. Generated identifiers, the clock and hashes are fields of \<open>env\<close> and
  \<open>runtime\<close>: the theorems hold for every such supply, and what they need of it (fresh
  identifiers, a hash that separates the texts at hand) is a hypothesis they name. A timestamp is a
  number of microseconds. A \<open>str\<close> is the list of its UTF-8 bytes; floating-point numbers are
  rationals. Loops are recursion with a termination proof; no definition has fuel. Concurrent requests
  are sequences of steps, one per transaction.

  \<^bold>\<open>Parameters.\<close> JSON-schema validators, SHA-256, signatures, the text of floats, JWT
  decoding, the certificate authority, the HTTP, NATS, S3 and AWS clients, the language model and the
  cipher of the agents' queue are arguments of the definitions that use them.

  \<^bold>\<open>Not modelled.\<close> The dashboard (TypeScript and its read models), report rendering,
  acceptance and release tooling, installers and start-up of services are input and output around other
  systems or read-only projections of the tables; the Windows services call pywin32; the generated
  contract classes restate the JSON schemas. They are listed with their reasons in the manifest.
\<close>

section \<open>The gateway and the controller together\<close>

lemma frame_fields:
  "str_item (command_frame p) ''action_type'' = Inr (pa_action_type p)"
  "str_item (command_frame p) ''action_id'' = Inr (pa_action_id p)"
  "item (command_frame p) ''command_id'' = Inr (JStr (pa_command_id p))"
  by (simp_all add: str_item_def item_def command_frame_def)

lemma json_opt_jopt [simp]: "json_opt (jopt x) = Some x"
  by (cases x) (simp_all add: jopt_def)

lemma reply_result_frame: "reply_fields (result_frame aid cid oc) = Inr (oc_status oc, oc_output_tag oc, oc_error_detail oc)"
  by (simp add: reply_fields_def result_frame_def py_get_def)



section \<open>The policy and the analyst's messages\<close>

text \<open>The columns of \<^verbatim>\<open>policy_decisions\<close> that \<^verbatim>\<open>create_message\<close> and the delivery read.\<close>

definition policy_of :: "policy_decision_row \<Rightarrow> policy_row" where
  "policy_of r = \<lparr>po_decision_id = pd_decision_id r, po_case_id = pd_case_id r, po_decision = pd_decision r\<rparr>"

text \<open>Decisions are written by \<open>store_policy_decision\<close> alone, with the outcome of the policy.\<close>

inductive policy_step :: "ai_tables \<Rightarrow> ai_tables \<Rightarrow> bool" where
  decide: "run_tx (store_policy_decision e p (evaluate_policy p c) approval) d = (r, d') \<Longrightarrow> policy_step d d'"
| elsewhere: "ad_decisions d' = ad_decisions d \<Longrightarrow> policy_step d d'"

definition decided :: "policy_decision_row \<Rightarrow> bool" where
  "decided r = (\<exists>p c did approval. r = decision_of did p (evaluate_policy p c) approval)"

lemma store_policy_decision_rows:
  assumes "store_policy_decision e p q approval d = (Inr i, d')"
  shows "ad_decisions d' = ad_decisions d @ [decision_of (env_ids e 0) p q approval]"
  using assms by (auto simp: store_policy_decision_def insert_decision_def Let_def split: sum.splits if_splits)

lemma policy_step_decided:
  assumes "policy_step d d'" "list_all decided (ad_decisions d)"
  shows "list_all decided (ad_decisions d')"
  using assms(1)
proof cases
  case (decide e p c approval r)
  show ?thesis
  proof (cases r)
    case (Inl x)
    then show ?thesis
      using decide assms(2) run_tx_error by fastforce
  next
    case (Inr i)
    then have "ad_decisions d' = ad_decisions d @ [decision_of (env_ids e 0) p (evaluate_policy p c) approval]"
      using decide by (intro store_policy_decision_rows) (simp add: run_tx_ok)
    then show ?thesis
      using assms(2) by (auto simp: decided_def)
  qed
qed (use assms(2) in simp)

interpretation decisions: step_system policy_step "\<lambda>d. list_all decided (ad_decisions d)"
  by unfold_locales (rule policy_step_decided)

lemma check_message_policy:
  assumes "check_message rt a s = Inr (q, decision)"
  shows "\<exists>x\<in>set (an_policies s). po_case_id x = ma_case_id a \<and> po_decision x = decision \<and> decision \<in> set PERMITTING"
  using assms
  by (auto simp: check_message_def sbind_def find_Some_iff nth_mem split: sum.splits option.splits if_splits)

lemma permitting_decision: "decision_value d \<in> set PERMITTING \<longleftrightarrow> d = ALLOW \<or> d = REQUIRE_ANALYST_APPROVAL"
  by (cases d) (simp_all add: decision_value_def PERMITTING_def)

lemma permitted_preconditions:
  assumes "decision_value (pl_decision (evaluate_policy p c)) \<in> set PERMITTING"
  shows "pr_action_type p \<in> set ACTION_TYPES \<and> preconditions (pr_action_type p) c"
  using assms policy_outcome [of p c] by (auto simp: permitting_decision)


definition policy_env :: env where
  "policy_env = (sample_env [''policy.decision''])\<lparr>env_rt := env_rt (example_env 0), env_ids := env_ids (example_env 0)\<rparr>"

definition policy_proposal :: proposal where
  "policy_proposal = ai_sample_proposal\<lparr>pr_case_id := example_case\<rparr>"

definition policy_facts :: policy_context where
  "policy_facts = \<lparr>pc_case_state = ''ENGAGING'', pc_sandbox_healthy = True, pc_spider_healthy = True, pc_evidence_storage_healthy = True,
     pc_strategy_phase = ''ENGAGE'', pc_artifact_approved = False, pc_artifact_classification = None, pc_analyst_approval = False,
     pc_rate_limit_ok = True, pc_destination_allowed = True, pc_identity_critical_change = False, pc_rollback_available = False\<rparr>"

definition policy_tables :: ai_tables where
  "policy_tables = \<lparr>ad_db = an_db (example_analyst ENGAGING), ad_usage = [], ad_snapshots = [], ad_proposals = [policy_proposal], ad_decisions = []\<rparr>"

definition policy_row_written :: policy_decision_row where
  "policy_row_written = decision_of example_mid policy_proposal (evaluate_policy policy_proposal policy_facts) None"

lemma policy_published:
  "is_ok (publish_validated policy_env 1 (policy_decision_args policy_row_written) (an_db (example_analyst ENGAGING)) :: unit svc_error + db)"
proof -
  let ?a = "policy_decision_args policy_row_written"
  have "subject_for_event_type ''policy.decision'' = Inr ''policy.decision''"
    by code_simp
  moreover have "length (canonical_json_bytes (\<lambda>_. ''0.5'') (be_payload ?a)) \<le> 900"
    by code_simp
  moreover have "be_event_type ?a = ''policy.decision''" "be_event_id ?a = None" "be_schema_version ?a = ''1.0''"
    by (simp_all add: policy_decision_args_def)
  ultimately have "publishable policy_env 1 ?a (an_db (example_analyst ENGAGING))"
    by (auto simp: publishable_def py_or_def policy_env_def example_env_def sample_env_def MAX_PAYLOAD_BYTES_def is_ok_def
        an_db_def example_analyst_def empty_db_def intro!: sample_accepts)
  from publishable_ok [OF this, where 'a = unit] show ?thesis
    by (auto simp: is_ok_def)
qed

lemma policy_stored:
  obtains d where "run_tx (store_policy_decision policy_env policy_proposal (evaluate_policy policy_proposal policy_facts) None) policy_tables = (Inr example_mid, d)"
    "ad_decisions d = [policy_row_written]"
proof -
  have ids: "env_ids policy_env 0 = example_mid"
    by (simp add: policy_env_def example_mid_def)
  have "is_ok (insert_decision policy_row_written policy_tables)"
    by code_simp
  then have ins: "insert_decision policy_row_written policy_tables = Inr (policy_tables\<lparr>ad_decisions := [policy_row_written]\<rparr>)"
    by (auto simp: insert_decision_def policy_tables_def split: if_splits)
  obtain db where pub: "publish_validated policy_env 1 (policy_decision_args policy_row_written) (an_db (example_analyst ENGAGING)) = (Inr db :: unit svc_error + db)"
    using policy_published by (rule is_okE)
  have "pd_decision_id policy_row_written = example_mid"
    by (simp add: policy_row_written_def decision_of_def)
  then show ?thesis
    using that [of "policy_tables\<lparr>ad_decisions := [policy_row_written], ad_db := insert_audit (decision_audit policy_row_written) db\<rparr>"] ins pub
    by (simp add: run_tx_def store_policy_decision_def ids Let_def policy_tables_def flip: policy_row_written_def del: One_nat_def)
qed

definition policy_analyst :: analyst where
  "policy_analyst = (example_analyst ENGAGING)\<lparr>an_policies := [policy_of policy_row_written]\<rparr>"


end
